(* ===== verification/Go_Base.thy ===== *)
theory Go_Base
  imports Main "HOL-Library.Word"
begin

text \<open>
  Prelude of the development: the Go values every component uses.
  \<^item> \<open>bytes\<close> and Go strings are byte sequences, so both are \<open>string\<close> (a \<open>char list\<close>).
  \<^item> \<open>duration\<close> and \<open>time\<close> count nanoseconds; \<open>time.Duration\<close> is an int64, and every
    duration of the program is a constant or a difference of clock readings far below that bound.
  \<^item> \<open>err\<close> is a non-nil Go \<open>error\<close>; a Go result \<open>error\<close> is \<open>err option\<close>
    (\<open>None\<close> is nil). The package \<open>github.com/grailbio/base/errors\<close> is not part of the
    repository: a call \<open>errors.E(...)\<close> is kept as the constructor \<open>ErrE\<close> on its argument
    list, and the predicates the program asks of an error (\<open>errors.Is\<close>, \<open>errors.Match\<close>,
    \<open>errors.IsTemporary\<close>, \<open>errors.Recover\<close>) are the fields of a parameter \<open>errlib\<close>.
  \<^item> The locale \<open>retry_loop\<close> is the interface of every retry loop of the program
    (\<open>attempt; classify; retry.Wait\<close>); its lemmas are shared by \<open>Machine.retryCall\<close>,
    \<open>Machine.RetryCall\<close> and the loops of the EC2 system.
\<close>

named_theorems go_simps \<open>definitions unfolded by the component proofs\<close>

type_synonym bytes = string
type_synonym duration = int
type_synonym time = int

definition Millisecond :: duration where "Millisecond = 1000000"
definition Second :: duration where "Second = 1000 * Millisecond"
definition Minute :: duration where "Minute = 60 * Second"
definition Hour :: duration where "Hour = 60 * Minute"

lemmas duration_defs = Millisecond_def Second_def Minute_def Hour_def

text \<open>Go's integer division truncates towards zero.\<close>

definition go_quot :: "int \<Rightarrow> int \<Rightarrow> int" where
  "go_quot a b = sgn a * sgn b * (\<bar>a\<bar> div \<bar>b\<bar>)"

lemma go_quot_nonneg [simp]: "0 \<le> a \<Longrightarrow> 0 < b \<Longrightarrow> go_quot a b = a div b"
  by (cases "a = 0") (simp_all add: go_quot_def)

subsection \<open>Errors\<close>

datatype kind = Net | Invalid | Unavailable | OOM | Remote | NotSupported | Precondition

datatype severity = Retriable | Temporary | Fatal

datatype err =
    Canceled            \<comment> \<open>\<open>context.Canceled\<close>\<close>
  | DeadlineExceeded    \<comment> \<open>\<open>context.DeadlineExceeded\<close>\<close>
  | EOF                 \<comment> \<open>\<open>io.EOF\<close>\<close>
  | Opaque string       \<comment> \<open>an error made by code outside the repository\<close>
  | Errorf string "arg list"  \<comment> \<open>\<open>fmt.Errorf\<close>, \<open>errors.New\<close>: the format and its arguments\<close>
  | ErrE "arg list"     \<comment> \<open>\<open>errors.E\<close> on its argument list\<close>
and arg = Kind kind | Severity severity | Str string | Num int | Dur int | Err err

record errlib =
  is_net :: "err \<Rightarrow> bool"        \<comment> \<open>\<open>errors.Is(errors.Net, err)\<close>\<close>
  match_fatal :: "err \<Rightarrow> bool"   \<comment> \<open>\<open>errors.Match(errors.E(errors.Fatal), err)\<close>\<close>
  is_temporary :: "err \<Rightarrow> bool"  \<comment> \<open>\<open>errors.IsTemporary(err)\<close>\<close>
  recover_err :: "err \<Rightarrow> err"    \<comment> \<open>\<open>errors.Recover(err)\<close>\<close>

text \<open>A concrete \<open>errlib\<close> that reads kind and severity off the arguments of \<open>ErrE\<close>; it
  serves the witnesses.\<close>

fun err_args :: "err \<Rightarrow> arg list" where
  "err_args (ErrE as) = as"
| "err_args _ = []"

definition arg_errlib :: errlib where
  "arg_errlib = \<lparr>
     is_net = (\<lambda>e. Kind Net \<in> set (err_args e)),
     match_fatal = (\<lambda>e. Severity Fatal \<in> set (err_args e)),
     is_temporary = (\<lambda>e. Severity Temporary \<in> set (err_args e)),
     recover_err = (\<lambda>e. e)\<rparr>"

subsection \<open>Results\<close>

text \<open>A computation that may panic, by the message it panics with.\<close>

datatype 'a outcome = Ok 'a | Panic string

fun bind_outcome :: "'a outcome \<Rightarrow> ('a \<Rightarrow> 'b outcome) \<Rightarrow> 'b outcome" where
  "bind_outcome (Ok x) f = f x"
| "bind_outcome (Panic s) f = Panic s"

lemma bind_outcome_Ok [simp]:
  "bind_outcome p f = Ok y \<longleftrightarrow> (\<exists>x. p = Ok x \<and> f x = Ok y)"
  by (cases p) auto

subsection \<open>Lists\<close>

lemma filter_partition_set:
  "set (filter P xs) \<union> set (filter (\<lambda>x. \<not> P x) xs) = set xs"
  by auto

lemma distinct_map_filter_disjoint:
  assumes "distinct (map f xs)"
  shows "set (map f (filter P xs)) \<inter> set (map f (filter (\<lambda>x. \<not> P x) xs)) = {}"
  using assms by (auto simp: distinct_map dest!: inj_onD)

lemma distinct_map_filterI [simp]:
  "distinct (map f xs) \<Longrightarrow> distinct (map f (filter P xs))"
  by (rule distinct_map_filter)

subsection \<open>Retry loops\<close>

text \<open>
  The shape shared by the program's retry loops: attempt; if the outcome is final, return it;
  otherwise \<open>retry.Wait\<close>, and give up when the wait fails. \<open>'w\<close> is the state of the world the
  attempts and waits act on, \<open>None\<close> as the loop's value is "does not return".
\<close>

locale retry_loop =
  fixes attempt :: "'w \<Rightarrow> 'r \<times> 'w"
    and final :: "nat \<Rightarrow> 'r \<Rightarrow> 'o option"
    and wait :: "nat \<Rightarrow> 'w \<Rightarrow> err option \<times> 'w"
    and gaveup :: "err \<Rightarrow> 'o"
    and loop :: "nat \<Rightarrow> 'w \<Rightarrow> ('o \<times> 'w) option"
  assumes unfold: "loop n w =
    (case attempt w of (r, w1) \<Rightarrow>
       (case final n r of
          Some out \<Rightarrow> Some (out, w1)
        | None \<Rightarrow>
            (case wait n w1 of
               (Some e, w2) \<Rightarrow> Some (gaveup e, w2)
             | (None, w2) \<Rightarrow> loop (Suc n) w2)))"
    and induct: "\<And>P n w r.
      \<lbrakk>\<And>n w a w1 out. attempt w = (a, w1) \<Longrightarrow> final n a = Some out \<Longrightarrow> P n w (out, w1);
       \<And>n w a w1 e w2. attempt w = (a, w1) \<Longrightarrow> final n a = None \<Longrightarrow>
          wait n w1 = (Some e, w2) \<Longrightarrow> P n w (gaveup e, w2);
       \<And>n w a w1 w2 r. attempt w = (a, w1) \<Longrightarrow> final n a = None \<Longrightarrow>
          wait n w1 = (None, w2) \<Longrightarrow> P (Suc n) w2 r \<Longrightarrow> P n w r;
       loop n w = Some r\<rbrakk> \<Longrightarrow> P n w r"
begin

text \<open>What a loop that returns can return: the final outcome of its last attempt, or what giving
  up on a failed wait gives.\<close>

lemma result_cases:
  assumes "loop n w = Some (out, w')"
  shows "(\<exists>k w0 a. attempt w0 = (a, w') \<and> final k a = Some out) \<or>
         (\<exists>k w0 e. wait k w0 = (Some e, w') \<and> out = gaveup e)"
proof -
  define P :: "nat \<Rightarrow> 'w \<Rightarrow> 'o \<times> 'w \<Rightarrow> bool" where
    "P = (\<lambda>n w r. (\<exists>k w0 a. attempt w0 = (a, snd r) \<and> final k a = Some (fst r)) \<or>
         (\<exists>k w0 e. wait k w0 = (Some e, snd r) \<and> fst r = gaveup e))"
  have "P n w (out, w')"
    by (rule induct [OF _ _ _ assms]) (unfold P_def, fastforce+)
  then show ?thesis by (simp add: P_def)
qed

lemma final_at_once:
  assumes "attempt w = (r, w1)" "final n r = Some out"
  shows "loop n w = Some (out, w1)"
  by (subst unfold) (simp add: assms)

lemma wait_fails:
  assumes "attempt w = (r, w1)" "final n r = None" "wait n w1 = (Some e, w2)"
  shows "loop n w = Some (gaveup e, w2)"
  by (subst unfold) (simp add: assms)

lemma retries:
  assumes "attempt w = (r, w1)" "final n r = None" "wait n w1 = (None, w2)"
  shows "loop n w = loop (Suc n) w2"
  by (subst unfold) (simp add: assms)

text \<open>
  Termination: \<open>clock\<close> reads the world's clock. Attempts do not turn it back, a wait that
  succeeds advances it by at least \<open>d > 0\<close> and ends no later than \<open>deadline\<close>. Then the loop
  returns.
\<close>

lemma returns:
  fixes clock :: "'w \<Rightarrow> int"
  assumes d: "0 < d"
    and att: "\<And>w. clock w \<le> clock (snd (attempt w))"
    and wait_ok: "\<And>n w w'. wait n w = (None, w') \<Longrightarrow> clock w + d \<le> clock w' \<and> clock w' \<le> deadline"
  shows "\<exists>r. loop n w = Some r"
proof (induction "nat (deadline + d - clock w)" arbitrary: n w rule: less_induct)
  case less
  obtain r w1 where a: "attempt w = (r, w1)" by (cases "attempt w")
  show ?case
  proof (cases "final n r")
    case (Some out)
    then show ?thesis using final_at_once [OF a] by blast
  next
    case None
    obtain e w2 where wt: "wait n w1 = (e, w2)" by (cases "wait n w1")
    show ?thesis
    proof (cases e)
      case (Some e')
      then show ?thesis using wait_fails [OF a None] wt by blast
    next
      case e: None
      have "clock w1 + d \<le> clock w2" "clock w2 \<le> deadline"
        using wait_ok wt e by blast+
      moreover have "clock w \<le> clock w1" using att [of w] a by simp
      ultimately have "nat (deadline + d - clock w2) < nat (deadline + d - clock w)"
        using d by linarith
      then obtain r' where "loop (Suc n) w2 = Some r'" using less by blast
      then show ?thesis using retries [OF a None] wt e by simp
    qed
  qed
qed

text \<open>
  Bounds: when moreover one attempt takes at most \<open>c\<close> and a failing wait returns by \<open>deadline\<close>,
  a loop entered by the deadline is over by \<open>deadline + c\<close>.
\<close>

lemma returns_by:
  fixes clock :: "'w \<Rightarrow> int"
  assumes d: "0 < d" and c: "0 \<le> c"
    and att: "\<And>w. clock w \<le> clock (snd (attempt w)) \<and> clock (snd (attempt w)) \<le> clock w + c"
    and wait_ok: "\<And>n w w'. wait n w = (None, w') \<Longrightarrow> clock w + d \<le> clock w' \<and> clock w' \<le> deadline"
    and wait_err: "\<And>n w e w'. wait n w = (Some e, w') \<Longrightarrow> clock w' \<le> max deadline (clock w)"
    and start: "clock w \<le> deadline"
  shows "\<exists>r w'. loop n w = Some (r, w') \<and> clock w' \<le> deadline + c"
  using start
proof (induction "nat (deadline + d - clock w)" arbitrary: n w rule: less_induct)
  case less
  obtain r w1 where a: "attempt w = (r, w1)" by (cases "attempt w")
  have w1: "clock w \<le> clock w1" "clock w1 \<le> clock w + c" using att [of w] a by simp_all
  show ?case
  proof (cases "final n r")
    case (Some out)
    then show ?thesis using final_at_once [OF a] w1 less.prems by force
  next
    case None
    obtain e w2 where wt: "wait n w1 = (e, w2)" by (cases "wait n w1")
    show ?thesis
    proof (cases e)
      case (Some e')
      then have "clock w2 \<le> deadline + c" using wait_err [of n w1 e' w2] wt w1 c less.prems by simp
      then show ?thesis using wait_fails [OF a None] wt Some by blast
    next
      case e: None
      have w2: "clock w1 + d \<le> clock w2" "clock w2 \<le> deadline"
        using wait_ok wt e by blast+
      then have "nat (deadline + d - clock w2) < nat (deadline + d - clock w)"
        using d w1 by linarith
      then show ?thesis using less w2 retries [OF a None] wt e by metis
    qed
  qed
qed

end

text \<open>The loop itself, for callers that have no code of their own around it.\<close>

partial_function (option) retry ::
  "('w \<Rightarrow> 'r \<times> 'w) \<Rightarrow> (nat \<Rightarrow> 'r \<Rightarrow> 'o option) \<Rightarrow> (nat \<Rightarrow> 'w \<Rightarrow> err option \<times> 'w) \<Rightarrow> (err \<Rightarrow> 'o)
    \<Rightarrow> nat \<Rightarrow> 'w \<Rightarrow> ('o \<times> 'w) option" where
  "retry attempt final wait gaveup n w =
     (case attempt w of (r, w1) \<Rightarrow>
        (case final n r of
           Some out \<Rightarrow> Some (out, w1)
         | None \<Rightarrow>
             (case wait n w1 of
                (Some e, w2) \<Rightarrow> Some (gaveup e, w2)
              | (None, w2) \<Rightarrow> retry attempt final wait gaveup (Suc n) w2)))"

interpretation rt: retry_loop attempt final wait gaveup "retry attempt final wait gaveup"
  for attempt final wait gaveup
proof
  show "retry attempt final wait gaveup n w =
     (case attempt w of (r, w1) \<Rightarrow>
        (case final n r of
           Some out \<Rightarrow> Some (out, w1)
         | None \<Rightarrow>
             (case wait n w1 of
                (Some e, w2) \<Rightarrow> Some (gaveup e, w2)
              | (None, w2) \<Rightarrow> retry attempt final wait gaveup (Suc n) w2)))" for n w
    by (rule retry.simps)
next
  fix P n w r
  assume step1: "\<And>n w a w1 out. attempt w = (a, w1) \<Longrightarrow> final n a = Some out \<Longrightarrow> P n w (out, w1)"
    and step2: "\<And>n w a w1 e w2. attempt w = (a, w1) \<Longrightarrow> final n a = None \<Longrightarrow>
       wait n w1 = (Some e, w2) \<Longrightarrow> P n w (gaveup e, w2)"
    and step3: "\<And>n w a w1 w2 r. attempt w = (a, w1) \<Longrightarrow> final n a = None \<Longrightarrow>
       wait n w1 = (None, w2) \<Longrightarrow> P (Suc n) w2 r \<Longrightarrow> P n w r"
    and ret: "retry attempt final wait gaveup n w = Some r"
  have "attempt = attempt \<and> final = final \<and> wait = wait \<and> gaveup = gaveup \<longrightarrow> P n w r"
  proof (rule retry.raw_induct
      [where P = "\<lambda>at' fi' wa' ga' n w r.
         at' = attempt \<and> fi' = final \<and> wa' = wait \<and> ga' = gaveup \<longrightarrow> P n w r", OF _ ret], goal_cases)
    case (1 f at' fi' wa' ga' n w r)
    note IH = "1"(1) and body = "1"(2)
    obtain a w1 where a: "at' w = (a, w1)" by (metis surj_pair)
    obtain e w2 where wt: "wa' n w1 = (e, w2)" by (metis surj_pair)
    show ?case
    proof (intro impI, elim conjE)
      assume eqs: "at' = attempt" "fi' = final" "wa' = wait" "ga' = gaveup"
      show "P n w r"
      proof (cases "final n a")
        case (Some out)
        then have "r = (out, w1)" using body a eqs by simp
        then show ?thesis using step1 a Some eqs by blast
      next
        case None
        show ?thesis
        proof (cases e)
          case (Some x)
          then have "r = (gaveup x, w2)" using body a None wt eqs by simp
          then show ?thesis using step2 a None wt Some eqs by blast
        next
          case e: None
          then have "f at' fi' wa' ga' (Suc n) w2 = Some r" using body a None wt eqs by simp
          then have "P (Suc n) w2 r" using IH eqs by blast
          then show ?thesis using step3 a None wt e eqs by blast
        qed
      qed
    qed
  qed
  then show "P n w r" by blast
qed

end
