(* ===== verification/Rpc_Stats.thy ===== *)
theory Rpc_Stats
  imports Go_Base
begin

text \<open>
  The RPC statistics (\<open>rpc/stats.go\<close>): a tree of counters, kept here as a store from paths to
  entries; a \<open>treestats\<close> is the path of its node. The counters are int64 in the code and are
  sums of sizes and times, so they are unbounded here. \<open>rpc/log.go\<close>'s rate-limited output is here too.
\<close>

datatype sentry = ETree | EInt int

type_synonym stats = "string list \<rightharpoonup> sentry"

text \<open>The methods of \<open>expvar.Map\<close> the code uses, at a node.\<close>

definition expvar_Add :: "string list \<Rightarrow> string \<Rightarrow> int \<Rightarrow> stats \<Rightarrow> stats" where
  "expvar_Add node key delta st =
     (case st (node @ [key]) of
        None \<Rightarrow> st(node @ [key] \<mapsto> EInt delta)
      | Some (EInt n) \<Rightarrow> st(node @ [key] \<mapsto> EInt (n + delta))
      | Some ETree \<Rightarrow> st)"

text \<open>\<open>Child\<close> and \<open>Path\<close>: the node, created where it does not exist.\<close>

definition Child :: "string list \<Rightarrow> string \<Rightarrow> stats \<Rightarrow> string list \<times> stats" where
  "Child node name st =
     (if st (node @ [name]) = Some ETree then (node @ [name], st)
      else (node @ [name], st(node @ [name] \<mapsto> ETree)))"

fun Path :: "string list \<Rightarrow> string list \<Rightarrow> stats \<Rightarrow> string list \<times> stats" where
  "Path child [] st = (child, st)"
| "Path child (name # names) st = (case Child child name st of (child, st) \<Rightarrow> Path child names st)"

text \<open>\<open>r.Path(names...).Add(key, delta)\<close>\<close>

definition add_at :: "string list \<Rightarrow> string \<Rightarrow> int \<Rightarrow> stats \<Rightarrow> stats" where
  "add_at names key delta st = (case Path [] names st of (node, st) \<Rightarrow> expvar_Add node key delta st)"

text \<open>\<open>rpcstats.max\<close>: the reading of the current value, and the update that follows it.\<close>

definition max_read :: "string list \<Rightarrow> string \<Rightarrow> stats \<Rightarrow> int option \<times> stats" where
  "max_read path name st =
     (let st = add_at path name 0 st
      in (case st (path @ [name]) of Some (EInt iv) \<Rightarrow> Some iv | _ \<Rightarrow> None, st))"

definition max_set :: "int \<Rightarrow> string list \<Rightarrow> string \<Rightarrow> int option \<Rightarrow> stats \<Rightarrow> stats" where
  "max_set val path name iv st =
     (case iv of Some i \<Rightarrow> if val > i then st(path @ [name] \<mapsto> EInt val) else st | None \<Rightarrow> st)"

definition stats_max :: "int \<Rightarrow> string list \<Rightarrow> string \<Rightarrow> stats \<Rightarrow> stats" where
  "stats_max val path name st = (case max_read path name st of (iv, st) \<Rightarrow> max_set val path name iv st)"

definition stats_Start :: "string \<Rightarrow> string \<Rightarrow> stats \<Rightarrow> stats" where
  "stats_Start addr method st =
     (let st = add_at [''method'', method] ''count'' 1 st
      in if addr \<noteq> '''' then add_at [''machine'', addr, ''method'', method] ''count'' 1 st else st)"

definition stats_done :: "string \<Rightarrow> string \<Rightarrow> int \<Rightarrow> int \<Rightarrow> err option \<Rightarrow> int \<Rightarrow> stats \<Rightarrow> stats" where
  "stats_done addr method requestBytes replyBytes e elapsed st =
     (let st = add_at [''method'', method] ''time'' elapsed st;
          st = (if requestBytes > 0
                then stats_max requestBytes [''method'', method] ''maxrequestbytes''
                       (add_at [''method'', method] ''requestbytes'' requestBytes st) else st);
          st = (if replyBytes > 0
                then stats_max replyBytes [''method'', method] ''maxreplybytes''
                       (add_at [''method'', method] ''replybytes'' replyBytes st) else st);
          st = (if e \<noteq> None then add_at [''method'', method] ''errors'' 1 st else st);
          st = stats_max elapsed [''method'', method] ''maxtime'' st
      in if addr \<noteq> '''' then
           stats_max elapsed [''machine'', addr, ''method'', method] ''maxtime''
             (add_at [''machine'', addr, ''method'', method] ''time'' elapsed st)
         else st)"

text \<open>The rate-limited logger: a message that the limiter does not allow is dropped.\<close>

definition rateLimiting_Output :: "bool \<Rightarrow> string \<Rightarrow> string list \<Rightarrow> err option \<Rightarrow> err option \<times> string list" where
  "rateLimiting_Output allow s out out_err = (if \<not> allow then (None, out) else (out_err, out @ [s]))"

subsection \<open>What the counters hold\<close>

text \<open>A leaf is a path where the code keeps counters, never a subtree.\<close>

definition leaf :: "string list \<Rightarrow> bool" where
  "leaf p \<longleftrightarrow> (\<exists>m k. p = [''method'', m, k]) \<or> (\<exists>a m k. p = [''machine'', a, ''method'', m, k])"

definition node :: "string list \<Rightarrow> bool" where
  "node ns \<longleftrightarrow> (\<exists>m. ns = [''method'', m]) \<or> (\<exists>a m. ns = [''machine'', a, ''method'', m])"

lemma leaf_node: "leaf (ns @ [k]) \<longleftrightarrow> node ns"
  by (auto simp: leaf_def node_def)

definition stats_inv :: "stats \<Rightarrow> bool" where
  "stats_inv st \<longleftrightarrow> (\<forall>p. leaf p \<longrightarrow> st p \<noteq> Some ETree)"

definition counter :: "stats \<Rightarrow> string list \<Rightarrow> int" where
  "counter st p = (case st p of Some (EInt n) \<Rightarrow> n | _ \<Rightarrow> 0)"

lemma Path_result: "fst (Path child names st) = child @ names"
  by (induction names arbitrary: child st) (auto simp: Child_def)

lemma Path_leaf:
  assumes "\<And>i. i < length names \<Longrightarrow> \<not> leaf (child @ take (Suc i) names)" "leaf p"
  shows "snd (Path child names st) p = st p"
  using assms(1)
proof (induction names arbitrary: child st)
  case (Cons n names)
  have "\<not> leaf (child @ [n])" using Cons.prems [of 0] by simp
  then have "p \<noteq> child @ [n]" using assms(2) by auto
  moreover have "\<not> leaf ((child @ [n]) @ take (Suc i) names)" if "i < length names" for i
    using Cons.prems [of "Suc i"] that by simp
  ultimately show ?case using Cons.IH [of "child @ [n]"] by (auto simp: Child_def)
qed simp

lemma node_prefix_not_leaf:
  assumes "node ns" "i < length ns"
  shows "\<not> leaf (take (Suc i) ns)"
  using assms by (auto simp: node_def leaf_def take_Suc_Cons less_Suc_eq numeral_nat)

lemma add_at_leaf:
  assumes "node ns" "stats_inv st" "leaf p"
  shows "stats_inv (add_at ns k d st)"
    and "counter (add_at ns k d st) p = counter st p + (if p = ns @ [k] then d else 0)"
proof -
  obtain st' where P: "Path [] ns st = (ns, st')" using Path_result [of "[]" ns st] by (cases "Path [] ns st") auto
  have keep: "st' q = st q" if "leaf q" for q
    using Path_leaf [of ns "[]" q st] node_prefix_not_leaf [OF assms(1)] that P by simp
  have lk: "leaf (ns @ [k])" using assms(1) by (simp add: leaf_node)
  show "stats_inv (add_at ns k d st)"
    using assms(2) keep lk
    by (auto simp: stats_inv_def add_at_def P expvar_Add_def split: option.splits sentry.splits)
  have "st (ns @ [k]) \<noteq> Some ETree" using assms(2) lk by (simp add: stats_inv_def)
  then show "counter (add_at ns k d st) p = counter st p + (if p = ns @ [k] then d else 0)"
    using keep [OF lk] keep [OF assms(3)]
    by (auto simp: add_at_def P expvar_Add_def counter_def split: option.splits sentry.splits)
qed

lemma max_leaf:
  assumes "node ns" "stats_inv st" "leaf p"
  shows "stats_inv (stats_max v ns k st)"
    and "counter (stats_max v ns k st) p = (if p = ns @ [k] then max v (counter st p) else counter st p)"
proof -
  have lk: "leaf (ns @ [k])" using assms(1) by (simp add: leaf_node)
  define st1 where "st1 = add_at ns k 0 st"
  have inv: "stats_inv st1" using add_at_leaf(1) [OF assms] by (simp add: st1_def)
  have c: "counter st1 q = counter st q" if "leaf q" for q
    using add_at_leaf(2) [OF assms(1,2) that, of k 0] by (simp add: st1_def)
  have "st1 (ns @ [k]) \<noteq> None"
  proof -
    have "expvar_Add ns k 0 s (ns @ [k]) \<noteq> None" for s
      by (simp add: expvar_Add_def split: option.splits sentry.splits)
    then show ?thesis using Path_result [of "[]" ns st] by (simp add: st1_def add_at_def case_prod_beta)
  qed
  then obtain n where n: "st1 (ns @ [k]) = Some (EInt n)"
    using inv lk by (cases "st1 (ns @ [k])"; cases "the (st1 (ns @ [k]))") (auto simp: stats_inv_def)
  have eq: "stats_max v ns k st = (if v > n then st1(ns @ [k] \<mapsto> EInt v) else st1)"
    by (simp add: stats_max_def max_read_def max_set_def Let_def st1_def [symmetric] n)
  show "stats_inv (stats_max v ns k st)" using inv by (simp add: eq stats_inv_def)
  show "counter (stats_max v ns k st) p = (if p = ns @ [k] then max v (counter st p) else counter st p)"
    using c [OF assms(3)] c [OF lk] n by (auto simp: eq counter_def split: option.splits)
qed

lemma stats_inv_ops [simp]:
  assumes "node ns" "stats_inv st"
  shows "stats_inv (add_at ns k d st)" "stats_inv (stats_max v ns k st)"
  using add_at_leaf(1) [OF assms] max_leaf(1) [OF assms] assms(1) leaf_node by blast+

subsection \<open>The statistics of a history of calls\<close>

datatype sevent = EvStart string string | EvDone string string int int "err option" int

fun run_sevent :: "sevent \<Rightarrow> stats \<Rightarrow> stats" where
  "run_sevent (EvStart addr m) st = stats_Start addr m st"
| "run_sevent (EvDone addr m rq rp e t) st = stats_done addr m rq rp e t st"

definition run_sevents :: "sevent list \<Rightarrow> stats" where
  "run_sevents evs = fold run_sevent evs Map.empty"

text \<open>What a call contributes to the counters of its method, by counter, and to those of its machine and method.\<close>

fun adds :: "string \<Rightarrow> sevent \<Rightarrow> int" where
  "adds k (EvStart addr m) = (if k = ''count'' then 1 else 0)"
| "adds k (EvDone addr m rq rp e t) =
     (if k = ''time'' then t else if k = ''requestbytes'' then max rq 0
      else if k = ''replybytes'' then max rp 0
      else if k = ''errors'' then (if e \<noteq> None then 1 else 0) else 0)"

fun on_method :: "string \<Rightarrow> sevent \<Rightarrow> bool" where
  "on_method m (EvStart addr m') = (m' = m)"
| "on_method m (EvDone addr m' rq rp e t) = (m' = m)"

fun on_machine :: "string \<Rightarrow> sevent \<Rightarrow> bool" where
  "on_machine a (EvStart addr m) = (addr = a)"
| "on_machine a (EvDone addr m rq rp e t) = (addr = a)"

lemmas node_simps = node_def leaf_def

lemma inv_and_counter:
  assumes "stats_inv st"
  shows "stats_inv (run_sevent ev st)"
    and "k \<in> {''count'', ''time'', ''requestbytes'', ''replybytes'', ''errors''} \<Longrightarrow>
      counter (run_sevent ev st) [''method'', m, k] =
      counter st [''method'', m, k] + (if on_method m ev then adds k ev else 0)"
    and "k \<in> {''count'', ''time''} \<Longrightarrow> a \<noteq> '''' \<Longrightarrow>
      counter (run_sevent ev st) [''machine'', a, ''method'', m, k] =
      counter st [''machine'', a, ''method'', m, k] + (if on_machine a ev \<and> on_method m ev then adds k ev else 0)"
proof -
  note step = stats_inv_ops add_at_leaf(2) max_leaf(2)
  have n: "node [''method'', m']" "node [''machine'', a', ''method'', m']" for a' m' by (simp_all add: node_def)
  have l: "leaf [''method'', m, k']" "leaf [''machine'', a, ''method'', m, k']" for k' by (simp_all add: leaf_def)
  show "stats_inv (run_sevent ev st)"
    by (cases ev) (auto simp: stats_Start_def stats_done_def Let_def step n l assms)
  show "counter (run_sevent ev st) [''method'', m, k] =
      counter st [''method'', m, k] + (if on_method m ev then adds k ev else 0)"
    if "k \<in> {''count'', ''time'', ''requestbytes'', ''replybytes'', ''errors''}"
    using that by (cases ev) (auto simp: stats_Start_def stats_done_def Let_def step n l assms)
  show "counter (run_sevent ev st) [''machine'', a, ''method'', m, k] =
      counter st [''machine'', a, ''method'', m, k] + (if on_machine a ev \<and> on_method m ev then adds k ev else 0)"
    if "k \<in> {''count'', ''time''}" "a \<noteq> ''''"
    using that by (cases ev) (auto simp: stats_Start_def stats_done_def Let_def step n l assms)
qed

lemma stats_run:
  "stats_inv st \<Longrightarrow> stats_inv (fold run_sevent evs st)"
  by (induction evs arbitrary: st) (auto intro: inv_and_counter(1))

lemma counter_run:
  assumes "stats_inv st"
  shows "k \<in> {''count'', ''time'', ''requestbytes'', ''replybytes'', ''errors''} \<Longrightarrow>
      counter (fold run_sevent evs st) [''method'', m, k] =
      counter st [''method'', m, k] + (\<Sum>ev \<leftarrow> filter (on_method m) evs. adds k ev)"
    and "k \<in> {''count'', ''time''} \<Longrightarrow> a \<noteq> '''' \<Longrightarrow>
      counter (fold run_sevent evs st) [''machine'', a, ''method'', m, k] =
      counter st [''machine'', a, ''method'', m, k] +
        (\<Sum>ev \<leftarrow> filter (\<lambda>ev. on_machine a ev \<and> on_method m ev) evs. adds k ev)"
  using assms
proof (induction evs arbitrary: st)
  case (Cons ev evs)
  { case 1
    then show ?case using Cons.IH(1) [OF _ inv_and_counter(1)] inv_and_counter(2) [OF 1(2,1), of ev m] by simp
  next
    case 2
    then show ?case using Cons.IH(2) [OF _ _ inv_and_counter(1)] inv_and_counter(3) [OF 2(3,1,2), of ev m] by simp }
qed simp_all

lemma stats_inv_empty: "stats_inv Map.empty"
  by (simp add: stats_inv_def)

text \<open>C36. The statistics are those of the calls made, as long as the updates of one call do not overlap another's: the
  counters of a method hold the number of calls started, of calls that failed, and the totals of their times and
  sizes; those of a machine and method hold the same of the calls to that machine.\<close>

theorem stats_history:
  assumes "k \<in> {''count'', ''time'', ''requestbytes'', ''replybytes'', ''errors''}"
  shows "counter (run_sevents evs) [''method'', m, k] = (\<Sum>ev \<leftarrow> filter (on_method m) evs. adds k ev) \<and>
    (k \<in> {''count'', ''time''} \<and> a \<noteq> '''' \<longrightarrow>
      counter (run_sevents evs) [''machine'', a, ''method'', m, k] =
        (\<Sum>ev \<leftarrow> filter (\<lambda>ev. on_machine a ev \<and> on_method m ev) evs. adds k ev))"
  using counter_run [OF stats_inv_empty] assms by (simp add: run_sevents_def counter_def)

theorem stats_history_witness:
  "counter (run_sevents [EvStart ''h'' ''S.M'', EvStart '''' ''S.N'', EvDone ''h'' ''S.M'' 7 (-1) (Some EOF) 3])
     [''method'', ''S.M'', ''requestbytes''] = 7"
  using stats_history [of "''requestbytes''" "[EvStart ''h'' ''S.M'', EvStart '''' ''S.N'', EvDone ''h'' ''S.M'' 7 (-1) (Some EOF) 3]"
      "''S.M''" "''h''"] by simp

text \<open>The maxima are not safe under overlap: \<open>max\<close> reads a counter and then overwrites it, so of two overlapping
  calls the one with the smaller value can win.\<close>

theorem stats_max_lost_update:
  "\<exists>st1 st2 iv1 iv2.
     max_read [''method'', m] ''maxtime'' Map.empty = (iv1, st1) \<and>
     max_read [''method'', m] ''maxtime'' st1 = (iv2, st2) \<and>
     counter (max_set 5 [''method'', m] ''maxtime'' iv2 (max_set 9 [''method'', m] ''maxtime'' iv1 st2))
       [''method'', m, ''maxtime''] = 5"
  by (simp add: max_read_def max_set_def add_at_def Child_def expvar_Add_def Let_def counter_def)

end
