(* ===== verification/Machine_State.thy ===== *)
theory Machine_State
  imports Go_Base
begin

text \<open>
  The state of one machine (\<open>machine.go\<close>: \<open>State\<close>, \<open>Machine\<close>, \<open>Wait\<close>, \<open>setState\<close>,
  \<open>setError\<close>, \<open>context\<close>, \<open>KeepaliveReplyTimes\<close>).
  \<open>machine\<close> has the fields of the Go struct, and the part of the heap those fields point into:
  channels and context cancellations are numbered by \<open>nextId\<close>; \<open>closed\<close> lists the closed
  channels, \<open>canceled\<close> the canceled contexts, \<open>pending\<close> the channels a \<open>setState\<close> call
  has triggered and closes after it has released the mutex; \<open>events\<close> is what was handed to
  \<open>m.event\<close>. Every critical section of the struct's mutex is one \<open>act\<close>; a list of acts run by
  \<open>run_acts\<close> is one interleaving of the goroutines that use the machine.
\<close>

subsection \<open>Machine states\<close>

datatype State = Unstarted | Starting | Running | Stopped

fun State_value :: "State \<Rightarrow> int" where
  "State_value Unstarted = 0"
| "State_value Starting = 1"
| "State_value Running = 2"
| "State_value Stopped = 3"

fun State_String :: "State \<Rightarrow> string" where
  "State_String Unstarted = ''UNSTARTED''"
| "State_String Starting = ''STARTING''"
| "State_String Running = ''RUNNING''"
| "State_String Stopped = ''STOPPED''"

instantiation State :: linorder
begin
definition less_eq_State :: "State \<Rightarrow> State \<Rightarrow> bool" where
  "s \<le> t \<longleftrightarrow> State_value s \<le> State_value t"
definition less_State :: "State \<Rightarrow> State \<Rightarrow> bool" where
  "s < t \<longleftrightarrow> State_value s < State_value t"
instance
proof
  fix s t u :: State
  show "s < t \<longleftrightarrow> s \<le> t \<and> \<not> t \<le> s" by (auto simp: less_eq_State_def less_State_def)
  show "s \<le> s" by (simp add: less_eq_State_def)
  show "s \<le> t \<Longrightarrow> t \<le> u \<Longrightarrow> s \<le> u" by (simp add: less_eq_State_def)
  show "s \<le> t \<or> t \<le> s" by (auto simp: less_eq_State_def)
  show "s \<le> t \<Longrightarrow> t \<le> s \<Longrightarrow> s = t"
    by (cases s; cases t) (simp_all add: less_eq_State_def)
qed
end

subsection \<open>The Machine struct\<close>

datatype event = Event string "(string \<times> arg) list"

definition numKeepaliveReplyTimes :: nat where "numKeepaliveReplyTimes = 10"

record 'i machine =
  Addr :: string
  Maxprocs :: int
  NoExec :: bool
  services :: "(string \<times> 'i) list"
  environ :: "string list"
  owner :: bool
  state :: State
  merr :: "err option"
  waiters :: "(nat \<times> State) list"
  cancelers :: "nat list"
  nextKeepalive :: time
  numKeepalive :: nat
  keepaliveReplyTimes :: "duration list"
  keepalivePeriod :: duration
  keepaliveTimeout :: duration
  keepaliveRpcTimeout :: duration
  tailDone :: "nat option"
  nextId :: nat
  closed :: "nat list"
  pending :: "nat list"
  canceled :: "nat list"
  events :: "event list"

text \<open>\<open>new(Machine)\<close> with an address: every other field has Go's zero value.\<close>

definition new_machine :: "string \<Rightarrow> 'i machine" where
  "new_machine addr = \<lparr>Addr = addr, Maxprocs = 0, NoExec = False, services = [], environ = [],
     owner = False, state = Unstarted, merr = None, waiters = [], cancelers = [],
     nextKeepalive = 0, numKeepalive = 0,
     keepaliveReplyTimes = replicate numKeepaliveReplyTimes 0,
     keepalivePeriod = 0, keepaliveTimeout = 0, keepaliveRpcTimeout = 0, tailDone = None,
     nextId = 0, closed = [], pending = [], canceled = [], events = []\<rparr>"

definition Owned :: "'i machine \<Rightarrow> bool" where "Owned m = owner m"

definition KeepaliveReplyTimes :: "'i machine \<Rightarrow> duration list" where
  "KeepaliveReplyTimes m =
     (let n = length (keepaliveReplyTimes m);
          n = (if numKeepalive m < n then numKeepalive m else n)
      in map (\<lambda>i. keepaliveReplyTimes m ! ((numKeepalive m - i - 1) mod n)) [0..<n])"

definition NextKeepalive :: "'i machine \<Rightarrow> time" where "NextKeepalive m = nextKeepalive m"

definition Machine_Err :: "'i machine \<Rightarrow> err option" where "Machine_Err m = merr m"

subsection \<open>Operations\<close>

text \<open>\<open>Wait\<close>: a fresh channel, closed at once when the state is reached already.\<close>

definition Wait :: "State \<Rightarrow> 'i machine \<Rightarrow> nat \<times> 'i machine" where
  "Wait s m =
     (let c = nextId m; m = m\<lparr>nextId := Suc c\<rparr>
      in if s \<le> state m then (c, m\<lparr>closed := closed m @ [c]\<rparr>)
         else (c, m\<lparr>waiters := waiters m @ [(c, s)]\<rparr>))"

text \<open>The critical section of \<open>setState\<close>: the triggered channels and the machine after it.\<close>

definition setState_locked :: "State \<Rightarrow> 'i machine \<Rightarrow> nat list \<times> 'i machine" where
  "setState_locked s m =
     (let ws = waiters m;
          triggered = map fst (filter (\<lambda>w. snd w \<le> s) ws);
          m = m\<lparr>waiters := filter (\<lambda>w. \<not> snd w \<le> s) ws, state := s\<rparr>;
          m = (if Stopped \<le> s
               then m\<lparr>canceled := canceled m @ cancelers m, cancelers := [],
                      events := events m @ [Event ''bigmachine:machineStop'' [(''addr'', Str (Addr m))]]\<rparr>
               else m)
      in (triggered, m))"

text \<open>Go's \<open>close\<close>: closing a closed channel panics.\<close>

definition close_chan :: "nat \<Rightarrow> 'i machine \<Rightarrow> 'i machine outcome" where
  "close_chan c m =
     (if c \<in> set (closed m) then Panic ''close of closed channel''
      else Ok (m\<lparr>closed := closed m @ [c]\<rparr>))"

fun close_chans :: "nat list \<Rightarrow> 'i machine \<Rightarrow> 'i machine outcome" where
  "close_chans [] m = Ok m"
| "close_chans (c # cs) m = bind_outcome (close_chan c m) (close_chans cs)"

definition setState :: "State \<Rightarrow> 'i machine \<Rightarrow> 'i machine outcome" where
  "setState s m = (let (triggered, m) = setState_locked s m in close_chans triggered m)"

text \<open>\<open>setError\<close> sets the error, stops the machine and logs; \<open>errorString\<close> is \<open>err.Error()\<close>.\<close>

definition setError :: "(err \<Rightarrow> string) \<Rightarrow> err \<Rightarrow> 'i machine \<Rightarrow> 'i machine outcome" where
  "setError errorString e m =
     bind_outcome (setState Stopped (m\<lparr>merr := Some e\<rparr>))
       (\<lambda>m. Ok (m\<lparr>events := events m @
          [Event ''bigmachine:machineError'' [(''addr'', Str (Addr m)), (''error'', Str (errorString e))]]\<rparr>))"

text \<open>\<open>context\<close>: a derived context, canceled at once on a stopped machine and registered with the
  machine otherwise; \<open>release\<close> is the function \<open>context\<close> returns beside it.\<close>

definition machine_context :: "'i machine \<Rightarrow> nat \<times> 'i machine" where
  "machine_context m =
     (let c = nextId m; m = m\<lparr>nextId := Suc c\<rparr>
      in if Stopped \<le> state m then (c, m\<lparr>canceled := canceled m @ [c]\<rparr>)
         else (c, m\<lparr>cancelers := cancelers m @ [c]\<rparr>))"

definition release :: "nat \<Rightarrow> 'i machine \<Rightarrow> 'i machine" where
  "release c m = m\<lparr>cancelers := filter (\<lambda>d. d \<noteq> c) (cancelers m)\<rparr>"

text \<open>The bookkeeping of one keepalive reply in \<open>loop\<close>.\<close>

definition record_keepalive :: "duration \<Rightarrow> time \<Rightarrow> 'i machine \<Rightarrow> 'i machine" where
  "record_keepalive rtt next_time m =
     m\<lparr>keepaliveReplyTimes :=
         (keepaliveReplyTimes m)[numKeepalive m mod length (keepaliveReplyTimes m) := rtt],
       numKeepalive := numKeepalive m + 1,
       nextKeepalive := next_time\<rparr>"

subsection \<open>Interleavings of critical sections\<close>

datatype act =
    AWait State | ASetState State | AClose nat | ASetErr err
  | AContext | ARelease nat | AKeepalive duration time | AEvent event

fun run_act :: "act \<Rightarrow> 'i machine \<Rightarrow> 'i machine" where
  "run_act (AWait s) m = snd (Wait s m)"
| "run_act (ASetState s) m =
     (let (triggered, m') = setState_locked s m in m'\<lparr>pending := pending m @ triggered\<rparr>)"
| "run_act (AClose c) m =
     (if c \<in> set (pending m)
      then m\<lparr>pending := remove1 c (pending m), closed := closed m @ [c]\<rparr> else m)"
| "run_act (ASetErr e) m = m\<lparr>merr := Some e\<rparr>"
| "run_act AContext m = snd (machine_context m)"
| "run_act (ARelease c) m = release c m"
| "run_act (AKeepalive rtt t) m = record_keepalive rtt t m"
| "run_act (AEvent e) m = m\<lparr>events := events m @ [e]\<rparr>"

fun run_acts :: "act list \<Rightarrow> 'i machine \<Rightarrow> 'i machine" where
  "run_acts [] m = m"
| "run_acts (a # as) m = run_acts as (run_act a m)"

text \<open>The invariant of the struct: channel and context identities are used once, a pending
  waiter waits for a state beyond the current one, a stopped machine has no registered context,
  and the ring buffer has its ten slots.\<close>

definition machine_inv :: "'i machine \<Rightarrow> bool" where
  "machine_inv m \<longleftrightarrow>
     distinct (map fst (waiters m) @ pending m @ closed m) \<and>
     (\<forall>c \<in> set (map fst (waiters m) @ pending m @ closed m @ cancelers m @ canceled m). c < nextId m) \<and>
     (\<forall>w \<in> set (waiters m). state m < snd w) \<and>
     (state m = Stopped \<longrightarrow> cancelers m = []) \<and>
     length (keepaliveReplyTimes m) = numKeepaliveReplyTimes"

subsection \<open>Facts on states and runs\<close>

lemma State_le_Stopped [simp]: "s \<le> Stopped"
  by (cases s) (simp_all add: less_eq_State_def)

lemma State_Stopped_le [simp]: "Stopped \<le> s \<longleftrightarrow> s = Stopped"
  by (cases s) (simp_all add: less_eq_State_def)

lemma State_String_inj: "State_String s = State_String t \<Longrightarrow> s = t"
  by (cases s; cases t) simp_all

lemma run_acts_append [simp]: "run_acts (as @ bs) m = run_acts bs (run_acts as m)"
  by (induction as arbitrary: m) auto

lemmas machine_op_defs = Wait_def setState_locked_def machine_context_def release_def
  record_keepalive_def close_chan_def

lemma setState_locked_simps [simp]:
  "fst (setState_locked s m) = map fst (filter (\<lambda>w. snd w \<le> s) (waiters m))"
  "state (snd (setState_locked s m)) = s"
  "waiters (snd (setState_locked s m)) = filter (\<lambda>w. \<not> snd w \<le> s) (waiters m)"
  "closed (snd (setState_locked s m)) = closed m"
  "pending (snd (setState_locked s m)) = pending m"
  "merr (snd (setState_locked s m)) = merr m"
  "nextId (snd (setState_locked s m)) = nextId m"
  "keepaliveReplyTimes (snd (setState_locked s m)) = keepaliveReplyTimes m"
  "numKeepalive (snd (setState_locked s m)) = numKeepalive m"
  "cancelers (snd (setState_locked s m)) = (if s = Stopped then [] else cancelers m)"
  "canceled (snd (setState_locked s m)) =
     (if s = Stopped then canceled m @ cancelers m else canceled m)"
  by (simp_all add: setState_locked_def Let_def)

lemma run_act_state:
  "state (run_act a m) = (case a of ASetState s \<Rightarrow> s | _ \<Rightarrow> state m)"
  by (cases a) (simp_all add: machine_op_defs Let_def split: prod.splits)

fun act_states :: "act list \<Rightarrow> State list" where
  "act_states [] = []"
| "act_states (ASetState s # as) = s # act_states as"
| "act_states (_ # as) = act_states as"

lemma act_states_append [simp]: "act_states (as @ bs) = act_states as @ act_states bs"
  by (induction as rule: act_states.induct) auto

lemma run_acts_state: "state (run_acts as m) = last (state m # act_states as)"
  by (induction as arbitrary: m rule: act_states.induct)
    (simp_all add: run_act_state del: run_act.simps)

text \<open>The fields that are set before the goroutines of a machine begin stay as they are.\<close>

lemma run_act_fixed:
  "Addr (run_act a m) = Addr m \<and> owner (run_act a m) = owner m \<and> services (run_act a m) = services m \<and> environ (run_act a m) = environ m \<and>
   keepalivePeriod (run_act a m) = keepalivePeriod m \<and> keepaliveTimeout (run_act a m) = keepaliveTimeout m \<and>
   keepaliveRpcTimeout (run_act a m) = keepaliveRpcTimeout m"
  by (cases a) (simp_all add: machine_op_defs Let_def)

lemma run_acts_fixed [simp]:
  "Addr (run_acts as m) = Addr m" "owner (run_acts as m) = owner m" "services (run_acts as m) = services m" "environ (run_acts as m) = environ m"
  "keepalivePeriod (run_acts as m) = keepalivePeriod m" "keepaliveTimeout (run_acts as m) = keepaliveTimeout m"
  "keepaliveRpcTimeout (run_acts as m) = keepaliveRpcTimeout m"
  by (induction as arbitrary: m) (simp_all add: run_act_fixed)

lemma run_act_merr:
  "merr (run_act a m) = (case a of ASetErr e \<Rightarrow> Some e | _ \<Rightarrow> merr m)"
  by (cases a) (simp_all add: machine_op_defs Let_def)

subsection \<open>The invariant holds at every interleaving\<close>

lemma machine_inv_new: "machine_inv (new_machine addr)"
  by (simp add: machine_inv_def new_machine_def)

lemma machine_inv_Wait: "machine_inv m \<Longrightarrow> machine_inv (snd (Wait s m))"
  by (auto simp: machine_inv_def Wait_def Let_def not_le less_Suc_eq)

lemma machine_inv_context: "machine_inv m \<Longrightarrow> machine_inv (snd (machine_context m))"
  by (auto simp: machine_inv_def machine_context_def Let_def less_Suc_eq)

lemma setState_waiters_split:
  assumes "distinct (map fst (waiters m) @ pending m @ closed m)"
  shows "distinct (map fst (filter (\<lambda>w. \<not> snd w \<le> s) (waiters m)) @
           (pending m @ map fst (filter (\<lambda>w. snd w \<le> s) (waiters m))) @ closed m)"
  using assms distinct_map_filter_disjoint [of fst "waiters m" "\<lambda>w. snd w \<le> s"]
  by (auto simp: image_iff)

lemma machine_inv_setState:
  assumes "machine_inv m"
  shows "machine_inv (run_act (ASetState s) m)"
proof -
  have "distinct (map fst (filter (\<lambda>w. \<not> snd w \<le> s) (waiters m)) @
          (pending m @ map fst (filter (\<lambda>w. snd w \<le> s) (waiters m))) @ closed m)"
    using assms by (intro setState_waiters_split) (simp add: machine_inv_def)
  then show ?thesis
    using assms by (auto simp: machine_inv_def case_prod_beta not_le)
qed

lemma machine_inv_close: "machine_inv m \<Longrightarrow> machine_inv (run_act (AClose c) m)"
  by (auto simp: machine_inv_def dest: notin_set_remove1)

lemma machine_inv_release: "machine_inv m \<Longrightarrow> machine_inv (release c m)"
  by (auto simp: machine_inv_def release_def)

lemma machine_inv_keepalive: "machine_inv m \<Longrightarrow> machine_inv (record_keepalive rtt t m)"
  by (auto simp: machine_inv_def record_keepalive_def)

lemma machine_inv_merr: "machine_inv m \<Longrightarrow> machine_inv (m\<lparr>merr := e\<rparr>)"
  by (simp add: machine_inv_def)

lemma machine_inv_events: "machine_inv m \<Longrightarrow> machine_inv (m\<lparr>events := es\<rparr>)"
  by (simp add: machine_inv_def)

lemmas machine_inv_ops = machine_inv_Wait machine_inv_context machine_inv_setState
  machine_inv_close machine_inv_release machine_inv_keepalive machine_inv_merr machine_inv_events

lemma machine_inv_run_act: "machine_inv m \<Longrightarrow> machine_inv (run_act a m)"
  using machine_inv_ops [of m] by (cases a) (simp_all del: run_act.simps(2,3) )

lemma machine_inv_run_acts: "machine_inv m \<Longrightarrow> machine_inv (run_acts as m)"
  by (induction as arbitrary: m) (auto simp: machine_inv_run_act)

subsection \<open>Waiting\<close>

definition signalled :: "nat \<Rightarrow> 'i machine \<Rightarrow> bool" where
  "signalled c m \<longleftrightarrow> c \<in> set (pending m) \<or> c \<in> set (closed m)"

lemma signalled_run_act: "signalled c m \<Longrightarrow> signalled c (run_act a m)"
  by (cases a)
    (auto simp: signalled_def machine_op_defs Let_def, metis in_set_remove1)

lemma signalled_run_acts: "signalled c m \<Longrightarrow> signalled c (run_acts as m)"
  by (induction as arbitrary: m) (auto simp: signalled_run_act)

lemma waiter_run_act:
  assumes "(c, s) \<in> set (waiters m)"
  shows "if \<exists>s'. a = ASetState s' \<and> s \<le> s' then signalled c (run_act a m)
         else (c, s) \<in> set (waiters (run_act a m))"
  using assms
  by (cases a)
    (auto simp: signalled_def machine_op_defs Let_def image_iff split: if_splits intro: bexI [of _ "(c, s)"])

lemma waiter_not_signalled:
  assumes "machine_inv m" "(c, s) \<in> set (waiters m)"
  shows "\<not> signalled c m"
proof -
  have "c \<in> fst ` set (waiters m)" using assms(2) by (rule image_eqI [rotated]) simp
  moreover have "fst ` set (waiters m) \<inter> (set (pending m) \<union> set (closed m)) = {}"
    using assms(1) by (simp add: machine_inv_def)
  ultimately show ?thesis unfolding signalled_def by blast
qed

lemma waiter_signalled_iff:
  assumes "machine_inv m" "(c, s) \<in> set (waiters m)"
  shows "signalled c (run_acts as m) \<longleftrightarrow> (\<exists>s'. ASetState s' \<in> set as \<and> s \<le> s')"
  using assms
proof (induction as arbitrary: m)
  case Nil
  then show ?case by (auto dest: waiter_not_signalled)
next
  case (Cons a as)
  show ?case
  proof (cases "\<exists>s'. a = ASetState s' \<and> s \<le> s'")
    case True
    then have "signalled c (run_act a m)" using waiter_run_act [OF Cons.prems(2), of a] by simp
    then show ?thesis using True by (auto dest: signalled_run_acts)
  next
    case False
    then have "(c, s) \<in> set (waiters (run_act a m))"
      using waiter_run_act [OF Cons.prems(2), of a] by simp
    with False show ?thesis
      using Cons.IH [OF machine_inv_run_act [OF Cons.prems(1)]] by auto
  qed
qed

lemma Wait_cases:
  assumes "Wait s m = (c, m1)"
  shows "if s \<le> state m then signalled c m1 else (c, s) \<in> set (waiters m1)"
  using assms by (auto simp: Wait_def Let_def signalled_def split: if_splits)

subsection \<open>setState in one piece\<close>

lemma close_chans_Ok:
  assumes "distinct cs" "set cs \<inter> set (closed m) = {}"
  shows "close_chans cs m = Ok (m\<lparr>closed := closed m @ cs\<rparr>)"
  using assms by (induction cs arbitrary: m) (auto simp: close_chan_def)

lemma run_close_acts:
  assumes "distinct cs" "pending m = cs @ ps"
  shows "run_acts (map AClose cs) m = m\<lparr>pending := ps, closed := closed m @ cs\<rparr>"
  using assms by (induction cs arbitrary: m) auto

lemma setState_run:
  assumes inv: "machine_inv m" and pend: "pending m = []"
  shows "setState s m = Ok (run_acts (ASetState s # map AClose (fst (setState_locked s m))) m)"
proof -
  let ?t = "fst (setState_locked s m)" and ?m = "snd (setState_locked s m)"
  have t: "distinct ?t" "set ?t \<inter> set (closed m) = {}"
    using inv by (auto simp: machine_inv_def)
  have "setState s m = Ok (?m\<lparr>closed := closed ?m @ ?t\<rparr>)"
    unfolding setState_def case_prod_beta Let_def
    using t by (intro close_chans_Ok) simp_all
  moreover have "run_acts (map AClose ?t) (?m\<lparr>pending := ?t\<rparr>) =
      ?m\<lparr>pending := [], closed := closed ?m @ ?t\<rparr>"
    using t run_close_acts [of ?t "?m\<lparr>pending := ?t\<rparr>" "[]"] by simp
  moreover have "?m\<lparr>pending := [], closed := closed ?m @ ?t\<rparr> = ?m\<lparr>closed := closed ?m @ ?t\<rparr>"
    using pend by (simp add: setState_locked_def Let_def)
  ultimately show ?thesis using pend by (simp add: case_prod_beta)
qed

subsection \<open>Contexts tied to the machine\<close>

lemma canceled_run_acts: "c \<in> set (canceled m) \<Longrightarrow> c \<in> set (canceled (run_acts as m))"
proof (induction as arbitrary: m)
  case (Cons a as)
  have "c \<in> set (canceled (run_act a m))"
    using Cons.prems by (cases a) (auto simp: machine_op_defs Let_def)
  then show ?case using Cons.IH by simp
qed simp

lemma canceler_run_act:
  assumes "c \<in> set (cancelers m)" "a \<noteq> ARelease c"
  shows "if a = ASetState Stopped then c \<in> set (canceled (run_act a m))
         else c \<in> set (cancelers (run_act a m)) \<and>
              canceled (run_act a m) = canceled m @ (if a = AContext \<and> state m = Stopped then [nextId m] else [])"
  using assms by (cases a) (auto simp: machine_op_defs Let_def)

text \<open>A context number is registered or canceled, never both.\<close>

definition contexts_inv :: "'i machine \<Rightarrow> bool" where
  "contexts_inv m \<longleftrightarrow> machine_inv m \<and> distinct (cancelers m) \<and>
     set (cancelers m) \<inter> set (canceled m) = {}"

lemma contexts_inv_new: "contexts_inv (new_machine addr)"
  by (simp add: contexts_inv_def machine_inv_new) (simp add: new_machine_def)

lemma contexts_inv_run_act: "contexts_inv m \<Longrightarrow> contexts_inv (run_act a m)"
  unfolding contexts_inv_def
proof (intro conjI; (elim conjE)?)
  assume inv: "machine_inv m" and d: "distinct (cancelers m)"
    and disj: "set (cancelers m) \<inter> set (canceled m) = {}"
  show "machine_inv (run_act a m)" using inv by (rule machine_inv_run_act)
  have fresh: "nextId m \<notin> set (cancelers m)" "nextId m \<notin> set (canceled m)"
    using inv by (auto simp: machine_inv_def)
  show "distinct (cancelers (run_act a m))"
    using d fresh by (cases a) (auto simp: machine_op_defs Let_def)
  show "set (cancelers (run_act a m)) \<inter> set (canceled (run_act a m)) = {}"
    using disj fresh by (cases a) (auto simp: machine_op_defs Let_def)
qed

lemma contexts_inv_run_acts: "contexts_inv m \<Longrightarrow> contexts_inv (run_acts as m)"
  by (induction as arbitrary: m) (auto simp: contexts_inv_run_act)

lemma canceler_canceled_iff:
  assumes "contexts_inv m" "c \<in> set (cancelers m)" "ARelease c \<notin> set as"
  shows "c \<in> set (canceled (run_acts as m)) \<longleftrightarrow> ASetState Stopped \<in> set as"
  using assms
proof (induction as arbitrary: m)
  case Nil
  then show ?case by (auto simp: contexts_inv_def)
next
  case (Cons a as)
  then have a: "a \<noteq> ARelease c" by auto
  show ?case
  proof (cases "a = ASetState Stopped")
    case True
    then have "c \<in> set (canceled (run_act a m))" using canceler_run_act [OF Cons.prems(2) a] by simp
    then show ?thesis using True by (simp add: canceled_run_acts)
  next
    case False
    then have "c \<in> set (cancelers (run_act a m))" using canceler_run_act [OF Cons.prems(2) a] by simp
    then show ?thesis
      using Cons.IH [OF contexts_inv_run_act [OF Cons.prems(1)]] Cons.prems(3) False by auto
  qed
qed

lemma machine_context_cases:
  assumes "machine_context m = (c, m1)"
  shows "if state m = Stopped then c \<in> set (canceled m1) else c \<in> set (cancelers m1)"
  using assms by (auto simp: machine_context_def Let_def split: if_splits)

subsection \<open>The ring buffer of reply times\<close>

definition ring_rep :: "duration list \<Rightarrow> 'i machine \<Rightarrow> bool" where
  "ring_rep rs m \<longleftrightarrow> length (keepaliveReplyTimes m) = numKeepaliveReplyTimes \<and>
     numKeepalive m = length rs \<and>
     (\<forall>k < min numKeepaliveReplyTimes (length rs).
        keepaliveReplyTimes m ! ((length rs - 1 - k) mod numKeepaliveReplyTimes) = rev rs ! k)"

lemma ring_index_neq:
  "k < 9 \<Longrightarrow> k < n \<Longrightarrow> (n - 1 - k) mod 10 \<noteq> n mod (10::nat)"
proof
  assume "k < 9" "k < n" and eq: "(n - 1 - k) mod 10 = n mod (10::nat)"
  then have "10 dvd n - (n - 1 - k)" by (metis diff_le_self diff_diff_left mod_eq_dvd_iff_nat)
  moreover have "n - (n - 1 - k) = Suc k" using \<open>k < n\<close> by simp
  ultimately show False using \<open>k < 9\<close> by (auto dest: dvd_imp_le)
qed

lemma ring_rep_record:
  assumes "ring_rep rs m"
  shows "ring_rep (rs @ [r]) (record_keepalive r t m)"
proof -
  let ?a = "keepaliveReplyTimes m" and ?n = "length rs"
  have len: "length ?a = 10" and num: "numKeepalive m = ?n"
    and old: "\<And>k. k < 10 \<Longrightarrow> k < ?n \<Longrightarrow> ?a ! ((?n - 1 - k) mod 10) = rev rs ! k"
    using assms by (auto simp: ring_rep_def numKeepaliveReplyTimes_def)
  have "?a[?n mod 10 := r] ! ((Suc ?n - 1 - k) mod 10) = (r # rev rs) ! k"
    if "k < 10" "k < Suc ?n" for k
  proof (cases k)
    case 0
    then show ?thesis using len by simp
  next
    case (Suc j)
    then show ?thesis using that len old [of j] ring_index_neq [of j ?n] by (simp add: nth_list_update)
  qed
  then show ?thesis
    using len num by (auto simp: ring_rep_def record_keepalive_def numKeepaliveReplyTimes_def)
qed

lemma ring_rep_read:
  assumes "ring_rep rs m"
  shows "KeepaliveReplyTimes m = take numKeepaliveReplyTimes (rev rs)"
proof (rule nth_equalityI)
  have num: "numKeepalive m = length rs" and len: "length (keepaliveReplyTimes m) = numKeepaliveReplyTimes"
    using assms by (simp_all add: ring_rep_def)
  then show "length (KeepaliveReplyTimes m) = length (take numKeepaliveReplyTimes (rev rs))"
    by (simp add: KeepaliveReplyTimes_def Let_def)
  fix i assume "i < length (KeepaliveReplyTimes m)"
  then have i: "i < numKeepaliveReplyTimes" "i < length rs"
    using num len by (auto simp: KeepaliveReplyTimes_def Let_def split: if_splits)
  let ?n = "if length rs < numKeepaliveReplyTimes then length rs else numKeepaliveReplyTimes"
  have "(length rs - i - 1) mod ?n = (length rs - 1 - i) mod numKeepaliveReplyTimes"
    using i by simp
  moreover have "KeepaliveReplyTimes m ! i = keepaliveReplyTimes m ! ((length rs - i - 1) mod ?n)"
    using i num len by (simp add: KeepaliveReplyTimes_def Let_def)
  moreover have "keepaliveReplyTimes m ! ((length rs - 1 - i) mod numKeepaliveReplyTimes) = rev rs ! i"
    using assms i by (simp add: ring_rep_def)
  ultimately show "KeepaliveReplyTimes m ! i = take numKeepaliveReplyTimes (rev rs) ! i"
    using i by simp
qed

fun latencies :: "act list \<Rightarrow> duration list" where
  "latencies [] = []"
| "latencies (AKeepalive r t # as) = r # latencies as"
| "latencies (_ # as) = latencies as"

lemma ring_rep_run_act:
  assumes "ring_rep rs m"
  shows "ring_rep (rs @ latencies [a]) (run_act a m)"
proof (cases "\<exists>r t. a = AKeepalive r t")
  case True
  then show ?thesis using assms by (auto simp: ring_rep_record)
next
  case False
  then have "latencies [a] = []" "keepaliveReplyTimes (run_act a m) = keepaliveReplyTimes m"
    "numKeepalive (run_act a m) = numKeepalive m"
    by (cases a; simp add: machine_op_defs Let_def)+
  then show ?thesis using assms by (simp add: ring_rep_def)
qed

lemma latencies_Cons: "latencies (a # as) = latencies [a] @ latencies as"
  by (cases a) simp_all

lemma ring_rep_run_acts: "ring_rep rs m \<Longrightarrow> ring_rep (rs @ latencies as) (run_acts as m)"
proof (induction as arbitrary: rs m)
  case (Cons a as)
  show ?case using Cons.IH [OF ring_rep_run_act [OF Cons.prems, of a]]
    by (subst latencies_Cons) simp
qed simp

lemma ring_rep_new: "ring_rep [] (new_machine addr)"
  by (simp add: ring_rep_def new_machine_def)

subsection \<open>Properties\<close>

text \<open>C2. In every interleaving of the critical sections of the goroutines that use a machine, the
  struct's invariant holds: no channel or context number is used twice, every registered waiter waits
  for a state beyond the current one, a stopped machine has no context left to cancel, and the ring
  buffer keeps its ten slots.\<close>

theorem machine_inv_reachable: "machine_inv (run_acts as (new_machine addr :: 'i machine))"
  by (intro machine_inv_run_acts machine_inv_new)

text \<open>C3. No wake-up is lost and none is spurious: the channel \<open>Wait(s)\<close> returns is closed (or
  about to be closed by the \<open>setState\<close> call that triggered it) after any further interleaving exactly
  when the machine had reached \<open>s\<close> at the time of the call or some later \<open>setState\<close> sets a state of
  at least \<open>s\<close>.\<close>

theorem wait_signalled_iff:
  "let m = run_acts before (new_machine addr :: 'i machine);
       c = fst (Wait s m);
       m' = run_acts later (snd (Wait s m))
   in (c \<in> set (pending m') \<or> c \<in> set (closed m')) =
      (s \<le> state m \<or> (\<exists>s'. ASetState s' \<in> set later \<and> s \<le> s'))"
proof -
  define m where "m = run_acts before (new_machine addr :: 'i machine)"
  obtain c m1 where w: "Wait s m = (c, m1)" by (cases "Wait s m")
  have "machine_inv m" unfolding m_def by (intro machine_inv_run_acts machine_inv_new)
  then have "machine_inv m1" using machine_inv_Wait [of m s] w by simp
  then have "signalled c (run_acts later m1) \<longleftrightarrow>
      s \<le> state m \<or> (\<exists>s'. ASetState s' \<in> set later \<and> s \<le> s')"
    using Wait_cases [OF w] waiter_signalled_iff [of m1 c s later]
    by (cases "s \<le> state m") (simp_all add: signalled_run_acts)
  then show ?thesis using w by (simp add: Let_def m_def signalled_def)
qed

text \<open>\<open>setState\<close> never panics by closing a channel twice; it closes exactly the channels of the
  waiters for states up to the new one, keeps the other waiters, and stores the state.\<close>

theorem setState_effect:
  "let m = run_acts as (new_machine addr :: 'i machine)
   in \<exists>m'. setState s m = Ok m' \<and> state m' = s \<and>
        closed m' = closed m @ map fst (filter (\<lambda>w. snd w \<le> s) (waiters m)) \<and>
        waiters m' = filter (\<lambda>w. \<not> snd w \<le> s) (waiters m)"
proof -
  define m where "m = run_acts as (new_machine addr :: 'i machine)"
  have "machine_inv m" unfolding m_def by (intro machine_inv_run_acts machine_inv_new)
  then have "distinct (fst (setState_locked s m))" "set (fst (setState_locked s m)) \<inter> set (closed m) = {}"
    by (auto simp: machine_inv_def)
  then have "setState s m = Ok ((snd (setState_locked s m))\<lparr>closed :=
      closed (snd (setState_locked s m)) @ fst (setState_locked s m)\<rparr>)"
    unfolding setState_def case_prod_beta Let_def by (intro close_chans_Ok) simp_all
  then show ?thesis by (simp add: m_def Let_def)
qed

text \<open>A context derived from a machine is canceled exactly when the machine was stopped already
  or is stopped before the context is released: stopping the machine cancels every call underway,
  and nothing else does.\<close>

theorem context_canceled_iff:
  assumes "machine_context (run_acts before (new_machine addr :: 'i machine)) = (c, m1)"
    and "ARelease c \<notin> set later"
  shows "c \<in> set (canceled (run_acts later m1)) \<longleftrightarrow>
    state (run_acts before (new_machine addr :: 'i machine)) = Stopped \<or> ASetState Stopped \<in> set later"
proof (cases "state (run_acts before (new_machine addr :: 'i machine)) = Stopped")
  case True
  then show ?thesis
    using machine_context_cases [OF assms(1)] canceled_run_acts [of c m1 later] by simp
next
  case False
  have "contexts_inv (run_acts before (new_machine addr :: 'i machine))"
    by (intro contexts_inv_run_acts contexts_inv_new)
  then have "contexts_inv m1"
    using contexts_inv_run_act [of _ AContext] assms(1) by force
  moreover have "c \<in> set (cancelers m1)" using machine_context_cases [OF assms(1)] False by simp
  ultimately show ?thesis using canceler_canceled_iff assms(2) False by blast
qed

theorem context_canceled_iff_witness:
  "machine_context (run_acts [ASetState Running] (new_machine ''https://m0/'' :: unit machine)) =
     (0, run_acts [ASetState Running, AContext] (new_machine ''https://m0/'')) \<and>
   0 \<in> set (canceled (run_acts [ASetErr Canceled, ASetState Stopped]
      (run_acts [ASetState Running, AContext] (new_machine ''https://m0/'' :: unit machine))))"
proof -
  have c: "machine_context (run_acts [ASetState Running] (new_machine ''https://m0/'' :: unit machine)) =
     (0, run_acts [ASetState Running, AContext] (new_machine ''https://m0/''))"
    by (simp add: machine_op_defs new_machine_def Let_def)
  show ?thesis
    using c context_canceled_iff [OF c, of "[ASetErr Canceled, ASetState Stopped]"] by simp
qed

text \<open>C25. The ring buffer refines a plain history: whatever else happens to the machine,
  \<open>KeepaliveReplyTimes\<close> returns the last ten reply latencies (fewer when there were fewer), most
  recent first.\<close>

theorem reply_times_history:
  "KeepaliveReplyTimes (run_acts as (new_machine addr :: 'i machine)) = take numKeepaliveReplyTimes (rev (latencies as))"
  using ring_rep_read [OF ring_rep_run_acts [OF ring_rep_new]] by simp

end
