(* ===== verification/Go_Strings.thy ===== *)
theory Go_Strings
  imports Go_Base "HOL-Library.Sublist"
begin

text \<open>
  The functions of Go's \<open>strings\<close>, \<open>path\<close>, \<open>net\<close> and \<open>fmt\<close> packages the program uses, on
  byte strings. Separators are single characters, as in every call of the program; the space
  characters are the ASCII ones, since every trimmed text of the program is ASCII.
\<close>

definition HasPrefix :: "string \<Rightarrow> string \<Rightarrow> bool" where "HasPrefix s p = prefix p s"
definition HasSuffix :: "string \<Rightarrow> string \<Rightarrow> bool" where "HasSuffix s p = suffix p s"

fun Contains :: "string \<Rightarrow> string \<Rightarrow> bool" where
  "Contains [] t = (t = [])"
| "Contains (c # s) t = (prefix t (c # s) \<or> Contains s t)"

definition TrimRight :: "string \<Rightarrow> char \<Rightarrow> string" where
  "TrimRight s c = rev (dropWhile (\<lambda>d. d = c) (rev s))"

definition TrimPrefix :: "string \<Rightarrow> string \<Rightarrow> string" where
  "TrimPrefix s p = (if prefix p s then drop (length p) s else s)"

definition isSpace :: "char \<Rightarrow> bool" where
  "isSpace c \<longleftrightarrow> c = CHR 0x09 \<or> c = CHR 0x0A \<or> c = CHR 0x0B \<or> c = CHR 0x0C \<or> c = CHR 0x0D \<or> c = CHR 0x20"

definition TrimSpace :: "string \<Rightarrow> string" where
  "TrimSpace s = rev (dropWhile isSpace (rev (dropWhile isSpace s)))"

text \<open>\<open>strings.Split\<close> with a one-character separator; the result is never empty.\<close>

fun Split :: "string \<Rightarrow> char \<Rightarrow> string list" where
  "Split [] c = [[]]"
| "Split (d # s) c =
     (if d = c then [] # Split s c
      else (case Split s c of [] \<Rightarrow> [[d]] | p # ps \<Rightarrow> (d # p) # ps))"

text \<open>\<open>strings.SplitN(s, sep, 2)\<close>.\<close>

fun SplitN2 :: "string \<Rightarrow> char \<Rightarrow> string list" where
  "SplitN2 [] c = [[]]"
| "SplitN2 (d # s) c =
     (if d = c then [[], s]
      else (case SplitN2 s c of [] \<Rightarrow> [[d]] | p # ps \<Rightarrow> (d # p) # ps))"

fun Join :: "string list \<Rightarrow> string \<Rightarrow> string" where
  "Join [] sep = []"
| "Join [x] sep = x"
| "Join (x # y # xs) sep = x @ sep @ Join (y # xs) sep"

text \<open>Decimal formatting (\<open>%d\<close>).\<close>

definition digit :: "nat \<Rightarrow> char" where "digit d = ''0123456789'' ! d"

fun show_nat :: "nat \<Rightarrow> string" where
  "show_nat n = (if n < 10 then [digit n] else show_nat (n div 10) @ [digit (n mod 10)])"

declare show_nat.simps [simp del]

definition show_int :: "int \<Rightarrow> string" where
  "show_int i = (if i < 0 then CHR ''-'' # show_nat (nat (- i)) else show_nat (nat i))"

text \<open>\<open>path.Base\<close> and \<open>path.Join\<close> (on a rooted first element).\<close>

definition path_Base :: "string \<Rightarrow> string" where
  "path_Base p =
     (if p = [] then ''.''
      else let q = TrimRight p CHR ''/'';
               b = rev (takeWhile (\<lambda>c. c \<noteq> CHR ''/'') (rev q))
           in if b = [] then ''/'' else b)"

fun clean_elems :: "string list \<Rightarrow> string list \<Rightarrow> string list" where
  "clean_elems acc [] = rev acc"
| "clean_elems acc (e # es) =
     (if e = [] \<or> e = ''.'' then clean_elems acc es
      else if e = ''..'' then clean_elems (tl acc) es
      else clean_elems (e # acc) es)"

definition path_Join_rooted :: "string \<Rightarrow> string \<Rightarrow> string" where
  "path_Join_rooted a b =
     CHR ''/'' # Join (clean_elems [] (Split a CHR ''/'' @ Split b CHR ''/'')) ''/''"

subsection \<open>Facts\<close>

lemma Split_not_Nil [simp]: "Split s c \<noteq> []"
  by (cases s) (auto split: list.splits)

lemma SplitN2_not_Nil [simp]: "SplitN2 s c \<noteq> []"
  by (cases s) (auto split: list.splits)

lemma Join_Split: "Join (Split s c) [c] = s"
proof (induction s)
  case (Cons d s)
  show ?case
  proof (cases "Split s c")
    case (Cons p ps)
    then show ?thesis using \<open>Join (Split s c) [c] = s\<close> by (cases ps) auto
  qed simp
qed simp

lemma SplitN2_eq:
  "c \<notin> set a \<Longrightarrow> SplitN2 (a @ c # b) c = [a, b]"
  by (induction a) auto

lemma SplitN2_absent: "c \<notin> set s \<Longrightarrow> SplitN2 s c = [s]"
  by (induction s) auto

lemma TrimRight_last [simp]: "s = [] \<or> last s \<noteq> c \<Longrightarrow> TrimRight s c = s"
  by (cases s rule: rev_cases) (auto simp: TrimRight_def)

lemma TrimRight_no_suffix: "TrimRight s c = [] \<or> last (TrimRight s c) \<noteq> c"
proof (cases "dropWhile (\<lambda>d. d = c) (rev s)")
  case (Cons d ds)
  then have "d \<noteq> c" using hd_dropWhile [of "\<lambda>d. d = c" "rev s"] by simp
  then show ?thesis using Cons by (simp add: TrimRight_def)
qed (simp add: TrimRight_def)

lemma path_Base_append:
  assumes "CHR ''/'' \<notin> set b" "b \<noteq> []"
  shows "path_Base (a @ CHR ''/'' # b) = b"
proof -
  have "last b \<noteq> CHR ''/''" using assms by (metis last_in_set)
  then have trim: "TrimRight (a @ CHR ''/'' # b) CHR ''/'' = a @ CHR ''/'' # b"
    using assms by (intro TrimRight_last) simp
  have "takeWhile (\<lambda>c. c \<noteq> CHR ''/'') (rev b @ CHR ''/'' # rev a) = rev b"
    using assms by (subst takeWhile_append2) auto
  then show ?thesis using assms trim by (simp add: path_Base_def Let_def)
qed

lemma Contains_iff_sublist: "Contains s t \<longleftrightarrow> sublist t s"
  by (induction s) (auto simp: sublist_Cons_right)

lemma show_nat_not_Nil [simp]: "show_nat n \<noteq> []"
  by (subst show_nat.simps) simp

lemma digit_inj: "a < 10 \<Longrightarrow> b < 10 \<Longrightarrow> digit a = digit b \<Longrightarrow> a = b"
  unfolding digit_def by (subst (asm) nth_eq_iff_index_eq) simp_all

end
