(* ===== verification/Machine_Loop.thy ===== *)
theory Machine_Loop
  imports Machine_State Go_Strings
begin

text \<open>
  The driver's side of one machine (\<open>machine.go\<close>): the calls with retry (\<open>call\<close>,
  \<open>timeoutCall\<close>, \<open>retryCall\<close>, \<open>ping\<close>), the binary replacement \<open>exec\<close>, the goroutine
  \<open>loop\<close> that boots the machine and keeps it alive, and \<open>tryMonitorOOMs\<close>.
  What these functions use of the rest of the world (the RPC client, \<open>retry.Wait\<close>, the clock,
  \<open>fatbin\<close>, the file system) is the record \<open>menv\<close> of functions on a world state \<open>'w\<close>.
  \<open>retryCall\<close> may retry for ever as far as its own text goes, so it is an option-valued
  recursion; \<open>loop\<close> is described by the trace of its first \<open>n\<close> keepalive rounds, for every \<open>n\<close>.
  Log lines are not modelled.
\<close>

subsection \<open>Arguments, replies, environment\<close>

datatype 'i rarg =
    RUnit | RInt int | RBool bool | RDur duration | RStrs "string list" | RService string 'i
  | RReader bytes | RProfile string int bool | RShutdown duration string

datatype rreply =
    NoReply | RKeepalive duration bool | RInfo string string | RPid int
  | RVars "(string \<times> string) list" | RStream bytes

record ('i, 'w) menv =
  env_call :: "string \<Rightarrow> duration option \<Rightarrow> string \<Rightarrow> 'i rarg \<Rightarrow> 'w \<Rightarrow> (err option \<times> rreply) \<times> 'w"
    \<comment> \<open>\<open>client.Call(ctx, addr, serviceMethod, arg, reply)\<close>, the context with a timeout or without\<close>
  env_wait :: "time \<Rightarrow> nat \<Rightarrow> 'w \<Rightarrow> err option \<times> 'w"
    \<comment> \<open>\<open>retry.Wait(ctx, retryPolicy, retries)\<close>, the context with the given deadline\<close>
  env_now :: "'w \<Rightarrow> time"
  env_select :: "duration \<Rightarrow> 'w \<Rightarrow> err option \<times> 'w"
    \<comment> \<open>\<open>select\<close> on a timer with \<open>d\<close> left to run (None) and \<open>ctx.Done()\<close> (\<open>ctx.Err()\<close>)\<close>
  env_sleep :: "duration \<Rightarrow> 'w \<Rightarrow> 'w"
  env_self :: "err option"                          \<comment> \<open>\<open>fatbin.Self()\<close>\<close>
  env_stat :: "string \<Rightarrow> string \<Rightarrow> int option"      \<comment> \<open>\<open>self.Stat(goos, goarch)\<close>: the size\<close>
  env_open :: "string \<Rightarrow> string \<Rightarrow> err + bytes"     \<comment> \<open>\<open>self.Open(goos, goarch)\<close>\<close>
  env_args :: "string list"                         \<comment> \<open>\<open>os.Args\<close>\<close>
  env_mcall :: "duration \<Rightarrow> string \<Rightarrow> 'i rarg \<Rightarrow> 'w \<Rightarrow> (err option \<times> rreply) \<times> 'w"
    \<comment> \<open>\<open>m.Call\<close> under a timeout\<close>
  env_write :: "string \<Rightarrow> rreply \<Rightarrow> 'w \<Rightarrow> err option \<times> 'w"
    \<comment> \<open>\<open>os.Create\<close> and copying or encoding the reply into the file\<close>
  env_suffix :: "'w \<Rightarrow> string"   \<comment> \<open>host name and time stamp of a profile's file name\<close>
  env_error :: "err \<Rightarrow> string"   \<comment> \<open>\<open>err.Error()\<close>\<close>

subsection \<open>Calls\<close>

definition call :: "('i, 'w) menv \<Rightarrow> 'i machine \<Rightarrow> duration option \<Rightarrow> string \<Rightarrow> 'i rarg \<Rightarrow> 'w
    \<Rightarrow> (err option \<times> rreply) \<times> 'w" where
  "call env m = env_call env (Addr m)"

definition timeoutCall :: "('i, 'w) menv \<Rightarrow> 'i machine \<Rightarrow> duration \<Rightarrow> string \<Rightarrow> 'i rarg \<Rightarrow> 'w
    \<Rightarrow> (err option \<times> rreply) \<times> 'w" where
  "timeoutCall env m timeout = call env m (Some timeout)"

partial_function (option) retryCall_loop ::
  "errlib \<Rightarrow> ('i, 'w) menv \<Rightarrow> 'i machine \<Rightarrow> time \<Rightarrow> duration \<Rightarrow> string \<Rightarrow> 'i rarg \<Rightarrow> nat \<Rightarrow> 'w
    \<Rightarrow> ((err option \<times> rreply) \<times> 'w) option" where
  "retryCall_loop L env m deadline rpcTimeout serviceMethod arg retries w =
     (case call env m (Some rpcTimeout) serviceMethod arg w of ((e, reply), w1) \<Rightarrow>
        (case e of
           None \<Rightarrow> Some ((None, reply), w1)
         | Some err \<Rightarrow>
             if match_fatal L err
             then Some ((Some (ErrE [Str ''fatal error calling'', Str serviceMethod, Err err]), reply), w1)
             else (case env_wait env deadline retries w1 of
                     (Some err, w2) \<Rightarrow> Some ((Some (ErrE [Severity Fatal, Err err]), NoReply), w2)
                   | (None, w2) \<Rightarrow>
                       retryCall_loop L env m deadline rpcTimeout serviceMethod arg (Suc retries) w2)))"

definition retryCall ::
  "errlib \<Rightarrow> ('i, 'w) menv \<Rightarrow> 'i machine \<Rightarrow> duration \<Rightarrow> duration \<Rightarrow> string \<Rightarrow> 'i rarg \<Rightarrow> 'w
    \<Rightarrow> ((err option \<times> rreply) \<times> 'w) option" where
  "retryCall L env m overallTimeout rpcTimeout serviceMethod arg w =
     retryCall_loop L env m (env_now env w + overallTimeout) rpcTimeout serviceMethod arg 0 w"

definition ping :: "errlib \<Rightarrow> ('i, 'w) menv \<Rightarrow> 'i machine \<Rightarrow> 'w \<Rightarrow> ((err option \<times> rreply) \<times> 'w) option" where
  "ping L env m = retryCall L env m (9 * Minute) (3 * Minute) ''Supervisor.Ping'' (RInt 0)"

subsection \<open>exec\<close>

definition upload_floor :: int where "upload_floor = 100 * 2 ^ 10"

definition uploadTimeout :: "int \<Rightarrow> duration" where
  "uploadTimeout sz = go_quot (sz + upload_floor - 1) upload_floor * Second"

fun info_of :: "rreply \<Rightarrow> string \<times> string" where
  "info_of (RInfo goos goarch) = (goos, goarch)"
| "info_of _ = ('''', '''')"

definition exec :: "('i, 'w) menv \<Rightarrow> 'i machine \<Rightarrow> 'w \<Rightarrow> err option \<times> 'w" where
  "exec env m w =
     (case env_self env of Some e \<Rightarrow> (Some e, w) | None \<Rightarrow>
      (case timeoutCall env m (10 * Second) ''Supervisor.Info'' RUnit w of
         ((Some e, _), w) \<Rightarrow> (Some e, w)
       | ((None, reply), w) \<Rightarrow>
      (case info_of reply of (goos, goarch) \<Rightarrow>
      (case env_stat env goos goarch of
         None \<Rightarrow> (Some (ErrE [Severity Fatal, Str ''no image for '', Str goos, Str ''/'', Str goarch]), w)
       | Some sz \<Rightarrow>
      (case timeoutCall env m (10 * Second) ''Supervisor.Setenv'' (RStrs (environ m)) w of
         ((Some e, _), w) \<Rightarrow> (Some e, w)
       | ((None, _), w) \<Rightarrow>
      (case timeoutCall env m (10 * Second) ''Supervisor.Setargs'' (RStrs (env_args env)) w of
         ((Some e, _), w) \<Rightarrow> (Some e, w)
       | ((None, _), w) \<Rightarrow>
      (case timeoutCall env m (10 * Second) ''Supervisor.Keepalive'' (RDur (uploadTimeout sz)) w of
         (_, w) \<Rightarrow>
      (case env_open env goos goarch of
         Inl e \<Rightarrow> (Some e, w)
       | Inr binary \<Rightarrow>
      (case call env m None ''Supervisor.Setbinary'' (RReader binary) w of
         ((Some e, _), w) \<Rightarrow> (Some e, w)
       | ((None, _), w) \<Rightarrow>
      (case timeoutCall env m (10 * Second) ''Supervisor.Exec'' RUnit w of
         ((e, _), w) \<Rightarrow> (e, w)))))))))))"

subsection \<open>Profiles of an unhealthy machine\<close>

definition saveProfile :: "('i, 'w) menv \<Rightarrow> string \<Rightarrow> string \<Rightarrow> 'w \<Rightarrow> err option \<times> 'w" where
  "saveProfile env which path w =
     (case env_mcall env Minute ''Supervisor.Profile'' (RProfile which 0 False) w of
        ((Some e, _), w) \<Rightarrow> (Some e, w)
      | ((None, reply), w) \<Rightarrow> env_write env path reply w)"

definition saveExpvars :: "errlib \<Rightarrow> ('i, 'w) menv \<Rightarrow> 'i machine \<Rightarrow> string \<Rightarrow> 'w
    \<Rightarrow> (err option \<times> 'w) option" where
  "saveExpvars L env m path w =
     (case retryCall L env m (5 * Minute) (25 * Second) ''Supervisor.Expvars'' RUnit w of
        None \<Rightarrow> None
      | Some ((Some e, _), w) \<Rightarrow> Some (Some e, w)
      | Some ((None, reply), w) \<Rightarrow> Some (env_write env path reply w))"


subsection \<open>The loop goroutine\<close>

text \<open>
  A trace item is a critical section of the machine's mutex or an event (\<open>TAct\<close>), a finished
  call with its error (\<open>TCall\<close>), or the start of a goroutine (\<open>TGo\<close>). A phase of the loop
  appends items and goes on (\<open>Next\<close>), returns from the goroutine (\<open>Return\<close>), or is still
  underway at the end of the trace (\<open>Going\<close>).
\<close>

datatype 'i titem = TAct act | TCall string "'i rarg" "err option" | TGo string

datatype flow = Next | Return | Going

type_synonym ('i, 'w) phase = "'w \<Rightarrow> 'i titem list \<times> flow \<times> 'w"

definition then_phase :: "('i, 'w) phase \<Rightarrow> ('i, 'w) phase \<Rightarrow> ('i, 'w) phase" where
  "then_phase p q w =
     (case p w of
        (t, Next, w1) \<Rightarrow> (case q w1 of (t2, f, w2) \<Rightarrow> (t @ t2, f, w2))
      | (t, f, w1) \<Rightarrow> (t, f, w1))"

definition acts_phase :: "'i titem list \<Rightarrow> ('i, 'w) phase" where
  "acts_phase ts w = (ts, Next, w)"

text \<open>The sections of \<open>setError\<close>, after which \<open>loop\<close> returns.\<close>

definition setError_items :: "('i, 'w) menv \<Rightarrow> string \<Rightarrow> err \<Rightarrow> 'i titem list" where
  "setError_items env addr e =
     [TAct (ASetErr e), TAct (ASetState Stopped),
      TAct (AEvent (Event ''bigmachine:machineError''
        [(''addr'', Str addr), (''error'', Str (env_error env e))]))]"

definition alive_item :: "('i, 'w) menv \<Rightarrow> 'i machine \<Rightarrow> time \<Rightarrow> 'w \<Rightarrow> 'i titem" where
  "alive_item env m start w =
     TAct (AEvent (Event ''bigmachine:machineAlive''
       [(''addr'', Str (Addr m)), (''duration'', Num (go_quot (env_now env w - start) 1000000))]))"

text \<open>A call whose failure stops the machine with the error \<open>wrap err\<close>.\<close>

definition call_phase :: "('i, 'w) menv \<Rightarrow> 'i machine \<Rightarrow>
    ('w \<Rightarrow> ((err option \<times> rreply) \<times> 'w) option) \<Rightarrow> string \<Rightarrow> 'i rarg \<Rightarrow> (err \<Rightarrow> err) \<Rightarrow> ('i, 'w) phase" where
  "call_phase env m c serviceMethod arg wrap w =
     (case c w of
        None \<Rightarrow> ([], Going, w)
      | Some ((None, _), w1) \<Rightarrow> ([TCall serviceMethod arg None], Next, w1)
      | Some ((Some e, _), w1) \<Rightarrow>
          (TCall serviceMethod arg (Some e) # setError_items env (Addr m) (wrap e), Return, w1))"

definition ping_phase :: "errlib \<Rightarrow> ('i, 'w) menv \<Rightarrow> 'i machine \<Rightarrow> ('i, 'w) phase" where
  "ping_phase L env m = call_phase env m (ping L env m) ''Supervisor.Ping'' (RInt 0) (\<lambda>e. e)"

definition exec_phase :: "errlib \<Rightarrow> ('i, 'w) menv \<Rightarrow> 'i machine \<Rightarrow> ('i, 'w) phase" where
  "exec_phase L env m w =
     (case exec env m w of
        (Some e, w1) \<Rightarrow>
          if \<not> is_net L e then (setError_items env (Addr m) e, Return, w1) else ([], Next, w1)
      | (None, w1) \<Rightarrow> ([], Next, w1))"

text \<open>The owner's boot: an event, the log tail (or nothing to tail: \<open>tailDone\<close> is closed), and,
  unless \<open>NoExec\<close>, a ping and the exec of the current binary.\<close>

definition boot_phase :: "errlib \<Rightarrow> ('i, 'w) menv \<Rightarrow> bool \<Rightarrow> 'i machine \<Rightarrow> time \<Rightarrow> ('i, 'w) phase" where
  "boot_phase L env has_system m start w =
     (if owner m then
        then_phase (acts_phase [alive_item env m start w, TGo (if has_system then ''tail'' else ''close tailDone'')])
          (if NoExec m then acts_phase [] else then_phase (ping_phase L env m) (exec_phase L env m)) w
      else ([], Next, w))"

text \<open>A machine that is not owned is pinged for ever.\<close>

definition ping_round :: "errlib \<Rightarrow> ('i, 'w) menv \<Rightarrow> 'i machine \<Rightarrow> ('i, 'w) phase" where
  "ping_round L env m w =
     (let callStart = env_now env w in
      case retryCall L env m (keepaliveTimeout m) (keepaliveRpcTimeout m) ''Supervisor.Ping'' (RInt 0) w of
        None \<Rightarrow> ([], Going, w)
      | Some ((Some e, _), w1) \<Rightarrow>
          (TCall ''Supervisor.Ping'' (RInt 0) (Some e) #
           setError_items env (Addr m) (Errorf ''ping failed after %s (timeout=%s, rpc timeout=%s): %v''
             [Dur (env_now env w1 - callStart), Dur (keepaliveTimeout m), Dur (keepaliveRpcTimeout m), Err e]),
           Return, w1)
      | Some ((None, _), w1) \<Rightarrow>
          ([TCall ''Supervisor.Ping'' (RInt 0) None], Next, env_sleep env (go_quot (keepalivePeriod m) 2) w1))"

fun register_phase :: "errlib \<Rightarrow> ('i, 'w) menv \<Rightarrow> 'i machine \<Rightarrow> (string \<times> 'i) list \<Rightarrow> ('i, 'w) phase" where
  "register_phase L env m [] = acts_phase []"
| "register_phase L env m ((name, iface) # svcs) =
     then_phase
       (call_phase env m
         (retryCall L env m (5 * Minute) (25 * Second) ''Supervisor.Register'' (RService name iface))
         ''Supervisor.Register'' (RService name iface)
         (\<lambda>e. ErrE [Err e, Str (''Supervisor.Register '' @ name)]))
       (register_phase L env m svcs)"

fun keepalive_of :: "rreply \<Rightarrow> duration \<times> bool" where
  "keepalive_of (RKeepalive nxt healthy) = (nxt, healthy)"
| "keepalive_of _ = (0, False)"

definition save_profiles :: "errlib \<Rightarrow> ('i, 'w) menv \<Rightarrow> 'i machine \<Rightarrow> 'w \<Rightarrow> 'w option" where
  "save_profiles L env m w =
     (let suffix = env_suffix env w in
      case saveProfile env ''heap'' (''heap'' @ suffix) w of (_, w1) \<Rightarrow>
        map_option snd (saveExpvars L env m (''vars'' @ suffix) w1))"

definition keepalive_round :: "errlib \<Rightarrow> ('i, 'w) menv \<Rightarrow> 'i machine \<Rightarrow> time \<Rightarrow> ('i, 'w) phase" where
  "keepalive_round L env m start w =
     (let callStart = env_now env w; arg = RDur (5 * Minute) in
      case retryCall L env m (keepaliveTimeout m) (keepaliveRpcTimeout m) ''Supervisor.Keepalive'' arg w of
        None \<Rightarrow> ([], Going, w)
      | Some ((Some e, _), w1) \<Rightarrow>
          (TCall ''Supervisor.Keepalive'' arg (Some e) #
           setError_items env (Addr m) (Errorf ''keepalive failed after %s (timeout=%s, rpc timeout=%s): %v''
             [Dur (env_now env w1 - callStart), Dur (keepaliveTimeout m), Dur (keepaliveRpcTimeout m), Err e]),
           Return, w1)
      | Some ((None, reply), w1) \<Rightarrow>
          (case keepalive_of reply of (replyNext, healthy) \<Rightarrow>
             let items = [TCall ''Supervisor.Keepalive'' arg None, alive_item env m start w1,
                          TAct (AKeepalive (env_now env w1 - callStart) (env_now env w1 + replyNext))];
                 nxt = (if keepalivePeriod m < replyNext then keepalivePeriod m else replyNext)
             in case (if healthy then Some w1 else save_profiles L env m w1) of
                  None \<Rightarrow> (items, Going, w1)
                | Some w2 \<Rightarrow>
                    (case env_select env (go_quot nxt 2 - (env_now env w2 - env_now env w1)) w2 of
                       (None, w3) \<Rightarrow> (items, Next, w3)
                     | (Some e, w3) \<Rightarrow> (items @ setError_items env (Addr m) e, Return, w3))))"

fun rounds :: "('i, 'w) phase \<Rightarrow> nat \<Rightarrow> ('i, 'w) phase" where
  "rounds p 0 w = ([], Going, w)"
| "rounds p (Suc n) w = then_phase p (rounds p n) w"

definition run_phase :: "errlib \<Rightarrow> ('i, 'w) menv \<Rightarrow> bool \<Rightarrow> 'i machine \<Rightarrow> time \<Rightarrow> nat \<Rightarrow> ('i, 'w) phase" where
  "run_phase L env has_system m start n =
     (if \<not> owner m then
        then_phase (acts_phase [TAct (ASetState Running)]) (rounds (ping_round L env m) n)
      else
        then_phase (register_phase L env m (services m))
          (then_phase (acts_phase ((if has_system then [TGo ''tryMonitorOOMs''] else []) @ [TAct (ASetState Running)]))
            (rounds (keepalive_round L env m start) n)))"

definition loop :: "errlib \<Rightarrow> ('i, 'w) menv \<Rightarrow> bool \<Rightarrow> 'i machine \<Rightarrow> nat \<Rightarrow> ('i, 'w) phase" where
  "loop L env has_system m n w =
     (let start = env_now env w in
      then_phase (acts_phase [TAct (ASetState Starting)])
        (then_phase (boot_phase L env has_system m start)
          (then_phase (ping_phase L env m) (run_phase L env has_system m start n))) w)"

subsection \<open>The out-of-memory monitor\<close>

text \<open>\<open>kmsg\<close> is the content \<open>system.Read(ctx, m, "/dev/kmsg")\<close> gives, by lines.\<close>

definition oom_look :: "int \<Rightarrow> string" where
  "oom_look pid = ''Out of memory: Kill process '' @ show_int pid"

definition oom_error :: err where
  "oom_error = ErrE [Kind OOM, Str ''bigmachine process killed by the kernel'']"

fun pid_of :: "rreply \<Rightarrow> int" where
  "pid_of (RPid pid) = pid"
| "pid_of _ = 0"

definition tryMonitorOOMs :: "errlib \<Rightarrow> ('i, 'w) menv \<Rightarrow> 'i machine \<Rightarrow> (err + string list) \<Rightarrow> 'w
    \<Rightarrow> 'i titem list" where
  "tryMonitorOOMs L env m kmsg w =
     (case retryCall L env m (5 * Minute) (25 * Second) ''Supervisor.Getpid'' RUnit w of
        None \<Rightarrow> []
      | Some ((Some e, _), _) \<Rightarrow> []
      | Some ((None, reply), _) \<Rightarrow>
          (case kmsg of
             Inl e \<Rightarrow> []
           | Inr ls \<Rightarrow>
               concat (map (\<lambda>line. if Contains line (oom_look (pid_of reply))
                                   then setError_items env (Addr m) oom_error else []) ls)))"

subsection \<open>retryCall is a retry loop\<close>

definition retryCall_final :: "errlib \<Rightarrow> string \<Rightarrow> nat \<Rightarrow> err option \<times> rreply \<Rightarrow> (err option \<times> rreply) option" where
  "retryCall_final L serviceMethod n r =
     (case fst r of
        None \<Rightarrow> Some (None, snd r)
      | Some err \<Rightarrow>
          if match_fatal L err
          then Some (Some (ErrE [Str ''fatal error calling'', Str serviceMethod, Err err]), snd r)
          else None)"

definition retryCall_gaveup :: "err \<Rightarrow> err option \<times> rreply" where
  "retryCall_gaveup err = (Some (ErrE [Severity Fatal, Err err]), NoReply)"

lemma retryCall_final_simps [simp]:
  "retryCall_final L sm n (None, reply) = Some (None, reply)"
  "match_fatal L e \<Longrightarrow> retryCall_final L sm n (Some e, reply) =
     Some (Some (ErrE [Str ''fatal error calling'', Str sm, Err e]), reply)"
  "\<not> match_fatal L e \<Longrightarrow> retryCall_final L sm n (Some e, reply) = None"
  by (simp_all add: retryCall_final_def)

lemmas retryCall_parts = retryCall_final_def retryCall_gaveup_def

interpretation rc: retry_loop
  "call env m (Some rpcTimeout) serviceMethod arg" "retryCall_final L serviceMethod"
  "env_wait env deadline" retryCall_gaveup
  "retryCall_loop L env m deadline rpcTimeout serviceMethod arg"
  for L env m deadline rpcTimeout serviceMethod arg
proof
  show "retryCall_loop L env m deadline rpcTimeout serviceMethod arg n w =
    (case call env m (Some rpcTimeout) serviceMethod arg w of (r, w1) \<Rightarrow>
       (case retryCall_final L serviceMethod n r of
          Some out \<Rightarrow> Some (out, w1)
        | None \<Rightarrow>
            (case env_wait env deadline n w1 of
               (Some e, w2) \<Rightarrow> Some (retryCall_gaveup e, w2)
             | (None, w2) \<Rightarrow>
                 retryCall_loop L env m deadline rpcTimeout serviceMethod arg (Suc n) w2)))" for n w
    by (subst retryCall_loop.simps)
      (auto simp: retryCall_parts split: prod.splits option.splits)
next
  fix P n w r
  assume step1: "\<And>n w a w1 out. call env m (Some rpcTimeout) serviceMethod arg w = (a, w1) \<Longrightarrow>
       retryCall_final L serviceMethod n a = Some out \<Longrightarrow> P n w (out, w1)"
    and step2: "\<And>n w a w1 e w2. call env m (Some rpcTimeout) serviceMethod arg w = (a, w1) \<Longrightarrow>
       retryCall_final L serviceMethod n a = None \<Longrightarrow>
       env_wait env deadline n w1 = (Some e, w2) \<Longrightarrow> P n w (retryCall_gaveup e, w2)"
    and step3: "\<And>n w a w1 w2 r. call env m (Some rpcTimeout) serviceMethod arg w = (a, w1) \<Longrightarrow>
       retryCall_final L serviceMethod n a = None \<Longrightarrow>
       env_wait env deadline n w1 = (None, w2) \<Longrightarrow> P (Suc n) w2 r \<Longrightarrow> P n w r"
    and ret: "retryCall_loop L env m deadline rpcTimeout serviceMethod arg n w = Some r"
  have "L = L \<and> env = env \<and> m = m \<and> deadline = deadline \<and> rpcTimeout = rpcTimeout \<and>
      serviceMethod = serviceMethod \<and> arg = arg \<longrightarrow> P n w r"
  proof (rule retryCall_loop.raw_induct
      [where P = "\<lambda>L' env' m' dl' rt' sm' arg' n w r.
         L' = L \<and> env' = env \<and> m' = m \<and> dl' = deadline \<and> rt' = rpcTimeout \<and>
         sm' = serviceMethod \<and> arg' = arg \<longrightarrow> P n w r", OF _ ret], goal_cases)
    case (1 f L' env' m' dl' rt' sm' arg' n w r)
    note IH = "1"(1) and body = "1"(2)
    obtain e reply w1 where c: "call env' m' (Some rt') sm' arg' w = ((e, reply), w1)"
      by (metis surj_pair)
    obtain e' w2 where wt: "env_wait env' dl' n w1 = (e', w2)" by (metis surj_pair)
    show ?case
    proof (intro impI, elim conjE)
      assume eqs: "L' = L" "env' = env" "m' = m" "dl' = deadline" "rt' = rpcTimeout"
        "sm' = serviceMethod" "arg' = arg"
      show "P n w r"
      proof (cases e)
        case None
        then have "r = ((None, reply), w1)" using body c by simp
        then show ?thesis using step1 [of w _ w1 n] c None eqs by simp
      next
        case (Some err)
        show ?thesis
        proof (cases "match_fatal L err")
          case True
          then have "r = ((Some (ErrE [Str ''fatal error calling'', Str serviceMethod, Err err]), reply), w1)"
            using body c Some eqs by simp
          then show ?thesis using step1 [of w _ w1 n] c Some True eqs by simp
        next
          case False
          show ?thesis
          proof (cases e')
            case None
            then have "f L' env' m' dl' rt' sm' arg' (Suc n) w2 = Some r"
              using body c Some False eqs wt by simp
            then have "P (Suc n) w2 r" using IH eqs by blast
            then show ?thesis using step3 [of w _ w1 n w2] c Some False wt None eqs by simp
          next
            case (Some err')
            then have "r = (retryCall_gaveup err', w2)"
              using body c \<open>e = Some err\<close> False eqs wt by (simp add: retryCall_gaveup_def)
            then show ?thesis using step2 [of w _ w1 n err' w2] c \<open>e = Some err\<close> False wt Some eqs by simp
          qed
        qed
      qed
    qed
  qed
  then show "P n w r" by blast
qed

subsection \<open>What a phase does to the machine's state\<close>

definition item_states :: "'i titem list \<Rightarrow> State list" where
  "item_states t = concat (map (\<lambda>i. case i of TAct (ASetState s) \<Rightarrow> [s] | _ \<Rightarrow> []) t)"

definition item_acts :: "'i titem list \<Rightarrow> act list" where
  "item_acts t = concat (map (\<lambda>i. case i of TAct a \<Rightarrow> [a] | _ \<Rightarrow> []) t)"

lemma item_states_simps [simp]:
  "item_states [] = []"
  "item_states (t1 @ t2) = item_states t1 @ item_states t2"
  "item_states (TCall sm a e # t) = item_states t"
  "item_states (TGo g # t) = item_states t"
  "item_states (TAct (ASetState s) # t) = s # item_states t"
  "item_states (TAct (ASetErr x) # t) = item_states t"
  "item_states (TAct (AEvent ev) # t) = item_states t"
  "item_states (TAct (AKeepalive r k) # t) = item_states t"
  by (simp_all add: item_states_def)

lemma item_acts_simps [simp]:
  "item_acts [] = []"
  "item_acts (t1 @ t2) = item_acts t1 @ item_acts t2"
  "item_acts (TCall sm a e # t) = item_acts t"
  "item_acts (TGo g # t) = item_acts t"
  "item_acts (TAct x # t) = x # item_acts t"
  by (simp_all add: item_acts_def)

text \<open>\<open>quiet p\<close>: the phase leaves the state alone unless it returns, and then its last sections are
  those of a \<open>setError\<close>.\<close>

definition quiet_out :: "('i, 'w) menv \<Rightarrow> string \<Rightarrow> 'i titem list \<Rightarrow> flow \<Rightarrow> bool" where
  "quiet_out env addr t f \<longleftrightarrow>
     (if f = Return then \<exists>t' e. t = t' @ setError_items env addr e \<and> item_states t' = []
      else item_states t = [])"

definition quiet :: "('i, 'w) menv \<Rightarrow> string \<Rightarrow> ('i, 'w) phase \<Rightarrow> bool" where
  "quiet env addr p \<longleftrightarrow> (\<forall>w t f w'. p w = (t, f, w') \<longrightarrow> quiet_out env addr t f)"

lemma quietI:
  "(\<And>w t f w'. p w = (t, f, w') \<Longrightarrow> quiet_out env addr t f) \<Longrightarrow> quiet env addr p"
  unfolding quiet_def by blast

lemma quietD: "quiet env addr p \<Longrightarrow> p w = (t, f, w') \<Longrightarrow> quiet_out env addr t f"
  unfolding quiet_def by blast

lemma quiet_out_items [simp]: "f \<noteq> Return \<Longrightarrow> quiet_out env addr t f \<longleftrightarrow> item_states t = []"
  by (simp add: quiet_out_def)

lemma quiet_out_error: "item_states t = [] \<Longrightarrow> quiet_out env addr (t @ setError_items env addr e) Return"
  unfolding quiet_out_def by auto

lemmas quiet_out_errors [simp] =
  quiet_out_error [of "[]", simplified] quiet_out_error [of "[TCall sm a x]" for sm a x, simplified]
  quiet_out_error [of "[i, j, k]" for i j k, simplified]

lemma quiet_out_append:
  assumes "item_states t1 = []" "quiet_out env addr t2 f"
  shows "quiet_out env addr (t1 @ t2) f"
proof (cases "f = Return")
  case True
  then obtain t' e where "t2 = t' @ setError_items env addr e" "item_states t' = []"
    using assms(2) by (auto simp: quiet_out_def)
  then show ?thesis using quiet_out_error [of "t1 @ t'" env addr e] assms(1) True by simp
qed (use assms in simp)

lemma then_phase_cases:
  assumes "then_phase p q w = (t, f, w')"
  obtains (stop) "p w = (t, f, w')" "f \<noteq> Next"
    | (go) t1 t2 w1 where "p w = (t1, Next, w1)" "q w1 = (t2, f, w')" "t = t1 @ t2"
  using assms by (auto simp: then_phase_def split: prod.splits flow.splits)

lemma quiet_then [intro]:
  assumes "quiet env addr p" "quiet env addr q"
  shows "quiet env addr (then_phase p q)"
proof (rule quietI)
  fix w t f w' assume "then_phase p q w = (t, f, w')"
  then show "quiet_out env addr t f"
  proof (cases rule: then_phase_cases)
    case stop
    then show ?thesis using quietD [OF assms(1)] by simp
  next
    case (go t1 t2 w1)
    then show ?thesis
      using quietD [OF assms(1) go(1)] quietD [OF assms(2) go(2)] by (simp add: quiet_out_append)
  qed
qed

lemma quiet_acts: "item_states ts = [] \<Longrightarrow> quiet env addr (acts_phase ts)"
  by (rule quietI) (auto simp: acts_phase_def)

lemma quiet_rounds: "quiet env addr p \<Longrightarrow> quiet env addr (rounds p n)"
proof (induction n)
  case 0
  then show ?case by (intro quietI) auto
next
  case (Suc n)
  then have "quiet env addr (then_phase p (rounds p n))" by blast
  then show ?case unfolding quiet_def by simp
qed

lemma quiet_call: "quiet env (Addr m) (call_phase env m c sm arg wrap)"
  by (rule quietI) (auto simp: call_phase_def split: option.splits prod.splits)

lemma quiet_exec: "quiet env (Addr m) (exec_phase L env m)"
  by (rule quietI) (auto simp: exec_phase_def split: option.splits prod.splits if_splits)

lemma quiet_register: "quiet env (Addr m) (register_phase L env m svcs)"
  by (induction L env m svcs rule: register_phase.induct) (auto intro!: quiet_acts quiet_call)

lemma quiet_ping_round: "quiet env (Addr m) (ping_round L env m)"
  by (rule quietI) (auto simp: ping_round_def Let_def split: option.splits prod.splits)

lemma quiet_keepalive_round: "quiet env (Addr m) (keepalive_round L env m start)"
  by (rule quietI)
    (auto simp: keepalive_round_def alive_item_def Let_def split: option.splits prod.splits if_splits)

lemma quiet_boot: "quiet env (Addr m) (boot_phase L env has_system m start)"
proof (rule quietI)
  fix w t f w' assume b: "boot_phase L env has_system m start w = (t, f, w')"
  let ?q = "then_phase (acts_phase [alive_item env m start w, TGo (if has_system then ''tail'' else ''close tailDone'')])
          (if NoExec m then acts_phase [] else then_phase (ping_phase L env m) (exec_phase L env m))"
  have q: "quiet env (Addr m) ?q"
    by (auto intro!: quiet_acts quiet_call quiet_exec simp: alive_item_def ping_phase_def)
  show "quiet_out env (Addr m) t f"
  proof (cases "owner m")
    case True
    then have "?q w = (t, f, w')" using b by (simp add: boot_phase_def)
    then show ?thesis by (rule quietD [OF q])
  next
    case False
    then show ?thesis using b by (auto simp: boot_phase_def)
  qed
qed

lemmas quiet_phases = quiet_call quiet_exec quiet_register quiet_ping_round quiet_keepalive_round quiet_boot

lemma quiet_out_states: "quiet_out env addr t f \<Longrightarrow> item_states t = (if f = Return then [Stopped] else [])"
  by (auto simp: quiet_out_def setError_items_def)

lemma quiet_out_Return:
  assumes "quiet_out env addr t Return"
  shows "\<exists>t' e. t = t' @ setError_items env addr e"
  using assms by (auto simp: quiet_out_def)

text \<open>The state changes of a whole run of \<open>loop\<close>.\<close>

lemma quiet_ping: "quiet env (Addr m) (ping_phase L env m)"
  unfolding ping_phase_def by (rule quiet_call)

lemma states_then_quiet:
  assumes "then_phase p q w = (t, f, w')" "quiet env addr p"
    and "\<And>w1 t2. q w1 = (t2, f, w') \<Longrightarrow> \<exists>ss. (ss = [] \<or> ss = [Running]) \<and>
        item_states t2 = ss @ (if f = Return then [Stopped] else [])"
  shows "\<exists>ss. (ss = [] \<or> ss = [Running]) \<and> item_states t = ss @ (if f = Return then [Stopped] else [])"
  using assms(1)
proof (cases rule: then_phase_cases)
  case stop
  then show ?thesis using quiet_out_states [OF quietD [OF assms(2) stop(1)]] by simp
next
  case (go t1 t2 w1)
  have "item_states t1 = []" using quiet_out_states [OF quietD [OF assms(2) go(1)]] by simp
  then show ?thesis using assms(3) [OF go(2)] go(3) by simp
qed

lemma states_running:
  assumes "then_phase (acts_phase ts) q w = (t, f, w')" "item_states ts = [Running]" "quiet env addr q"
  shows "item_states t = [Running] @ (if f = Return then [Stopped] else [])"
  using assms(1)
proof (cases rule: then_phase_cases)
  case stop
  then show ?thesis by (simp add: acts_phase_def)
next
  case (go t1 t2 w1)
  then show ?thesis
    using quiet_out_states [OF quietD [OF assms(3) go(2)]] assms(2) by (auto simp: acts_phase_def)
qed

lemma run_phase_states:
  assumes "run_phase L env has_system m start n w = (t, f, w')"
  shows "\<exists>ss. (ss = [] \<or> ss = [Running]) \<and> item_states t = ss @ (if f = Return then [Stopped] else [])"
proof (cases "owner m")
  case False
  then have "then_phase (acts_phase [TAct (ASetState Running)]) (rounds (ping_round L env m) n) w = (t, f, w')"
    using assms by (simp add: run_phase_def)
  then have "item_states t = [Running] @ (if f = Return then [Stopped] else [])"
    by (rule states_running [OF _ _ quiet_rounds [OF quiet_ping_round]]) simp
  then show ?thesis by blast
next
  case True
  let ?ts = "(if has_system then [TGo ''tryMonitorOOMs''] else []) @ [TAct (ASetState Running)]"
  have "then_phase (register_phase L env m (services m))
      (then_phase (acts_phase ?ts) (rounds (keepalive_round L env m start) n)) w = (t, f, w')"
    using assms True by (simp add: run_phase_def)
  then show ?thesis
  proof (rule states_then_quiet [OF _ quiet_register])
    fix w1 t2
    assume "then_phase (acts_phase ?ts) (rounds (keepalive_round L env m start) n) w1 = (t2, f, w')"
    then have "item_states t2 = [Running] @ (if f = Return then [Stopped] else [])"
      by (rule states_running [OF _ _ quiet_rounds [OF quiet_keepalive_round]]) simp
    then show "\<exists>ss. (ss = [] \<or> ss = [Running]) \<and> item_states t2 = ss @ (if f = Return then [Stopped] else [])"
      by blast
  qed
qed

lemma loop_states:
  assumes "loop L env has_system m n w = (t, f, w')"
  shows "\<exists>ss. (ss = [] \<or> ss = [Running]) \<and>
    item_states t = Starting # ss @ (if f = Return then [Stopped] else [])"
proof -
  let ?rest = "then_phase (boot_phase L env has_system m (env_now env w))
      (then_phase (ping_phase L env m) (run_phase L env has_system m (env_now env w) n))"
  obtain t2 where r: "?rest w = (t2, f, w')" and t: "t = TAct (ASetState Starting) # t2"
    using assms by (auto simp: loop_def Let_def then_phase_def [of "acts_phase _"] acts_phase_def split: prod.splits)
  have "\<exists>ss. (ss = [] \<or> ss = [Running]) \<and> item_states t2 = ss @ (if f = Return then [Stopped] else [])"
    by (rule states_then_quiet [OF r quiet_boot], erule states_then_quiet [OF _ quiet_ping],
        erule run_phase_states)
  then show ?thesis using t by auto
qed

text \<open>A run of \<open>loop\<close> that returns ends with the sections of a \<open>setError\<close>.\<close>

lemma ends_with_error_then:
  assumes "then_phase p q w = (t, Return, w')" "quiet env addr p"
    and "\<And>w1 t2. q w1 = (t2, Return, w') \<Longrightarrow> \<exists>t' e. t2 = t' @ setError_items env addr e"
  shows "\<exists>t' e. t = t' @ setError_items env addr e"
  using assms(1)
proof (cases rule: then_phase_cases)
  case stop
  then show ?thesis using quiet_out_Return [OF quietD [OF assms(2)]] by simp
next
  case (go t1 t2 w1)
  then obtain t' e where "t2 = t' @ setError_items env addr e" using assms(3) by blast
  then have "t = (t1 @ t') @ setError_items env addr e" using go(3) by simp
  then show ?thesis by blast
qed

lemma ends_with_error_acts:
  assumes "then_phase (acts_phase ts) q w = (t, Return, w')"
    and "\<And>w1 t2. q w1 = (t2, Return, w') \<Longrightarrow> \<exists>t' e. t2 = t' @ setError_items env addr e"
  shows "\<exists>t' e. t = t' @ setError_items env addr e"
proof -
  obtain t2 where "q w = (t2, Return, w')" "t = ts @ t2"
    using assms(1) by (auto simp: then_phase_def acts_phase_def split: prod.splits)
  moreover then obtain t' e where "t2 = t' @ setError_items env addr e" using assms(2) by blast
  ultimately have "t = (ts @ t') @ setError_items env addr e" by simp
  then show ?thesis by blast
qed

lemma quiet_ends: "quiet env addr q \<Longrightarrow> q w = (t, Return, w') \<Longrightarrow> \<exists>t' e. t = t' @ setError_items env addr e"
  by (drule (1) quietD) (rule quiet_out_Return)

lemma run_phase_ends:
  assumes "run_phase L env has_system m start n w = (t, Return, w')"
  shows "\<exists>t' e. t = t' @ setError_items env (Addr m) e"
proof (cases "owner m")
  case True
  have "then_phase (register_phase L env m (services m))
          (then_phase (acts_phase ((if has_system then [TGo ''tryMonitorOOMs''] else []) @ [TAct (ASetState Running)]))
            (rounds (keepalive_round L env m start) n)) w = (t, Return, w')"
    using assms True by (simp add: run_phase_def)
  then show ?thesis
    by (rule ends_with_error_then [OF _ quiet_register])
      (erule ends_with_error_acts, erule quiet_ends [OF quiet_rounds [OF quiet_keepalive_round]])
next
  case False
  then have "then_phase (acts_phase [TAct (ASetState Running)]) (rounds (ping_round L env m) n) w = (t, Return, w')"
    using assms by (simp add: run_phase_def)
  then show ?thesis
    by (rule ends_with_error_acts) (erule quiet_ends [OF quiet_rounds [OF quiet_ping_round]])
qed

lemma loop_ends:
  assumes "loop L env has_system m n w = (t, Return, w')"
  shows "\<exists>t' e. t = t' @ setError_items env (Addr m) e"
  using assms unfolding loop_def Let_def
  by - (erule ends_with_error_acts, erule ends_with_error_then [OF _ quiet_boot],
        erule ends_with_error_then [OF _ quiet_ping], erule run_phase_ends)

lemma item_states_acts: "item_states t = act_states (item_acts t)"
proof (induction t)
  case (Cons i t)
  then show ?case by (cases i) (auto simp: item_states_def item_acts_def split: act.splits)
qed (simp add: item_states_def item_acts_def)

subsection \<open>Services are registered before the machine is running\<close>

lemma call_phase_Next:
  "call_phase env m c sm arg wrap w = (t, Next, w') \<Longrightarrow> t = [TCall sm arg None]"
  by (auto simp: call_phase_def split: option.splits prod.splits)

lemma register_phase_Next:
  assumes "register_phase L env m svcs w = (t, Next, w')"
  shows "t = map (\<lambda>(name, iface). TCall ''Supervisor.Register'' (RService name iface) None) svcs"
  using assms
proof (induction svcs arbitrary: w t)
  case Nil
  then show ?case by (simp add: acts_phase_def)
next
  case (Cons svc svcs)
  obtain name iface where svc: "svc = (name, iface)" by (cases svc)
  from Cons.prems [unfolded svc register_phase.simps] show ?case
  proof (cases rule: then_phase_cases)
    case (go t1 t2 w1)
    then show ?thesis using Cons.IH [OF go(2)] call_phase_Next [OF go(1)] svc by simp
  qed simp
qed

lemma then_quiet_go:
  assumes "then_phase p q w = (t, f, w')" "quiet env addr p" "s \<in> set (item_states t)" "s \<noteq> Stopped"
  obtains t1 t2 w1 where "p w = (t1, Next, w1)" "q w1 = (t2, f, w')" "t = t1 @ t2"
    "item_states t1 = []" "s \<in> set (item_states t2)"
  using assms(1)
proof (cases rule: then_phase_cases)
  case stop
  then show ?thesis using quiet_out_states [OF quietD [OF assms(2) stop(1)]] assms(3,4) by (auto split: if_splits)
next
  case (go t1 t2 w1)
  moreover have "item_states t1 = []" using quiet_out_states [OF quietD [OF assms(2) go(1)]] by simp
  ultimately show ?thesis using that assms(3) by simp
qed

lemma then_acts_go:
  assumes "then_phase (acts_phase ts) q w = (t, f, w')"
  obtains t2 where "q w = (t2, f, w')" "t = ts @ t2"
  using assms by (auto simp: then_phase_def acts_phase_def split: prod.splits)

definition register_items :: "(string \<times> 'i) list \<Rightarrow> 'i titem list" where
  "register_items svcs = map (\<lambda>(name, iface). TCall ''Supervisor.Register'' (RService name iface) None) svcs"

lemma run_phase_registers:
  assumes "run_phase L env has_system m start n w = (t, f, w')" "owner m" "Running \<in> set (item_states t)"
  shows "\<exists>go post. t = register_items (services m) @ go @ TAct (ASetState Running) # post \<and> item_states go = []"
proof -
  let ?go = "if has_system then [TGo ''tryMonitorOOMs''] else [] :: 'a titem list"
  have "then_phase (register_phase L env m (services m))
      (then_phase (acts_phase (?go @ [TAct (ASetState Running)])) (rounds (keepalive_round L env m start) n)) w = (t, f, w')"
    using assms by (simp add: run_phase_def)
  then obtain t1 t2 w1 where r: "register_phase L env m (services m) w = (t1, Next, w1)"
    and q: "then_phase (acts_phase (?go @ [TAct (ASetState Running)])) (rounds (keepalive_round L env m start) n) w1 = (t2, f, w')"
    and t: "t = t1 @ t2"
    by (rule then_quiet_go [OF _ quiet_register assms(3)]) simp
  from q obtain t3 where "t2 = (?go @ [TAct (ASetState Running)]) @ t3" by (rule then_acts_go)
  then have "t = register_items (services m) @ ?go @ TAct (ASetState Running) # t3"
    using t register_phase_Next [OF r] by (simp add: register_items_def)
  moreover have "item_states ?go = []" by simp
  ultimately show ?thesis by blast
qed

subsection \<open>The calls of exec, in order\<close>

definition log_env :: "('i, 'w) menv \<Rightarrow> ('i, 'w \<times> string list) menv" where
  "log_env env = \<lparr>
     env_call = (\<lambda>addr t sm a (w, l). case env_call env addr t sm a w of (r, w1) \<Rightarrow> (r, (w1, l @ [sm]))),
     env_wait = (\<lambda>d n (w, l). case env_wait env d n w of (e, w1) \<Rightarrow> (e, (w1, l))),
     env_now = (\<lambda>(w, l). env_now env w),
     env_select = (\<lambda>d (w, l). case env_select env d w of (e, w1) \<Rightarrow> (e, (w1, l))),
     env_sleep = (\<lambda>d (w, l). (env_sleep env d w, l)),
     env_self = env_self env, env_stat = env_stat env, env_open = env_open env, env_args = env_args env,
     env_mcall = (\<lambda>d sm a (w, l). case env_mcall env d sm a w of (r, w1) \<Rightarrow> (r, (w1, l @ [sm]))),
     env_write = (\<lambda>path r (w, l). case env_write env path r w of (e, w1) \<Rightarrow> (e, (w1, l))),
     env_suffix = (\<lambda>(w, l). env_suffix env w), env_error = env_error env\<rparr>"

definition exec_calls :: "string list" where
  "exec_calls = [''Supervisor.Info'', ''Supervisor.Setenv'', ''Supervisor.Setargs'',
     ''Supervisor.Keepalive'', ''Supervisor.Setbinary'', ''Supervisor.Exec'']"

subsection \<open>Properties\<close>

text \<open>C15. Failure detection terminates in bounded time. If a call under \<open>rpcTimeout\<close> ends within it,
  a successful \<open>retry.Wait\<close> sleeps at least some \<open>d > 0\<close> and never past the context's deadline,
  and a failing one does not outlast the deadline, then \<open>retryCall\<close> returns, no later than
  \<open>overallTimeout + rpcTimeout\<close> after it was called: the overall timeout does not cut an RPC short,
  it only stops further attempts.\<close>

theorem retryCall_bounded:
  fixes env :: "('i, 'w) menv"
  assumes d: "0 < d" and nonneg: "0 \<le> rpcTimeout" "0 \<le> overallTimeout"
    and calls: "\<And>w. env_now env w \<le> env_now env (snd (call env m (Some rpcTimeout) sm arg w)) \<and>
        env_now env (snd (call env m (Some rpcTimeout) sm arg w)) \<le> env_now env w + rpcTimeout"
    and wait_ok: "\<And>dl n w w'. env_wait env dl n w = (None, w') \<Longrightarrow>
        env_now env w + d \<le> env_now env w' \<and> env_now env w' \<le> dl"
    and wait_err: "\<And>dl n w e w'. env_wait env dl n w = (Some e, w') \<Longrightarrow>
        env_now env w' \<le> max dl (env_now env w)"
  shows "\<exists>r w'. retryCall L env m overallTimeout rpcTimeout sm arg w = Some (r, w') \<and>
    env_now env w' \<le> env_now env w + overallTimeout + rpcTimeout"
  unfolding retryCall_def
  by (rule rc.returns_by [where clock = "env_now env", OF d nonneg(1)])
    (use calls wait_ok wait_err nonneg in auto)

definition slow_env :: "(unit, int) menv" where
  "slow_env = \<lparr>
     env_call = (\<lambda>addr t sm a w. ((Some DeadlineExceeded, NoReply), w + the t)),
     env_wait = (\<lambda>dl n w. if w + Second \<le> dl then (None, w + Second) else (Some DeadlineExceeded, w)),
     env_now = (\<lambda>w. w), env_select = (\<lambda>d w. (None, w + d)), env_sleep = (\<lambda>d w. w + d),
     env_self = None, env_stat = (\<lambda>_ _. None), env_open = (\<lambda>_ _. Inr []), env_args = [],
     env_mcall = (\<lambda>d sm a w. ((None, NoReply), w)), env_write = (\<lambda>_ _ w. (None, w)),
     env_suffix = (\<lambda>_. []), env_error = (\<lambda>_. [])\<rparr>"

theorem retryCall_bounded_witness:
  "\<exists>r w'. retryCall arg_errlib slow_env (new_machine ''https://m0/'') (2 * Minute) (10 * Second)
      ''Supervisor.Keepalive'' (RDur (5 * Minute)) 0 = Some (r, w') \<and>
    env_now slow_env w' \<le> env_now slow_env 0 + 2 * Minute + 10 * Second"
  by (rule retryCall_bounded [where d = Second])
    (auto simp: slow_env_def call_def duration_defs split: if_splits)

text \<open>What \<open>retryCall\<close> can return: nil and the reply of an attempt that succeeded; the error of
  an attempt classified fatal, wrapped with the method's name; or, when waiting for the next attempt
  fails, the wait's error with its severity raised to fatal.\<close>

theorem retryCall_result:
  assumes "retryCall L env m overallTimeout rpcTimeout sm arg w = Some ((e, reply), w')"
  shows "(e = None \<and> (\<exists>w0. call env m (Some rpcTimeout) sm arg w0 = ((None, reply), w'))) \<or>
    (\<exists>err w0. call env m (Some rpcTimeout) sm arg w0 = ((Some err, reply), w') \<and> match_fatal L err \<and>
       e = Some (ErrE [Str ''fatal error calling'', Str sm, Err err])) \<or>
    (\<exists>err n w0. env_wait env (env_now env w + overallTimeout) n w0 = (Some err, w') \<and>
       e = Some (ErrE [Severity Fatal, Err err]))"
proof -
  consider (final) k w0 a where "call env m (Some rpcTimeout) sm arg w0 = (a, w')"
      "retryCall_final L sm k a = Some (e, reply)"
    | (gaveup) k w0 err where "env_wait env (env_now env w + overallTimeout) k w0 = (Some err, w')"
      "(e, reply) = retryCall_gaveup err"
    using rc.result_cases [OF assms [unfolded retryCall_def]] by blast
  then show ?thesis
  proof cases
    case final
    then show ?thesis
      by (cases a) (auto simp: retryCall_final_def split: option.splits if_splits)
  next
    case gaveup
    then show ?thesis by (auto simp: retryCall_gaveup_def)
  qed
qed

definition quick_env :: "(unit, nat) menv" where
  "quick_env = \<lparr>
     env_call = (\<lambda>addr t sm a w. if w < 4 then ((None, if sm = ''Supervisor.Getpid'' then RPid 12 else RKeepalive (5 * Minute) True), Suc w)
                                else ((Some (ErrE [Severity Fatal]), NoReply), Suc w)),
     env_wait = (\<lambda>dl n w. (Some DeadlineExceeded, w)),
     env_now = int, env_select = (\<lambda>d w. (None, w)), env_sleep = (\<lambda>d w. w),
     env_self = None, env_stat = (\<lambda>_ _. Some 1), env_open = (\<lambda>_ _. Inr []), env_args = [],
     env_mcall = (\<lambda>d sm a w. ((None, NoReply), w)), env_write = (\<lambda>_ _ w. (None, w)),
     env_suffix = (\<lambda>_. []), env_error = (\<lambda>_. [])\<rparr>"

theorem retryCall_result_witness:
  "retryCall arg_errlib quick_env (new_machine ''https://m0/'') Minute Second ''PI.Sample'' RUnit 0 =
     Some ((None, RKeepalive (5 * Minute) True), 1) \<and>
   (\<exists>w0. call quick_env (new_machine ''https://m0/'') (Some Second) ''PI.Sample'' RUnit w0 =
      ((None, RKeepalive (5 * Minute) True), 1))"
proof -
  have r: "retryCall arg_errlib quick_env (new_machine ''https://m0/'') Minute Second ''PI.Sample'' RUnit 0 =
     Some ((None, RKeepalive (5 * Minute) True), 1)"
    by (simp add: retryCall_def retryCall_loop.simps call_def quick_env_def)
  show ?thesis using r retryCall_result [OF r] by simp
qed

text \<open>C10. Left to itself the \<open>loop\<close> goroutine moves the machine through its states in increasing
  order only, in every environment and for every number of keepalive rounds.\<close>

theorem loop_monotone: "sorted_wrt (<) (item_states (fst (loop L env has_system m n w)))"
proof -
  obtain t f w' where l: "loop L env has_system m n w = (t, f, w')" by (metis surj_pair)
  from loop_states [OF l] obtain ss where "ss = [] \<or> ss = [Running]"
    "item_states t = Starting # ss @ (if f = Return then [Stopped] else [])"
    by blast
  then show ?thesis using l by (auto simp: less_State_def)
qed

text \<open>C12. When \<open>loop\<close> returns, the machine is stopped and its error is set.\<close>

theorem loop_return_stopped:
  assumes "loop L env has_system m n w = (t, Return, w')"
  shows "state (run_acts (item_acts t) m0) = Stopped \<and> merr (run_acts (item_acts t) m0) \<noteq> None"
proof -
  obtain t' e where t: "t = t' @ setError_items env (Addr m) e" using loop_ends [OF assms] by blast
  then show ?thesis
    by (simp add: setError_items_def run_act_state run_act_merr del: run_act.simps)
qed

definition demo_machine :: "unit machine" where
  "demo_machine = (new_machine ''https://m0/'')\<lparr>owner := True, NoExec := True, services := [(''PI'', ())]\<rparr>"

lemmas loop_eval = loop_def Let_def then_phase_def acts_phase_def boot_phase_def ping_phase_def ping_def
  call_phase_def retryCall_def retryCall_loop.simps call_def quick_env_def new_machine_def run_phase_def
  keepalive_round_def numeral_eq_Suc arg_errlib_def demo_machine_def

theorem loop_return_stopped_witness:
  "\<exists>t w'. loop arg_errlib quick_env True demo_machine 5 0 = (t, Return, w') \<and>
     state (run_acts (item_acts t) demo_machine) = Stopped \<and> merr (run_acts (item_acts t) demo_machine) \<noteq> None"
proof -
  have "fst (snd (loop arg_errlib quick_env True demo_machine 5 0)) = Return"
    by (simp add: loop_eval)
  then obtain t w' where l: "loop arg_errlib quick_env True demo_machine 5 0 = (t, Return, w')"
    by (metis fst_conv snd_conv surj_pair)
  show ?thesis using l loop_return_stopped [OF l, of demo_machine] by blast
qed

text \<open>C11. An owned machine is announced as running only after a successful ping and after every one
  of its services was registered successfully, in the order of the services.\<close>

theorem running_after_registration:
  assumes "loop L env has_system m n w = (t, f, w')" "owner m" "Running \<in> set (item_states t)"
  shows "\<exists>boot go post. item_states go = [] \<and>
    t = boot @ [TCall ''Supervisor.Ping'' (RInt 0) None] @ register_items (services m) @ go @
        TAct (ASetState Running) # post"
proof -
  let ?start = "env_now env w"
  obtain t2 where r: "then_phase (boot_phase L env has_system m ?start)
      (then_phase (ping_phase L env m) (run_phase L env has_system m ?start n)) w = (t2, f, w')"
    and t: "t = [TAct (ASetState Starting)] @ t2"
    using assms(1) unfolding loop_def Let_def by (rule then_acts_go)
  have "Running \<in> set (item_states t2)" using assms(3) t by simp
  then obtain b t3 w1 where pq: "then_phase (ping_phase L env m) (run_phase L env has_system m ?start n) w1 = (t3, f, w')"
    and t3: "t2 = b @ t3" "Running \<in> set (item_states t3)"
    using then_quiet_go [OF r quiet_boot] by (metis State.distinct(11))
  obtain p t4 w2 where p: "ping_phase L env m w1 = (p, Next, w2)"
    and q: "run_phase L env has_system m ?start n w2 = (t4, f, w')"
    and t4: "t3 = p @ t4" "Running \<in> set (item_states t4)"
    by (rule then_quiet_go [OF pq quiet_ping t3(2)]) auto
  obtain go post where "t4 = register_items (services m) @ go @ TAct (ASetState Running) # post" "item_states go = []"
    using run_phase_registers [OF q assms(2) t4(2)] by blast
  moreover have "p = [TCall ''Supervisor.Ping'' (RInt 0) None]"
    using p call_phase_Next by (metis ping_phase_def)
  ultimately have "t = (TAct (ASetState Starting) # b) @ [TCall ''Supervisor.Ping'' (RInt 0) None] @
      register_items (services m) @ go @ TAct (ASetState Running) # post"
    using t t3(1) t4(1) by simp
  then show ?thesis using \<open>item_states go = []\<close> by blast
qed

theorem running_after_registration_witness:
  "\<exists>t f w'. loop arg_errlib quick_env True demo_machine 5 0 = (t, f, w') \<and> owner demo_machine \<and>
     Running \<in> set (item_states t) \<and>
     TCall ''Supervisor.Register'' (RService ''PI'' ()) None \<in> set t"
proof -
  obtain t f w' where l: "loop arg_errlib quick_env True demo_machine 5 0 = (t, f, w')" by (metis surj_pair)
  have o: "owner demo_machine" by (simp add: demo_machine_def)
  have "Running \<in> set (item_states (fst (loop arg_errlib quick_env True demo_machine 5 0)))"
    by (simp add: loop_eval alive_item_def setError_items_def)
  then have r: "Running \<in> set (item_states t)" using l by simp
  have "services demo_machine = [(''PI'', ())]" by (simp add: demo_machine_def)
  then have "TCall ''Supervisor.Register'' (RService ''PI'' ()) None \<in> set t"
    using running_after_registration [OF l o r] by (auto simp: register_items_def)
  then show ?thesis using l o r by blast
qed

text \<open>\<open>exec\<close> prepares the remote process in a fixed order and stops at the first failure: its calls
  are a prefix of Info, Setenv, Setargs, Keepalive, Setbinary, Exec, whatever the replies.\<close>

theorem exec_call_order: "prefix (snd (snd (exec (log_env env) m (w, [])))) exec_calls"
  by (auto simp: exec_def exec_calls_def log_env_def timeoutCall_def call_def
      split: option.splits sum.splits prod.splits)

text \<open>The keepalive requested for the upload of the binary is long enough for an upload at the
  floor rate of 100 KiB per second, and not a second longer than needed.\<close>

theorem uploadTimeout_bounds:
  assumes "0 \<le> sz"
  shows "sz * Second \<le> uploadTimeout sz * upload_floor \<and>
    (uploadTimeout sz - Second) * upload_floor < sz * Second"
proof -
  let ?q = "(sz + upload_floor - 1) div upload_floor"
  have u: "uploadTimeout sz = ?q * Second"
    using assms by (simp add: uploadTimeout_def upload_floor_def)
  have "sz \<le> ?q * upload_floor" "(?q - 1) * upload_floor < sz"
    using assms by (auto simp: upload_floor_def) 
  moreover have "0 < Second" by (simp add: duration_defs)
  ultimately have "sz * Second \<le> (?q * upload_floor) * Second" "((?q - 1) * upload_floor) * Second < sz * Second"
    by (simp_all only: mult_le_cancel_right_pos mult_less_cancel_right_pos)
  then show ?thesis unfolding u by (simp add: algebra_simps)
qed

theorem uploadTimeout_bounds_witness:
  "(0::int) \<le> 10240000 \<and> 10240000 * Second \<le> uploadTimeout 10240000 * upload_floor"
  using uploadTimeout_bounds [of 10240000] by simp

lemma demo_loop:
  "\<exists>pre post w'. loop arg_errlib quick_env True demo_machine 5 0 =
     (pre @ TGo ''tryMonitorOOMs'' # TAct (ASetState Running) # post, Return, w')"
proof -
  have "fst (snd (loop arg_errlib quick_env True demo_machine 5 0)) = Return"
    by (simp add: loop_eval)
  moreover have "take 2 (drop 5 (fst (loop arg_errlib quick_env True demo_machine 5 0))) =
      [TGo ''tryMonitorOOMs'', TAct (ASetState Running)]"
    by (simp add: loop_eval)
  ultimately obtain t w' where l: "loop arg_errlib quick_env True demo_machine 5 0 = (t, Return, w')"
    and t: "take 2 (drop 5 t) = [TGo ''tryMonitorOOMs'', TAct (ASetState Running)]"
    by (metis fst_conv snd_conv surj_pair)
  have "t = take 5 t @ take 2 (drop 5 t) @ drop 2 (drop 5 t)"
    by (simp only: append_take_drop_id)
  then show ?thesis using l t by (metis append_Cons append_Nil)
qed

text \<open>The out-of-memory monitor and \<open>loop\<close> are not synchronised, so machine states are not
  monotone: there is a run in which the monitor, started before \<open>loop\<close> sets the state to Running,
  stops the machine first, and \<open>loop\<close> then moves it from Stopped back to Running.\<close>

theorem oom_monitor_breaks_monotonicity:
  "\<exists>pre post w'. loop arg_errlib quick_env True demo_machine 5 0 =
       (pre @ TGo ''tryMonitorOOMs'' # TAct (ASetState Running) # post, Return, w') \<and>
     (let mon = tryMonitorOOMs arg_errlib quick_env demo_machine
                  (Inr [''Out of memory: Kill process 12 (PI) score 901'']) 0
      in state (run_acts (item_acts (pre @ mon)) demo_machine) = Stopped \<and>
         state (run_acts (item_acts (pre @ mon @ [TAct (ASetState Running)])) demo_machine) = Running)"
proof -
  let ?mon = "tryMonitorOOMs arg_errlib quick_env demo_machine
      (Inr [''Out of memory: Kill process 12 (PI) score 901'']) 0"
  have look: "oom_look 12 = ''Out of memory: Kill process 12''"
    by (simp add: oom_look_def show_int_def show_nat.simps digit_def)
  have "retryCall arg_errlib quick_env demo_machine (5 * Minute) (25 * Second) ''Supervisor.Getpid'' RUnit 0 =
     Some ((None, RPid 12), 1)"
    by (simp add: retryCall_def retryCall_loop.simps call_def quick_env_def)
  then have mon: "?mon = setError_items quick_env (Addr demo_machine) oom_error"
    by (simp add: tryMonitorOOMs_def look)
  obtain pre post w' where l: "loop arg_errlib quick_env True demo_machine 5 0 =
      (pre @ TGo ''tryMonitorOOMs'' # TAct (ASetState Running) # post, Return, w')"
    using demo_loop by blast
  show ?thesis
    by (rule exI [of _ pre], rule exI [of _ post], rule exI [of _ w'])
      (simp add: l mon setError_items_def run_act_state del: run_act.simps)
qed

text \<open>The monitor looks for its process number as a substring: the kernel's message that it killed
  another process whose number starts with the same digits fails this machine too.\<close>

theorem oom_other_process:
  assumes "retryCall L env m (5 * Minute) (25 * Second) ''Supervisor.Getpid'' RUnit w = Some ((None, RPid pid), w')"
    and "0 < pid" "0 \<le> d" "d < 10"
  shows "tryMonitorOOMs L env m (Inr [oom_look (10 * pid + d) @ rest]) w = setError_items env (Addr m) oom_error"
proof -
  have "show_nat (nat (10 * pid + d)) = show_nat (nat pid) @ [digit (nat d)]"
  proof -
    have n: "nat (10 * pid + d) = 10 * nat pid + nat d" using assms by (simp add: nat_add_distrib nat_mult_distrib)
    then show ?thesis using assms(2,4) by (subst show_nat.simps) simp
  qed
  then have "oom_look (10 * pid + d) @ rest = oom_look pid @ digit (nat d) # rest"
    using assms by (simp add: oom_look_def show_int_def)
  then have "Contains (oom_look (10 * pid + d) @ rest) (oom_look pid)"
    by (simp add: Contains_iff_sublist)
  then show ?thesis using assms(1) by (simp add: tryMonitorOOMs_def)
qed

theorem oom_other_process_witness:
  "retryCall arg_errlib quick_env demo_machine (5 * Minute) (25 * Second) ''Supervisor.Getpid'' RUnit 0 =
     Some ((None, RPid 12), 1) \<and>
   tryMonitorOOMs arg_errlib quick_env demo_machine (Inr [oom_look 123 @ '' (postgres)'']) 0 =
     setError_items quick_env (Addr demo_machine) oom_error"
proof -
  have r: "retryCall arg_errlib quick_env demo_machine (5 * Minute) (25 * Second) ''Supervisor.Getpid'' RUnit 0 =
     Some ((None, RPid 12), 1)"
    by (simp add: retryCall_def retryCall_loop.simps call_def quick_env_def)
  show ?thesis using r oom_other_process [OF r, of 3 "'' (postgres)''"] by simp
qed

end
