(* ===== verification/Machine_Call.thy ===== *)
theory Machine_Call
  imports Machine_Loop
begin

text \<open>
  Calls on a machine (\<open>machine.go\<close>: \<open>Machine.Call\<close>, \<open>RetryCall\<close>, \<open>start\<close>, \<open>Hostname\<close>,
  \<open>MemInfo\<close>, \<open>DiskInfo\<close>, \<open>LoadInfo\<close>). \<open>Call\<close> runs beside the machine's loop and other calls,
  so it is a step relation: its own steps, one for each access to the machine's shared state, and
  between them any critical section of the other goroutines. Its program counter is the datatype
  \<open>cpc\<close>. \<open>RetryCall\<close> is an instance of the retry loop of the prelude.
\<close>

subsection \<open>Call\<close>

text \<open>The places \<open>Call\<close> can be in: about to read the state; about to derive its context; in the
  RPC under context \<open>c\<close>; about to compare the RPC's error with its context's; about to read
  the state once more; about to report a stopped machine; waiting on channel \<open>c\<close> or the caller's
  context; returned. The contexts derived so far are released on return.\<close>

datatype cpc =
    PState | PContext | PCalling nat | PCheck nat "err option" | PCheckState nat err
  | PStopped "nat option" | PWaiting nat | PDone "err option"

text \<open>The caller's context: None as long as it is not done, and then its error and the contexts the machine had
  canceled by then. A derived context keeps the error of whichever ended it first, so the error of a call's context is \<open>Canceled\<close> if the
  machine canceled it before the caller's context was done, and otherwise the caller's.\<close>

type_synonym pctx = "(err \<times> nat list) option"

definition ctx_err :: "'i machine \<Rightarrow> pctx \<Rightarrow> nat \<Rightarrow> err option" where
  "ctx_err m parent c =
     (case parent of
        Some (e, before) \<Rightarrow> if c \<in> set before then Some Canceled else Some e
      | None \<Rightarrow> if c \<in> set (canceled m) then Some Canceled else None)"

definition stopped_error :: "string \<Rightarrow> err option \<Rightarrow> err" where
  "stopped_error addr e =
     (let msg = ''machine '' @ addr @ '' stopped''
      in case e of
           Some x \<Rightarrow> ErrE [Severity Fatal, Kind Unavailable, Str msg, Err x]
         | None \<Rightarrow> ErrE [Severity Fatal, Kind Unavailable, Str msg])"

type_synonym 'i ccfg = "'i machine \<times> pctx \<times> cpc"

text \<open>The steps of the call itself.\<close>

inductive call_step :: "'i ccfg \<Rightarrow> 'i ccfg \<Rightarrow> bool" where
  read_running: "state m = Running \<Longrightarrow> call_step (m, p, PState) (m, p, PContext)"
| read_stopped: "state m = Stopped \<Longrightarrow> call_step (m, p, PState) (m, p, PStopped None)"
| read_other: "state m \<noteq> Running \<Longrightarrow> state m \<noteq> Stopped \<Longrightarrow> Wait Running m = (c, m') \<Longrightarrow>
    call_step (m, p, PState) (m', p, PWaiting c)"
| wait_done: "c \<in> set (closed m) \<Longrightarrow> call_step (m, p, PWaiting c) (m, p, PState)"
| wait_ctx: "call_step (m, Some (e, before), PWaiting c) (m, Some (e, before), PDone (Some e))"
| derive: "machine_context m = (c, m') \<Longrightarrow> call_step (m, p, PContext) (m', p, PCalling c)"
| rpc: "call_step (m, p, PCalling c) (m, p, PCheck c e)"
| check_return: "e = None \<or> e \<noteq> ctx_err m p c \<Longrightarrow>
    call_step (m, p, PCheck c e) (release c m, p, PDone e)"
| check_state: "ctx_err m p c = Some e \<Longrightarrow> call_step (m, p, PCheck c (Some e)) (m, p, PCheckState c e)"
| state_return: "state m \<noteq> Stopped \<Longrightarrow>
    call_step (m, p, PCheckState c e) (release c m, p, PDone (Some e))"
| state_stopped: "state m = Stopped \<Longrightarrow> call_step (m, p, PCheckState c e) (m, p, PStopped (Some c))"
| report: "call_step (m, p, PStopped oc)
    (case oc of None \<Rightarrow> m | Some c \<Rightarrow> release c m, p, PDone (Some (stopped_error (Addr m) (merr m))))"

inductive_cases call_step_cases: "call_step (m, p, PState) s" "call_step (m, p, PStopped oc) s"
  "call_step (m, p, PWaiting c) s" "call_step (m, p, PCalling c) s" "call_step (m, p, PCheck c e) s"

inductive_simps call_step_done: "call_step (m, p, PDone e) s"

text \<open>A call among the other goroutines: a step of the call, a critical section of another goroutine
  (which has no hold on the call's own context), or the caller's context becoming done.\<close>

inductive sys_step :: "'i ccfg \<Rightarrow> 'i ccfg \<Rightarrow> bool" where
  own: "call_step s s' \<Longrightarrow> sys_step s s'"
| other: "(\<And>c. pc \<in> {PCalling c} \<union> range (PCheck c) \<union> range (PCheckState c) \<Longrightarrow> a \<noteq> ARelease c) \<Longrightarrow>
    sys_step (m, p, pc) (run_act a m, p, pc)"
| ctx_done: "e \<in> {Canceled, DeadlineExceeded} \<Longrightarrow> sys_step (m, None, pc) (m, Some (e, canceled m), pc)"

subsection \<open>RetryCall\<close>

definition RetryCall :: "errlib \<Rightarrow> ('w \<Rightarrow> (err option \<times> rreply) \<times> 'w) \<Rightarrow> (nat \<Rightarrow> 'w \<Rightarrow> err option \<times> 'w) \<Rightarrow> 'w
    \<Rightarrow> ((err option \<times> rreply) \<times> 'w) option" where
  "RetryCall L mcall wait =
     retry mcall
       (\<lambda>retries r. case fst r of
          None \<Rightarrow> Some r
        | Some e \<Rightarrow> if \<not> is_temporary L e then Some r else None)
       wait (\<lambda>e. (Some (ErrE [Severity Fatal, Err e]), NoReply)) 0"

subsection \<open>Start, Hostname, information\<close>

text \<open>\<open>start\<close> up to the goroutine it begins: the client is taken from \<open>B\<close> and so is the keepalive
  configuration of a machine that has none. This is the machine the goroutine is given; the goroutine is \<open>loop\<close>, and what it has done to the
  machine by the time \<open>start\<close> returns, or at any later time, together with what others have done, is a list of \<open>act\<close>s.\<close>

definition Machine_start :: "duration \<times> duration \<times> duration \<Rightarrow> 'i machine \<Rightarrow> 'i machine" where
  "Machine_start keepaliveConfig m =
     (let m = (if keepalivePeriod m = 0
               then (case keepaliveConfig of (period, timeout, rpcTimeout) \<Rightarrow>
                 m\<lparr>keepalivePeriod := period, keepaliveTimeout := timeout, keepaliveRpcTimeout := rpcTimeout\<rparr>)
               else m)
      in m\<lparr>cancelers := []\<rparr>)"

text \<open>\<open>url_host\<close> is the host of a parsed URL, \<open>split_host_port\<close> the host part of a host and port.\<close>

definition Hostname :: "(string \<Rightarrow> err + string) \<Rightarrow> (string \<Rightarrow> err + string) \<Rightarrow> 'i machine \<Rightarrow> string" where
  "Hostname url_host split_host_port m =
     (case url_host (Addr m) of
        Inl e \<Rightarrow> ''unknown''
      | Inr u \<Rightarrow> (case split_host_port u of Inl e \<Rightarrow> u | Inr host \<Rightarrow> host))"

definition MemInfo :: "(string \<Rightarrow> 'i rarg \<Rightarrow> 'w \<Rightarrow> (err option \<times> 'x) \<times> 'w) \<Rightarrow> bool \<Rightarrow> 'w \<Rightarrow> (err option \<times> 'x) \<times> 'w" where
  "MemInfo mcall readMemStats = mcall ''Supervisor.MemInfo'' (RBool readMemStats)"

definition DiskInfo :: "(string \<Rightarrow> 'i rarg \<Rightarrow> 'w \<Rightarrow> (err option \<times> 'x) \<times> 'w) \<Rightarrow> 'w \<Rightarrow> (err option \<times> 'x) \<times> 'w" where
  "DiskInfo mcall = mcall ''Supervisor.DiskInfo'' RUnit"

definition LoadInfo :: "(string \<Rightarrow> 'i rarg \<Rightarrow> 'w \<Rightarrow> (err option \<times> 'x) \<times> 'w) \<Rightarrow> 'w \<Rightarrow> (err option \<times> 'x) \<times> 'w" where
  "LoadInfo mcall = mcall ''Supervisor.LoadInfo'' RUnit"

subsection \<open>Invariant of a call\<close>

text \<open>What the machine knows of a call, by where the call is: its wait is registered or signalled, its
  context is registered or canceled; an error that it reports comes from a stopped machine.\<close>

definition call_inv :: "'i ccfg \<Rightarrow> bool" where
  "call_inv s \<longleftrightarrow> (case s of (m, p, pc) \<Rightarrow> contexts_inv m \<and>
     (case pc of
        PWaiting c \<Rightarrow> signalled c m \<or> (c, Running) \<in> set (waiters m)
      | PCalling c \<Rightarrow> c \<in> set (cancelers m) \<union> set (canceled m)
      | PCheck c e \<Rightarrow> c \<in> set (cancelers m) \<union> set (canceled m)
      | PCheckState c e \<Rightarrow> c \<in> set (cancelers m) \<union> set (canceled m)
      | _ \<Rightarrow> True))"

lemma call_inv_own: "call_step s s' \<Longrightarrow> call_inv s \<Longrightarrow> call_inv s'"
proof (induction rule: call_step.induct)
  case (read_other m c m' p)
  have "contexts_inv (run_act (AWait Running) m)"
    using read_other.prems by (intro contexts_inv_run_act) (simp add: call_inv_def)
  then show ?case using Wait_cases [OF read_other(3)] read_other(3)
    by (auto simp: call_inv_def split: if_splits)
next
  case (derive m c m' p)
  have "contexts_inv (run_act AContext m)"
    using derive.prems by (intro contexts_inv_run_act) (simp add: call_inv_def)
  then show ?case using machine_context_cases [OF derive(1)] derive(1)
    by (auto simp: call_inv_def split: if_splits)
next
  case (check_return e m p c)
  then show ?case using contexts_inv_run_act [of m "ARelease c"] by (simp add: call_inv_def)
next
  case (state_return m p c e)
  then show ?case using contexts_inv_run_act [of m "ARelease c"] by (simp add: call_inv_def)
next
  case (report m p oc)
  then show ?case using contexts_inv_run_act [of m "ARelease (the oc)"]
    by (cases oc) (simp_all add: call_inv_def)
qed (auto simp: call_inv_def)

lemma context_run_act:
  assumes "c \<in> set (cancelers m) \<union> set (canceled m)" "a \<noteq> ARelease c"
  shows "c \<in> set (cancelers (run_act a m)) \<union> set (canceled (run_act a m))"
proof (cases "c \<in> set (canceled m)")
  case True
  then show ?thesis using canceled_run_acts [of c m "[a]"] by simp
next
  case False
  then show ?thesis using assms canceler_run_act [of c m a] by (auto split: if_splits)
qed

lemma waiting_run_act:
  assumes "signalled c m \<or> (c, s) \<in> set (waiters m)"
  shows "signalled c (run_act a m) \<or> (c, s) \<in> set (waiters (run_act a m))"
  using assms signalled_run_act [of c m a] waiter_run_act [of c s m a] by (auto split: if_splits)

lemma call_inv_sys: "sys_step s s' \<Longrightarrow> call_inv s \<Longrightarrow> call_inv s'"
proof (induction rule: sys_step.induct)
  case (other pc a m p)
  have inv: "contexts_inv (run_act a m)"
    using other.prems by (intro contexts_inv_run_act) (simp add: call_inv_def)
  show ?case
  proof (cases pc)
    case (PCalling c)
    then show ?thesis using other inv context_run_act [of c m a] by (simp add: call_inv_def)
  next
    case (PCheck c e)
    then show ?thesis using other inv context_run_act [of c m a] by (simp add: call_inv_def)
  next
    case (PCheckState c e)
    then show ?thesis using other inv context_run_act [of c m a] by (simp add: call_inv_def)
  next
    case (PWaiting c)
    then show ?thesis using other.prems inv waiting_run_act [of c m Running a] by (simp add: call_inv_def)
  qed (use inv in \<open>simp_all add: call_inv_def\<close>)
next
  case (own s s')
  then show ?case by (rule call_inv_own)
qed (simp add: call_inv_def)

lemma call_inv_reach: "sys_step\<^sup>*\<^sup>* s s' \<Longrightarrow> call_inv s \<Longrightarrow> call_inv s'"
  by (induction rule: rtranclp_induct) (auto intro: call_inv_sys)

lemma call_inv_start: "call_inv (run_acts as (new_machine addr), p, PState)"
  by (simp add: call_inv_def contexts_inv_run_acts contexts_inv_new)

lemma call_inv_canceled:
  assumes "call_inv (m, p, pc)" "state m = Stopped" "pc \<in> {PCalling c} \<union> range (PCheck c) \<union> range (PCheckState c)"
  shows "c \<in> set (canceled m)"
proof -
  have "cancelers m = []" using assms(1,2) by (simp add: call_inv_def contexts_inv_def machine_inv_def)
  then show ?thesis using assms(1,3) by (auto simp: call_inv_def)
qed

lemma call_inv_waiting:
  assumes "call_inv (m, p, PWaiting c)" "Running \<le> state m"
  shows "signalled c m"
proof -
  have "(c, Running) \<notin> set (waiters m)"
    using assms by (auto simp: call_inv_def contexts_inv_def machine_inv_def)
  then show ?thesis using assms(1) by (simp add: call_inv_def)
qed

subsection \<open>Properties of Call\<close>

text \<open>C4. Calls pending on a machine that stops are canceled: in every interleaving of a call with the other
  goroutines of a machine, whenever the machine is stopped while the call is in its RPC, the call's context
  is canceled.\<close>

theorem pending_call_canceled:
  assumes "sys_step\<^sup>*\<^sup>* (run_acts as (new_machine addr :: 'i machine), p, PState) (m, p', PCalling c)"
    and "state m = Stopped"
  shows "ctx_err m p' c \<noteq> None"
  using call_inv_canceled [OF call_inv_reach [OF assms(1) call_inv_start] assms(2)]
  by (auto simp: ctx_err_def split: option.splits)

definition running_machine :: "unit machine" where
  "running_machine = run_acts [ASetState Starting, ASetState Running] (new_machine ''h'')"

theorem pending_call_canceled_witness:
  "\<exists>m. sys_step\<^sup>*\<^sup>* (running_machine, None, PState) (m, None, PCalling 0) \<and> state m = Stopped \<and> ctx_err m None 0 \<noteq> None"
proof -
  let ?m = "snd (machine_context running_machine)"
  let ?m' = "run_act (ASetState Stopped) ?m"
  have r: "state running_machine = Running" "fst (machine_context running_machine) = 0" "state ?m' = Stopped"
    by (simp_all add: running_machine_def new_machine_def Let_def setState_locked_def machine_context_def)
  have "sys_step (running_machine, None, PState) (running_machine, None, PContext)"
    by (rule own, rule read_running, rule r)
  moreover have "sys_step (running_machine, None, PContext) (?m, None, PCalling 0)"
    by (rule own, rule derive) (simp add: prod_eq_iff r(2))
  moreover have "sys_step (?m, None, PCalling 0) (?m', None, PCalling 0)"
    by (rule other) simp
  ultimately have "sys_step\<^sup>*\<^sup>* (running_machine, None, PState) (?m', None, PCalling 0)"
    by (meson r_into_rtranclp rtranclp_trans)
  then show ?thesis
    using pending_call_canceled [of "[ASetState Starting, ASetState Running]" "''h''" None ?m' None 0] r(3)
    unfolding running_machine_def by blast
qed

text \<open>C13. A call waiting for a machine misses nothing and never waits on a machine that is up: in every
  interleaving, a call that is not over can take a step, or it is waiting and either the machine has not reached
  \<open>Running\<close> or the channel it waits on is about to be closed.\<close>

theorem Call_progress:
  assumes "sys_step\<^sup>*\<^sup>* (run_acts as (new_machine addr :: 'i machine), p, PState) (m, p', pc)"
    and "\<And>e. pc \<noteq> PDone e"
  shows "(\<exists>s. call_step (m, p', pc) s) \<or>
    (\<exists>c. pc = PWaiting c \<and> p' = None \<and> (state m < Running \<or> c \<in> set (pending m)))"
proof (cases pc)
  case PState
  then show ?thesis using call_step.intros(1-3) [of m] by (cases "Wait Running m") blast
next
  case PContext
  then show ?thesis by (cases "machine_context m") (blast intro: call_step.intros)
next
  case (PCheck c e)
  show ?thesis
  proof (cases "e = None \<or> e \<noteq> ctx_err m p' c")
    case True
    then show ?thesis using check_return PCheck by blast
  next
    case False
    then obtain x where "e = Some x" "ctx_err m p' c = Some x" by auto
    then show ?thesis using check_state PCheck by blast
  qed
next
  case (PCalling c)
  then show ?thesis using rpc [of m p' c None] by blast
next
  case (PCheckState c e)
  then show ?thesis using state_return [of m p' c e] state_stopped [of m p' c e] by blast
next
  case (PStopped oc)
  then show ?thesis using report [of m p' oc] by blast
next
  case (PWaiting c)
  have "signalled c m" if "\<not> state m < Running"
    using call_inv_waiting call_inv_reach [OF assms(1) call_inv_start] PWaiting that by force
  then have up: "state m < Running \<or> c \<in> set (pending m) \<or> c \<in> set (closed m)"
    by (auto simp: signalled_def)
  show ?thesis
  proof (cases p')
    case None
    then show ?thesis using up wait_done [of c m p'] PWaiting by blast
  next
    case (Some e)
    then show ?thesis using wait_ctx [of m "fst e" "snd e" c] PWaiting by auto
  qed
qed (use assms(2) in blast)

definition waiting_machine :: "unit machine" where
  "waiting_machine = snd (Wait Running (new_machine ''h''))"

lemma waiting_reached: "sys_step\<^sup>*\<^sup>* (run_acts [] (new_machine ''h''), None, PState) (waiting_machine, None, PWaiting 0)"
proof -
  have "Wait Running (new_machine ''h'') = (0, waiting_machine)"
    by (simp add: waiting_machine_def Wait_def new_machine_def Let_def less_eq_State_def)
  then have "call_step (new_machine ''h'', None, PState) (waiting_machine, None, PWaiting 0)"
    by (intro read_other) (simp_all add: new_machine_def)
  then show ?thesis by (auto intro: own)
qed

theorem Call_progress_witness:
  "(\<exists>s. call_step (waiting_machine, None, PWaiting 0) s) \<or> state waiting_machine < Running \<or> 0 \<in> set (pending waiting_machine)"
  using Call_progress [OF waiting_reached] by simp

text \<open>Nothing ends the wait of a call under a context that is never done, but the machine coming up or stopping: as long as the machine
  stays below \<open>Running\<close> the call does not return.\<close>

lemma waiting_stays:
  assumes "(\<lambda>s s'. sys_step s s' \<and> state (fst s') < Running \<and> fst (snd s') = None)\<^sup>*\<^sup>* s s'"
    and "call_inv s" "state (fst s) < Running" "fst (snd s) = None" "snd (snd s) = PState"
  shows "call_inv s' \<and> state (fst s') < Running \<and> fst (snd s') = None \<and>
    (snd (snd s') = PState \<or> (\<exists>c. snd (snd s') = PWaiting c \<and> (c, Running) \<in> set (waiters (fst s'))))"
  using assms(1)
proof (induction rule: rtranclp_induct)
  case (step s1 s2)
  have inv: "call_inv s2" using step call_inv_sys by blast
  have "snd (snd s2) = PState \<or> (\<exists>c. snd (snd s2) = PWaiting c \<and> (c, Running) \<in> set (waiters (fst s2)))"
    using step.hyps(2) [THEN conjunct1] step.IH step.hyps(2) [THEN conjunct2]
  proof (induction rule: sys_step.induct)
    case (own s s')
    from own(1) own(2,3) show ?case
    proof (cases rule: call_step.cases)
      case (wait_done c m p)
      then have "machine_inv m" "(c, Running) \<in> set (waiters m)" using own(2) by (auto simp: call_inv_def contexts_inv_def)
      then show ?thesis using waiter_not_signalled [of m c Running] wait_done by (simp add: signalled_def)
    next
      case (read_other m c m' p)
      then show ?thesis using Wait_cases [OF read_other(5)] own(2) by (auto simp: not_le [symmetric] split: if_splits)
    qed (auto simp: less_State_def)
  next
    case (other pc a m p)
    then show ?case using waiter_run_act [of _ Running m a] run_act_state [of a m] by (auto split: if_splits act.splits simp: not_le [symmetric])
  qed auto
  then show ?case using inv step.hyps(2) by blast
qed (use assms(2-5) in simp)

theorem Call_needs_running:
  assumes "(\<lambda>s s'. sys_step s s' \<and> state (fst s') < Running \<and> fst (snd s') = None)\<^sup>*\<^sup>* (run_acts as (new_machine addr :: 'i machine), None, PState) (m, p, pc)"
    and "state (run_acts as (new_machine addr :: 'i machine)) < Running"
  shows "pc \<noteq> PDone e"
  using waiting_stays [OF assms(1) call_inv_start] assms(2) by auto

text \<open>The configurations of a call on a stopped machine whose outcome is settled.\<close>

definition doomed :: "'i machine \<Rightarrow> 'i ccfg \<Rightarrow> bool" where
  "doomed m0 s \<longleftrightarrow> (case s of (m, p, pc) \<Rightarrow>
     p = None \<and> state m = Stopped \<and> Addr m = Addr m0 \<and> merr m = merr m0 \<and>
     (case pc of
        PState \<Rightarrow> True
      | PWaiting c \<Rightarrow> True
      | PCheck c e \<Rightarrow> e = Some Canceled \<and> c \<in> set (canceled m)
      | PCheckState c e \<Rightarrow> True
      | PStopped oc \<Rightarrow> True
      | PDone e \<Rightarrow> e = Some (stopped_error (Addr m0) (merr m0))
      | _ \<Rightarrow> False))"

lemma doomed_step: "call_step s s' \<Longrightarrow> doomed m0 s \<Longrightarrow> doomed m0 s'"
  by (induction rule: call_step.induct)
     (auto simp: doomed_def ctx_err_def release_def split: option.splits)

lemma doomed_reach: "call_step\<^sup>*\<^sup>* s s' \<Longrightarrow> doomed m0 s \<Longrightarrow> doomed m0 s'"
  by (induction rule: rtranclp_induct) (auto intro: doomed_step)

text \<open>C14. A call fails fast on a stopped machine, with an error that is fatal and names the machine and its error:
  however the call got there, once the machine is stopped a call that is about to read its state, is
  waiting for it, or has had its RPC canceled, can only return that error.\<close>

theorem Call_stopped_machine:
  assumes "sys_step\<^sup>*\<^sup>* (run_acts as (new_machine addr :: 'i machine), p, PState) (m, None, pc)"
    and "state m = Stopped" and "pc = PState \<or> (\<exists>c. pc = PWaiting c) \<or> (\<exists>c. pc = PCheck c (Some Canceled))"
    and "call_step\<^sup>*\<^sup>* (m, None, pc) (m', p', PDone e)"
  shows "e = Some (stopped_error (Addr m) (merr m))"
proof -
  have inv: "call_inv (m, None, pc)" using call_inv_reach [OF assms(1) call_inv_start] .
  have "doomed m (m, None, pc)"
    using assms(2,3) call_inv_canceled [OF inv assms(2)] by (auto simp: doomed_def)
  from doomed_reach [OF assms(4) this] show ?thesis by (simp add: doomed_def)
qed

definition stopped_machine :: "unit machine" where
  "stopped_machine = run_acts [ASetErr EOF, ASetState Stopped] (new_machine ''h'')"

theorem Call_stopped_machine_witness:
  "call_step\<^sup>*\<^sup>* (stopped_machine, None, PState)
     (stopped_machine, None, PDone (Some (stopped_error ''h'' (Some EOF)))) \<and> state stopped_machine = Stopped"
proof -
  have m: "state stopped_machine = Stopped" "Addr stopped_machine = ''h''" "merr stopped_machine = Some EOF"
    by (simp_all add: stopped_machine_def new_machine_def Let_def setState_locked_def)
  have "call_step\<^sup>*\<^sup>* (stopped_machine, None, PState)
     (stopped_machine, None, PDone (Some (stopped_error (Addr stopped_machine) (merr stopped_machine))))"
    using read_stopped [OF m(1), of None] report [of stopped_machine None None]
    by (auto intro: rtranclp.rtrancl_into_rtrancl)
  moreover have "sys_step\<^sup>*\<^sup>* (stopped_machine, None, PState) (stopped_machine, None, PState)" by simp
  ultimately show ?thesis
    using Call_stopped_machine [of "[ASetErr EOF, ASetState Stopped]" "''h''" None stopped_machine PState stopped_machine None]
    by (simp add: m stopped_machine_def [symmetric])
qed

subsection \<open>Properties of RetryCall\<close>

text \<open>What \<open>RetryCall\<close> returns is the outcome of its last call, a success or an error that is not
  temporary, or else, when the wait for the next attempt failed, a fatal error that wraps that failure.\<close>

theorem RetryCall_result:
  assumes "RetryCall L mcall wait w = Some ((e, r), w')"
  shows "(\<exists>w0. mcall w0 = ((e, r), w') \<and> (\<forall>x. e = Some x \<longrightarrow> \<not> is_temporary L x)) \<or>
    (\<exists>k w0 y. wait k w0 = (Some y, w') \<and> e = Some (ErrE [Severity Fatal, Err y]))"
  using rt.result_cases [OF assms [unfolded RetryCall_def]]
proof (elim disjE exE conjE)
  fix k w0 a
  assume a: "mcall w0 = (a, w')"
    and f: "(case fst a of None \<Rightarrow> Some a | Some e \<Rightarrow> if \<not> is_temporary L e then Some a else None) = Some (e, r)"
  then have "a = (e, r) \<and> (\<forall>x. e = Some x \<longrightarrow> \<not> is_temporary L x)"
    by (cases a) (auto split: option.splits if_splits)
  then show ?thesis using a by blast
next
  fix k w0 x
  assume "wait k w0 = (Some x, w')" and "(e, r) = (Some (ErrE [Severity Fatal, Err x]), NoReply)"
  then show ?thesis by blast
qed

text \<open>A world that is a clock with a script of replies: a call takes a second.\<close>

definition demo_mcall :: "int \<Rightarrow> (err option \<times> rreply) \<times> int" where
  "demo_mcall t = ((if t < 5 then Some (ErrE [Severity Temporary]) else None, NoReply), t + 1)"

definition demo_wait :: "int \<Rightarrow> nat \<Rightarrow> int \<Rightarrow> err option \<times> int" where
  "demo_wait deadline n t = (if t + 2 \<le> deadline then (None, t + 2) else (Some DeadlineExceeded, t))"

theorem RetryCall_result_witness:
  "RetryCall arg_errlib demo_mcall (demo_wait 100) 0 = Some ((None, NoReply), 7) \<and>
   ((\<exists>w0. demo_mcall w0 = ((None, NoReply), 7) \<and> (\<forall>x. (None :: err option) = Some x \<longrightarrow> \<not> is_temporary arg_errlib x)) \<or>
    (\<exists>k w0 y. demo_wait 100 k w0 = (Some y, 7) \<and> (None :: err option) = Some (ErrE [Severity Fatal, Err y])))"
proof -
  have "RetryCall arg_errlib demo_mcall (demo_wait 100) 0 = Some ((None, NoReply), 7)"
    unfolding RetryCall_def
    by (subst rt.unfold, simp add: demo_mcall_def demo_wait_def arg_errlib_def)+
  then show ?thesis using RetryCall_result [of arg_errlib demo_mcall "demo_wait 100" 0 None NoReply 7] by blast
qed

text \<open>\<open>RetryCall\<close> under a deadline returns: if an attempt takes at most \<open>c\<close>, a wait that succeeds takes time and
  ends by the deadline and one that fails returns by it, then \<open>RetryCall\<close> returns, by \<open>deadline + c\<close>.\<close>

theorem RetryCall_returns:
  fixes clock :: "'w \<Rightarrow> time"
  assumes "0 < d" "0 \<le> c"
    and "\<And>w. clock w \<le> clock (snd (mcall w)) \<and> clock (snd (mcall w)) \<le> clock w + c"
    and "\<And>n w w'. wait n w = (None, w') \<Longrightarrow> clock w + d \<le> clock w' \<and> clock w' \<le> deadline"
    and "\<And>n w e w'. wait n w = (Some e, w') \<Longrightarrow> clock w' \<le> max deadline (clock w)"
    and "clock w \<le> deadline"
  shows "\<exists>r w'. RetryCall L mcall wait w = Some (r, w') \<and> clock w' \<le> deadline + c"
  unfolding RetryCall_def using assms by (intro rt.returns_by) auto

theorem RetryCall_returns_witness:
  "\<exists>r w'. RetryCall arg_errlib demo_mcall (demo_wait 100) 0 = Some (r, w') \<and> w' \<le> 100 + 1"
  by (rule RetryCall_returns [of 2 1 "\<lambda>t. t" demo_mcall "demo_wait 100" 100 0 arg_errlib])
     (auto simp: demo_mcall_def demo_wait_def split: if_splits)

end
