(* ===== verification/Rpc_Server.thy ===== *)
theory Rpc_Server
  imports Go_Strings
begin

text \<open>
  The RPC server (\<open>rpc/server.go\<close>): which methods of a value are served (\<open>service.Init\<close>),
  registration (\<open>Server.Register\<close>) and dispatch (\<open>Server.ServeHTTP\<close>).
  Go types are \<open>gotype\<close>s as far as the code inspects them by reflection (\<open>TMap\<close> and \<open>TSlice\<close> are
  the types of that kind, named or not). \<open>'v\<close> is the type of
  gob-encodable values and \<open>'w\<close> the state the service methods act on; a method body is a function
  of its argument, of the value its reply pointer points to at the call, and of that state. The
  package \<open>encoding/gob\<close> is the parameter \<open>gob\<close>. The response writer is a record that keeps the
  first status written, as \<open>net/http\<close> does; writes to the connection succeed.
\<close>

subsection \<open>Types and methods\<close>

datatype gotype = TContext | TError | TReader | TReadCloser | TNamed string
  | TPtr gotype | TMap gotype gotype | TSlice gotype

fun is_ptr :: "gotype \<Rightarrow> bool" where
  "is_ptr (TPtr t) = True"
| "is_ptr _ = False"

fun Elem :: "gotype \<Rightarrow> gotype" where
  "Elem (TPtr t) = t"
| "Elem t = t"

text \<open>A stream a method hands back: its bytes, the error reading it ends with (None: end of file),
  and whether it was wrapped by \<open>rpc.Flush\<close>.\<close>

record rstream =
  content :: bytes
  read_err :: "err option"
  needFlush :: bool

datatype 'v argv = ArgVal 'v | ArgReader bytes

datatype initv = INilReadCloser | IZero gotype | IMakeMap gotype | IMakeSlice gotype

datatype 'v replyv = ReplyVal 'v | ReplyStream "rstream option"

text \<open>How a call ends: a return or a panic, each with the value behind the reply pointer by then.\<close>

datatype 'v mresult = MReturn "err option" "'v replyv" | MPanic string "'v replyv"

record ('v, 'w) rmethod =
  Name :: string
  PkgPath :: string
  In :: "gotype list"      \<comment> \<open>receiver first\<close>
  Out :: "gotype list"
  Func :: "'v argv \<Rightarrow> initv \<Rightarrow> 'w \<Rightarrow> 'v mresult \<times> 'w"

definition m_arg :: "('v, 'w) rmethod \<Rightarrow> gotype" where "m_arg m = In m ! 2"
definition m_reply :: "('v, 'w) rmethod \<Rightarrow> gotype" where "m_reply m = In m ! 3"

text \<open>\<open>service.Init\<close>: the loop over the method set, with its conditions in the source's order.\<close>

definition eligible :: "('v, 'w) rmethod \<Rightarrow> bool" where
  "eligible m \<longleftrightarrow> PkgPath m = '''' \<and> length (In m) = 4 \<and> In m ! 1 = TContext \<and>
     is_ptr (In m ! 3) \<and> length (Out m) = 1 \<and> Out m ! 0 = TError"

type_synonym ('v, 'w) service = "string \<rightharpoonup> ('v, 'w) rmethod"

fun service_Init :: "('v, 'w) rmethod list \<Rightarrow> ('v, 'w) service \<Rightarrow> ('v, 'w) service" where
  "service_Init [] methods = methods"
| "service_Init (m # ms) methods =
     (if eligible m then service_Init ms (methods(Name m \<mapsto> m)) else service_Init ms methods)"

subsection \<open>The server\<close>

type_synonym ('v, 'w) server = "string \<rightharpoonup> ('v, 'w) service"

definition NewServer :: "('v, 'w) server" where "NewServer = Map.empty"

definition Register :: "string \<Rightarrow> ('v, 'w) rmethod list \<Rightarrow> ('v, 'w) server \<Rightarrow> err option \<times> ('v, 'w) server" where
  "Register serviceName iface s =
     (if s serviceName \<noteq> None then (None, s)
      else (None, s(serviceName \<mapsto> service_Init iface Map.empty)))"

subsection \<open>HTTP\<close>

record request =
  Method :: string
  URLPath :: string
  ReqBody :: bytes

record respw =
  ContentType :: string
  Code :: "int option"
  RespBody :: bytes
  Trailer :: "string option"
  Flushed :: bool

definition new_respw :: respw where
  "new_respw = \<lparr>ContentType = '''', Code = None, RespBody = [], Trailer = None, Flushed = False\<rparr>"

definition WriteHeader :: "int \<Rightarrow> respw \<Rightarrow> respw" where
  "WriteHeader c w = (if Code w = None then w\<lparr>Code := Some c\<rparr> else w)"

definition Write :: "bytes \<Rightarrow> respw \<Rightarrow> respw" where
  "Write p w = (let w = WriteHeader 200 w in w\<lparr>RespBody := RespBody w @ p\<rparr>)"

definition http_Error :: "string \<Rightarrow> int \<Rightarrow> respw \<Rightarrow> respw" where
  "http_Error msg c w =
     Write (msg @ [CHR 0x0A]) (WriteHeader c (w\<lparr>ContentType := ''text/plain; charset=utf-8''\<rparr>))"

definition methodErrorCode :: int where "methodErrorCode = 590"

definition gobContentType :: string where "gobContentType = ''application/x-gob''"

record 'v gob =
  gob_enc :: "'v \<Rightarrow> bytes \<times> err option"   \<comment> \<open>what was written, and the error\<close>
  gob_enc_nil :: "bytes \<times> err option"        \<comment> \<open>of a pointer to a nil \<open>io.ReadCloser\<close>\<close>
  gob_dec :: "gotype \<Rightarrow> bytes \<Rightarrow> err + 'v"
  gob_enc_err :: "err \<Rightarrow> bytes \<times> err option"
  gob_dec_err :: "bytes \<Rightarrow> err + err"

text \<open>What the server reports to its statistics at the end of a dispatched request: the request and
  reply sizes and the error.\<close>

type_synonym rpc_stat = "int \<times> int \<times> err option"

text \<open>The value the reply pointer points to when the method is called.\<close>

definition init_reply :: "gotype \<Rightarrow> initv" where
  "init_reply reply =
     (if Elem reply = TReadCloser then INilReadCloser
      else case Elem reply of
             TMap k v \<Rightarrow> IMakeMap (Elem reply)
           | TSlice t \<Rightarrow> IMakeSlice (Elem reply)
           | _ \<Rightarrow> IZero (Elem reply))"

text \<open>The argument: the body itself for an \<open>io.Reader\<close>, a decoded value otherwise.\<close>

definition read_arg :: "'v gob \<Rightarrow> gotype \<Rightarrow> bytes \<Rightarrow> err + 'v argv" where
  "read_arg g arg body =
     (if arg = TReader then Inr (ArgReader body)
      else case gob_dec g (Elem arg) body of Inl e \<Rightarrow> Inl e | Inr v \<Rightarrow> Inr (ArgVal v))"

text \<open>The invocation under \<open>recover\<close>.\<close>

definition invoke :: "('v, 'w) rmethod \<Rightarrow> 'v argv \<Rightarrow> 'w \<Rightarrow> (err option \<times> 'v replyv) \<times> 'w" where
  "invoke m argv w =
     (case Func m argv (init_reply (m_reply m)) w of
        (MReturn e r, w) \<Rightarrow> ((e, r), w)
      | (MPanic msg r, w) \<Rightarrow>
          ((Some (ErrE [Severity Fatal, Err (Errorf ''panic: %v'' [Str msg])]), r), w))"

text \<open>The reply stream: header, trailer, copy; \<open>errorString\<close> is \<open>err.Error()\<close>.\<close>

definition write_stream :: "(err \<Rightarrow> string) \<Rightarrow> int \<Rightarrow> rstream \<Rightarrow> respw \<Rightarrow> err option \<times> respw" where
  "write_stream errorString code st rw =
     (let rw = WriteHeader code (rw\<lparr>ContentType := ''application/octet-stream''\<rparr>);
          rw = Write (content st) (rw\<lparr>Flushed := needFlush st\<rparr>);
          errStr = (case read_err st of None \<Rightarrow> '''' | Some e \<Rightarrow> errorString e)
      in (read_err st, rw\<lparr>Trailer := Some errStr\<rparr>))"

text \<open>The gob-encoded reply or error.\<close>

definition write_gob :: "(err \<Rightarrow> string) \<Rightarrow> int \<Rightarrow> bytes \<times> err option \<Rightarrow> respw \<Rightarrow> int \<times> err option \<times> respw" where
  "write_gob errorString code encoded rw =
     (let rw = rw\<lparr>ContentType := gobContentType\<rparr>;
          rw = (if code \<noteq> 200 then WriteHeader code rw else rw)
      in case encoded of
           (b, None) \<Rightarrow> (int (length b), None, Write b rw)
         | (b, Some e) \<Rightarrow> (int (length b), Some e, http_Error (errorString e) 500 rw))"

fun stream_of :: "'v replyv \<Rightarrow> rstream option" where
  "stream_of (ReplyStream st) = st"
| "stream_of (ReplyVal v) = None"

definition encode_reply :: "errlib \<Rightarrow> 'v gob \<Rightarrow> err option \<Rightarrow> 'v replyv \<Rightarrow> bytes \<times> err option" where
  "encode_reply L g e r =
     (case e of
        Some x \<Rightarrow> gob_enc_err g (recover_err L x)
      | None \<Rightarrow> (case r of ReplyVal v \<Rightarrow> gob_enc g v | ReplyStream _ \<Rightarrow> gob_enc_nil g))"

definition finish :: "errlib \<Rightarrow> 'v gob \<Rightarrow> (err \<Rightarrow> string) \<Rightarrow> err option \<Rightarrow> 'v replyv \<Rightarrow> respw
    \<Rightarrow> int \<times> err option \<times> respw" where
  "finish L g errorString e r rw =
     (let code = (if e \<noteq> None then methodErrorCode else 200)
      in case stream_of r of
           Some st \<Rightarrow> (case write_stream errorString code st rw of (cerr, rw) \<Rightarrow> (-1, cerr, rw))
         | None \<Rightarrow> write_gob errorString code (encode_reply L g e r) rw)"

definition ServeHTTP :: "errlib \<Rightarrow> 'v gob \<Rightarrow> (err \<Rightarrow> string) \<Rightarrow> ('v, 'w) server \<Rightarrow> request \<Rightarrow> 'w
    \<Rightarrow> respw \<times> rpc_stat option \<times> 'w" where
  "ServeHTTP L g errorString s r w =
     (if Method r \<noteq> ''POST'' then (http_Error ''method not allowed'' 405 new_respw, None, w)
      else case SplitN2 (path_Base (URLPath r)) CHR ''.'' of
        [svcName, mName] \<Rightarrow>
          (case s svcName of
             None \<Rightarrow> (http_Error ''no such service'' 404 new_respw, None, w)
           | Some svc \<Rightarrow>
               (case svc mName of
                  None \<Rightarrow> (http_Error ''no such method'' 404 new_respw, None, w)
                | Some m \<Rightarrow>
                    (let requestBytes = (if m_arg m = TReader then -1 else 0) in
                     case read_arg g (m_arg m) (ReqBody r) of
                       Inl e \<Rightarrow>
                         (http_Error (''error decoding request: '' @ errorString e) 400 new_respw,
                          Some (requestBytes, -1, Some e), w)
                     | Inr argv \<Rightarrow>
                         (case invoke m argv w of ((e, reply), w) \<Rightarrow>
                            (case finish L g errorString e reply new_respw of (replyBytes, e, rw) \<Rightarrow>
                               (rw, Some (requestBytes, replyBytes, e), w))))))
      | _ \<Rightarrow> (http_Error ''bad url'' 400 new_respw, None, w))"

subsection \<open>Facts\<close>

lemma service_Init_lookup:
  assumes "distinct (map Name ms)"
  shows "service_Init ms methods n = Some m \<longleftrightarrow>
    (m \<in> set ms \<and> eligible m \<and> Name m = n) \<or>
    (\<not> (\<exists>m \<in> set ms. eligible m \<and> Name m = n) \<and> methods n = Some m)"
  using assms
proof (induction ms arbitrary: methods)
  case (Cons x ms)
  have nin: "Name m' \<noteq> Name x" if "m' \<in> set ms" for m'
    using Cons.prems imageI [OF that, of Name] by auto
  then show ?case
    using Cons by (cases "eligible x") auto
qed simp

lemma http_Error_new:
  "http_Error msg c new_respw =
     \<lparr>ContentType = ''text/plain; charset=utf-8'', Code = Some c, RespBody = msg @ [CHR 0x0A],
      Trailer = None, Flushed = False\<rparr>"
  by (simp add: http_Error_def Write_def WriteHeader_def new_respw_def Let_def)

lemma write_gob_ok:
  "write_gob es c (b, None) new_respw =
     (int (length b), None,
      \<lparr>ContentType = gobContentType, Code = Some c, RespBody = b, Trailer = None, Flushed = False\<rparr>)"
  by (simp add: write_gob_def Write_def WriteHeader_def new_respw_def Let_def)

lemma write_stream_new:
  "write_stream es c st new_respw =
     (read_err st,
      \<lparr>ContentType = ''application/octet-stream'', Code = Some c, RespBody = content st,
       Trailer = Some (case read_err st of None \<Rightarrow> '''' | Some e \<Rightarrow> es e), Flushed = needFlush st\<rparr>)"
  by (simp add: write_stream_def Write_def WriteHeader_def new_respw_def Let_def)

lemma finish_encoded:
  assumes "stream_of r = None" "encode_reply L g e r = (b, None)"
  shows "finish L g es e r new_respw =
     (int (length b), None,
      \<lparr>ContentType = gobContentType, Code = Some (if e \<noteq> None then methodErrorCode else 200), RespBody = b,
       Trailer = None, Flushed = False\<rparr>)"
  using assms by (simp add: finish_def write_gob_ok)

text \<open>A request for a served method, up to the invocation.\<close>

lemma ServeHTTP_dispatch:
  assumes "Method r = ''POST''" "path_Base (URLPath r) = svcName @ CHR ''.'' # mName"
    and "CHR ''.'' \<notin> set svcName" "s svcName = Some svc" "svc mName = Some m"
    and "read_arg g (m_arg m) (ReqBody r) = Inr argv"
    and "invoke m argv w = ((e, reply), w')"
  shows "ServeHTTP L g es s r w =
    (case finish L g es e reply new_respw of (replyBytes, e', rw) \<Rightarrow>
       (rw, Some (if m_arg m = TReader then -1 else 0, replyBytes, e'), w'))"
  using assms by (simp add: ServeHTTP_def SplitN2_eq Let_def split: prod.split)

subsection \<open>Properties\<close>

lemma eligible_form:
  "eligible m \<longleftrightarrow> PkgPath m = '''' \<and> (\<exists>recv arg reply. In m = [recv, TContext, arg, TPtr reply]) \<and> Out m = [TError]"
proof -
  have four: "length xs = 4 \<and> xs ! 1 = b \<and> is_ptr (xs ! 3) \<longleftrightarrow> (\<exists>a c d. xs = [a, b, c, TPtr d])" for xs b
    by (auto simp: length_Suc_conv numeral_eq_Suc elim!: is_ptr.elims)
  have one: "length ys = 1 \<and> ys ! 0 = y \<longleftrightarrow> ys = [y]" for ys :: "gotype list" and y by (auto simp: length_Suc_conv)
  show ?thesis unfolding eligible_def using four [of "In m" TContext] one [of "Out m" TError] by blast
qed

lemma Register_lookup:
  assumes "distinct (map Name ms)" "s svc = None"
  shows "\<exists>methods. snd (Register svc ms s) svc = Some methods \<and> (\<forall>n m. methods n = Some m \<longleftrightarrow> m \<in> set ms \<and> eligible m \<and> Name m = n)"
  using assms service_Init_lookup [OF assms(1), of Map.empty] by (simp add: Register_def)

text \<open>C24. What a registered value serves. A request for \<open>svc.n\<close>, after a value with distinct method names has been registered under the unused name \<open>svc\<close>,
  runs the value's method \<open>n\<close> exactly if that method is exported and has the documented form \<open>Func(ctx, arg, *reply) error\<close>: then, if the
  argument can be read as a value of the type \<open>arg\<close>, the method is called on it with a fresh reply of the type \<open>reply\<close>, the call is
  counted, and the service is in the state the method leaves. Otherwise the answer is 404, and neither the service nor the statistics notice.\<close>

theorem registered_methods_served:
  assumes "distinct (map Name ms)" "s svc = None"
    and "Method r = ''POST''" "path_Base (URLPath r) = svc @ CHR ''.'' # n" "CHR ''.'' \<notin> set svc"
  shows "(\<forall>m recv arg reply argv.
      m \<in> set ms \<and> Name m = n \<and> PkgPath m = '''' \<and> In m = [recv, TContext, arg, TPtr reply] \<and> Out m = [TError] \<and>
      read_arg g arg (ReqBody r) = Inr argv \<longrightarrow>
      (\<exists>rw stat. ServeHTTP L g es (snd (Register svc ms s)) r w = (rw, Some stat, snd (Func m argv (init_reply (TPtr reply)) w)))) \<and>
    ((\<forall>m \<in> set ms. Name m = n \<longrightarrow> PkgPath m \<noteq> '''' \<or> Out m \<noteq> [TError] \<or> (\<forall>recv arg reply. In m \<noteq> [recv, TContext, arg, TPtr reply])) \<longrightarrow>
      (\<exists>rw. ServeHTTP L g es (snd (Register svc ms s)) r w = (rw, None, w) \<and> Code rw = Some 404))"
proof -
  obtain methods where reg: "snd (Register svc ms s) svc = Some methods"
    and look: "\<And>n m. methods n = Some m \<longleftrightarrow> m \<in> set ms \<and> eligible m \<and> Name m = n"
    using Register_lookup [of ms s svc, OF assms(1,2)] by blast
  note dispatch = ServeHTTP_dispatch [OF assms(3-5), where s = "snd (Register svc ms s)" and svc = methods, OF reg]
  have pos: "\<exists>rw stat. ServeHTTP L g es (snd (Register svc ms s)) r w = (rw, Some stat, snd (Func m argv (init_reply (TPtr reply)) w))"
    if m: "m \<in> set ms" "Name m = n" "PkgPath m = ''''" "In m = [recv, TContext, arg, TPtr reply]" "Out m = [TError]"
      and arg: "read_arg g arg (ReqBody r) = Inr argv" for m recv arg reply argv
  proof -
    have "methods n = Some m" using look eligible_form m by blast
    moreover have "m_arg m = arg" "m_reply m = TPtr reply" using m(4) by (simp_all add: m_arg_def m_reply_def)
    moreover obtain e rep w' where "invoke m argv w = ((e, rep), w')" by (metis surj_pair)
    moreover from this have "w' = snd (Func m argv (init_reply (TPtr reply)) w)"
      using \<open>m_reply m = _\<close> by (auto simp: invoke_def split: prod.splits mresult.splits)
    ultimately show ?thesis using dispatch [of m g argv w e rep w' L es] arg by (simp split: prod.split)
  qed
  have neg: "\<exists>rw. ServeHTTP L g es (snd (Register svc ms s)) r w = (rw, None, w) \<and> Code rw = Some 404"
    if "\<forall>m \<in> set ms. Name m = n \<longrightarrow> PkgPath m \<noteq> '''' \<or> Out m \<noteq> [TError] \<or> (\<forall>recv arg reply. In m \<noteq> [recv, TContext, arg, TPtr reply])"
  proof -
    have "methods n = None"
    proof (rule ccontr)
      assume "methods n \<noteq> None"
      then obtain m where "methods n = Some m" by blast
      then have "m \<in> set ms" "Name m = n" "eligible m" using look by simp_all
      then show False using that by (auto simp: eligible_form)
    qed
    then show ?thesis using assms(3-5) reg by (simp add: ServeHTTP_def SplitN2_eq http_Error_new)
  qed
  show ?thesis by (intro conjI allI impI neg; (elim conjE)?) (rule pos, assumption+)
qed

definition demo_method :: "(nat, nat) rmethod" where
  "demo_method = \<lparr>Name = ''Sample'', PkgPath = '''',
     In = [TNamed ''circlePI'', TContext, TNamed ''uint64'', TPtr (TNamed ''uint64'')], Out = [TError],
     Func = (\<lambda>a i w. case a of ArgVal n \<Rightarrow> (MReturn None (ReplyVal (n div 2)), Suc w)
                             | ArgReader _ \<Rightarrow> (MPanic ''bad'' (ReplyVal 0), w))\<rparr>"

definition demo_gob :: "nat gob" where
  "demo_gob = \<lparr>gob_enc = (\<lambda>n. (replicate n CHR ''x'', None)), gob_enc_nil = ('''', None),
     gob_dec = (\<lambda>t b. Inr (length b)),
     gob_enc_err = (\<lambda>e. case e of Opaque s \<Rightarrow> (s, None) | _ \<Rightarrow> ('''', Some e)),
     gob_dec_err = (\<lambda>b. Inr (Opaque b))\<rparr>"

definition demo_request :: "bytes \<Rightarrow> request" where
  "demo_request b = \<lparr>Method = ''POST'', URLPath = ''/bigrpc/PI.Sample'', ReqBody = b\<rparr>"

lemma demo_request_path: "path_Base (URLPath (demo_request b)) = ''PI'' @ CHR ''.'' # ''Sample''"
  by (simp add: demo_request_def path_Base_def TrimRight_def)

theorem registered_methods_served_witness:
  "(\<exists>rw stat. ServeHTTP arg_errlib demo_gob (\<lambda>e. ''err'') (snd (Register ''PI'' [demo_method] NewServer)) (demo_request ''xxxx'') 7 = (rw, Some stat, 8)) \<and>
   (\<exists>rw. ServeHTTP arg_errlib demo_gob (\<lambda>e. ''err'') (snd (Register ''PI'' [demo_method\<lparr>PkgPath := ''p''\<rparr>] NewServer)) (demo_request ''xxxx'') 7 = (rw, None, 7) \<and>
      Code rw = Some 404)"
proof -
  have r: "Method (demo_request ''xxxx'') = ''POST''" by (simp add: demo_request_def)
  have f: "demo_method \<in> set [demo_method] \<and> Name demo_method = ''Sample'' \<and> PkgPath demo_method = '''' \<and>
      In demo_method = [TNamed ''circlePI'', TContext, TNamed ''uint64'', TPtr (TNamed ''uint64'')] \<and> Out demo_method = [TError] \<and>
      read_arg demo_gob (TNamed ''uint64'') (ReqBody (demo_request ''xxxx'')) = Inr (ArgVal 4)"
    by (simp add: demo_method_def read_arg_def demo_gob_def demo_request_def)
  have "snd (Func demo_method (ArgVal 4) (init_reply (TPtr (TNamed ''uint64''))) 7) = 8" by (simp add: demo_method_def)
  with f registered_methods_served [of "[demo_method]" NewServer "''PI''", OF _ _ r demo_request_path, THEN conjunct1]
    registered_methods_served [of "[demo_method\<lparr>PkgPath := ''p''\<rparr>]" NewServer "''PI''", OF _ _ r demo_request_path, THEN conjunct2]
  show ?thesis by (simp add: NewServer_def) metis
qed

text \<open>Registration is first-come: registering a name again, with any value, changes nothing, and
  registering a new name leaves every other service alone.\<close>

theorem Register_first_wins:
  "let s' = snd (Register name iface s)
   in Register name iface' s' = (None, s') \<and>
      s' name = (case s name of None \<Rightarrow> Some (service_Init iface Map.empty) | Some svc \<Rightarrow> Some svc) \<and>
      s' |` (- {name}) = s |` (- {name})"
  by (auto simp: Register_def Let_def restrict_map_def fun_eq_iff)

text \<open>C28. A malformed request is answered with the status the package documents and does not touch the
  services: 405 for a method other than POST, 400 for a URL with no \<open>Service.Method\<close>, 404 for an
  unknown service or method; none of them is counted in the statistics.\<close>

theorem ServeHTTP_rejects:
  assumes "Method r \<noteq> ''POST'' \<or> CHR ''.'' \<notin> set (path_Base (URLPath r)) \<or>
     (\<exists>svcName mName. path_Base (URLPath r) = svcName @ CHR ''.'' # mName \<and> CHR ''.'' \<notin> set svcName \<and>
        (case s svcName of None \<Rightarrow> True | Some svc \<Rightarrow> svc mName = None))"
  shows "\<exists>rw. ServeHTTP L g es s r w = (rw, None, w) \<and>
    Code rw = Some (if Method r \<noteq> ''POST'' then 405
                    else if CHR ''.'' \<notin> set (path_Base (URLPath r)) then 400 else 404)"
proof (cases "Method r = ''POST'' \<and> CHR ''.'' \<in> set (path_Base (URLPath r))")
  case True
  then obtain svcName mName where "path_Base (URLPath r) = svcName @ CHR ''.'' # mName"
    "CHR ''.'' \<notin> set svcName" "case s svcName of None \<Rightarrow> True | Some svc \<Rightarrow> svc mName = None"
    using assms by auto
  then show ?thesis using True
    by (auto simp: ServeHTTP_def SplitN2_eq http_Error_new split: option.splits)
next
  case False
  then show ?thesis
    by (auto simp: ServeHTTP_def SplitN2_absent http_Error_new)
qed

theorem ServeHTTP_rejects_witness:
  "\<exists>rw. ServeHTTP arg_errlib demo_gob (\<lambda>e. ''err'') (NewServer :: (nat, nat) server) (demo_request [])
      7 = (rw, None, 7) \<and> Code rw = Some 404"
proof -
  have "\<exists>svcName mName. path_Base (URLPath (demo_request [])) = svcName @ CHR ''.'' # mName \<and>
     CHR ''.'' \<notin> set svcName \<and>
     (case (NewServer :: (nat, nat) server) svcName of None \<Rightarrow> True | Some svc \<Rightarrow> svc mName = None)"
    by (rule exI [of _ "''PI''"], rule exI [of _ "''Sample''"]) (simp add: demo_request_path NewServer_def)
  from ServeHTTP_rejects [OF disjI2 [OF disjI2 [OF this]], of arg_errlib demo_gob "\<lambda>e. ''err''" 7]
  show ?thesis unfolding demo_request_path by (simp add: demo_request_def)
qed

text \<open>The statistics of the server miss what they are meant to count. The request size is read
  before the decoder has read anything, so it is never positive and \<open>requestbytes\<close> is never recorded;
  and the error reported is that of writing the reply, so a method that fails is not counted as an error
  when its error is delivered to the client.\<close>

theorem server_stats_undercount:
  assumes "Method r = ''POST''" "path_Base (URLPath r) = svcName @ CHR ''.'' # mName"
    and "CHR ''.'' \<notin> set svcName" "s svcName = Some svc" "svc mName = Some m"
    and "read_arg g (m_arg m) (ReqBody r) = Inr argv"
    and "invoke m argv w = ((Some e, reply), w')" "stream_of reply = None"
    and "gob_enc_err g (recover_err L e) = (b, None)"
  shows "\<exists>rw rb. ServeHTTP L g es s r w = (rw, Some (rb, int (length b), None), w') \<and> rb \<le> 0 \<and>
    Code rw = Some methodErrorCode \<and> RespBody rw = b"
  using ServeHTTP_dispatch [of r svcName mName s svc m g argv w "Some e" reply w' L es, OF assms(1-7)]
    assms(8,9)
  by (simp add: finish_def encode_reply_def write_gob_ok Let_def)

definition failing_method :: "(nat, nat) rmethod" where
  "failing_method = demo_method\<lparr>Func := (\<lambda>a i w. (MReturn (Some (Opaque ''no'')) (ReplyVal 0), Suc w))\<rparr>"

theorem server_stats_undercount_witness:
  "\<exists>rw rb. ServeHTTP arg_errlib demo_gob (\<lambda>e. ''err'')
       (NewServer(''PI'' \<mapsto> service_Init [failing_method] Map.empty)) (demo_request ''xxx'') 7 =
     (rw, Some (rb, int (length ''no''), None), 8) \<and> rb \<le> 0 \<and> Code rw = Some methodErrorCode \<and> RespBody rw = ''no''"
  by (rule server_stats_undercount [OF _ demo_request_path, where argv = "ArgVal 3" and e = "Opaque ''no''"
        and reply = "ReplyVal 0" and m = failing_method
        and svc = "service_Init [failing_method] Map.empty"])
     (simp_all add: demo_request_def demo_gob_def failing_method_def demo_method_def m_arg_def read_arg_def
        invoke_def arg_errlib_def eligible_def)

end
