(* ===== verification/Rpc_Client.thy ===== *)
theory Rpc_Client
  imports Complex_Main Rpc_Server
begin

text \<open>
  The RPC client (\<open>rpc/client.go\<close>) with the readers it wraps replies in (\<open>rpc/sizereader.go\<close>,
  \<open>rpc/fault_injector.go\<close>). First the table of per-address HTTP clients and the concurrent calls
  on it, then \<open>Client.Call\<close> with every branch of its reply handling, then the composition of
  \<open>Call\<close> with \<open>ServeHTTP\<close>. The HTTP transport (\<open>ctxhttp.Post\<close>) is the parameter \<open>post\<close>.
\<close>

subsection \<open>The table of clients\<close>

text \<open>A \<open>clientState\<close> is known by the order of its creation; the \<open>http.Client\<close> it caches, made at
  most once, goes by the same number.\<close>

record clientState =
  cs_id :: nat
  cs_addr :: string

record rclient =
  prefix :: string
  clients :: "string \<rightharpoonup> clientState"
  next_cs :: nat
  cached :: "nat list"          \<comment> \<open>client states whose \<open>once\<close> has run\<close>
  idle_closed :: "nat list"     \<comment> \<open>calls of \<open>CloseIdleConnections\<close>, latest first\<close>

definition NewClient :: "string \<Rightarrow> rclient" where
  "NewClient p = \<lparr>prefix = p, clients = Map.empty, next_cs = 0, cached = [], idle_closed = []\<rparr>"

definition Client :: "clientState \<Rightarrow> rclient \<Rightarrow> nat \<times> rclient" where
  "Client h c = (cs_id h, if cs_id h \<in> set (cached c) then c else c\<lparr>cached := cs_id h # cached c\<rparr>)"

definition getClient :: "string \<Rightarrow> rclient \<Rightarrow> clientState \<times> rclient" where
  "getClient addr c =
     (case clients c addr of
        Some h \<Rightarrow> (h, c)
      | None \<Rightarrow>
          (let h = \<lparr>cs_id = next_cs c, cs_addr = addr\<rparr>
           in (h, c\<lparr>clients := (clients c)(addr \<mapsto> h), next_cs := next_cs c + 1\<rparr>)))"

definition updateClientState :: "clientState \<Rightarrow> err option \<Rightarrow> rclient \<Rightarrow> rclient" where
  "updateClientState h e c =
     (let c = (if e \<noteq> None \<and> clients c (cs_addr h) = Some h
               then c\<lparr>clients := (clients c)(cs_addr h := None)\<rparr> else c)
      in if clients c (cs_addr h) \<noteq> Some h then c\<lparr>idle_closed := cs_id h # idle_closed c\<rparr> else c)"

text \<open>Concurrent calls on one client, by the order of their critical sections: call \<open>i\<close> obtains its
  client state and its HTTP client, and later ends with an error or without.\<close>

datatype cact = Begin nat string | Finish nat "err option"

type_synonym cstate = "rclient \<times> (nat \<rightharpoonup> clientState)"

fun run_cact :: "cact \<Rightarrow> cstate \<Rightarrow> cstate" where
  "run_cact (Begin i addr) (c, calls) =
     (case getClient addr c of (h, c) \<Rightarrow> (snd (Client h c), calls(i \<mapsto> h)))"
| "run_cact (Finish i e) (c, calls) =
     (case calls i of
        None \<Rightarrow> (c, calls)
      | Some h \<Rightarrow> (updateClientState h e c, calls(i := None)))"

definition run_cacts :: "cact list \<Rightarrow> cstate \<Rightarrow> cstate" where
  "run_cacts as s = fold run_cact as s"

subsection \<open>Readers\<close>

text \<open>A reader by the successive results of its \<open>Read\<close>; reading on past the last is end of file.\<close>

type_synonym reader = "(bytes \<times> err option) list"

fun read_next :: "reader \<Rightarrow> (bytes \<times> err option) \<times> reader" where
  "read_next [] = (([], Some EOF), [])"
| "read_next (r # rs) = (r, rs)"

fun ReadAll :: "reader \<Rightarrow> bytes \<times> err option" where
  "ReadAll [] = ([], None)"
| "ReadAll ((b, None) # rs) = (case ReadAll rs of (b', e) \<Rightarrow> (b @ b', e))"
| "ReadAll ((b, Some e) # rs) = (b, if e = EOF then None else Some e)"

definition sizeTrackingReader_Read :: "nat \<times> reader \<Rightarrow> (bytes \<times> err option) \<times> (nat \<times> reader)" where
  "sizeTrackingReader_Read s =
     (case s of (n, r) \<Rightarrow> case read_next r of ((b, e), r) \<Rightarrow> ((b, e), (n + length b, r)))"

record resp =
  StatusCode :: int
  Status :: string
  Body :: reader
  RTrailer :: string     \<comment> \<open>the error trailer, empty if not set\<close>

definition streamReader_Read :: "resp \<Rightarrow> (bytes \<times> err option) \<times> resp" where
  "streamReader_Read r =
     (case read_next (Body r) of ((b, e), body) \<Rightarrow>
        ((b, if e \<noteq> Some EOF then e else if RTrailer r \<noteq> '''' then Some (Opaque (RTrailer r)) else e),
         r\<lparr>Body := body\<rparr>))"

text \<open>The fault injector; \<open>x\<close> and \<open>y\<close> are the random numbers it draws.\<close>

record injector =
  inj_label :: string
  inj_in :: "reader option"
  inj_err :: "err option"

definition injector_Read :: "rat \<Rightarrow> rat \<Rightarrow> injector \<Rightarrow> (bytes \<times> err option) \<times> injector" where
  "injector_Read x y r =
     (case inj_in r of
        None \<Rightarrow> (([], inj_err r), r)
      | Some rd \<Rightarrow>
          if x < 5 / 1000 then
            (let e = ErrE [Kind Net, Severity Retriable, Str (inj_label r @ '': test-induced message drop'')]
             in (([], Some e), r\<lparr>inj_in := None, inj_err := Some e\<rparr>))
          else case read_next rd of ((b, e), rd) \<Rightarrow>
            if x < 1 / 100 then
              (let nn = nat \<lfloor>of_nat (length b) * y\<rfloor>;
                   e = ErrE [Kind Net, Severity Retriable,
                             Str (inj_label r @ '': test-induced message truncation'')]
               in ((take nn b, Some e), r\<lparr>inj_in := None, inj_err := Some e\<rparr>))
            else ((b, e), r\<lparr>inj_in := Some rd\<rparr>))"

subsection \<open>The table under concurrent calls\<close>

definition table_inv :: "cstate \<Rightarrow> bool" where
  "table_inv s \<longleftrightarrow> (case s of (c, calls) \<Rightarrow>
     (\<forall>addr h. clients c addr = Some h \<longrightarrow> cs_addr h = addr \<and> cs_id h < next_cs c \<and> cs_id h \<notin> set (idle_closed c)) \<and>
     (\<forall>h \<in> ran (clients c) \<union> ran calls. cs_id h < next_cs c) \<and>
     inj_on cs_id (ran (clients c) \<union> ran calls) \<and>
     (\<forall>n < next_cs c. n \<in> set (idle_closed c) \<or> n \<in> cs_id ` ran (clients c)) \<and>
     set (idle_closed c) \<subseteq> {..<next_cs c} \<and> distinct (cached c) \<and> set (cached c) = {..<next_cs c})"

lemma table_invI:
  assumes "\<And>addr h. clients c addr = Some h \<Longrightarrow>
      cs_addr h = addr \<and> cs_id h < next_cs c \<and> cs_id h \<notin> set (idle_closed c)"
    and "\<And>h. h \<in> ran (clients c) \<union> ran calls \<Longrightarrow> cs_id h < next_cs c"
    and "inj_on cs_id (ran (clients c) \<union> ran calls)"
    and "\<And>n. n < next_cs c \<Longrightarrow> n \<in> set (idle_closed c) \<or> n \<in> cs_id ` ran (clients c)"
    and "set (idle_closed c) \<subseteq> {..<next_cs c}" "distinct (cached c)" "set (cached c) = {..<next_cs c}"
  shows "table_inv (c, calls)"
  unfolding table_inv_def using assms by blast

lemma table_inv_init: "table_inv (NewClient p, Map.empty)"
  by (simp add: table_inv_def NewClient_def)

lemma getClient_cases:
  fixes c :: rclient
  obtains (hit) h where "clients c addr = Some h" "getClient addr c = (h, c)"
  | (miss) "clients c addr = None"
      "getClient addr c = (\<lparr>cs_id = next_cs c, cs_addr = addr\<rparr>,
         c\<lparr>clients := (clients c)(addr \<mapsto> \<lparr>cs_id = next_cs c, cs_addr = addr\<rparr>), next_cs := next_cs c + 1\<rparr>)"
  by (cases "clients c addr") (auto simp: getClient_def Let_def)

lemma ran_restrict: "ran (m(k := None)) \<subseteq> ran m"
  by (auto simp: ran_def)

lemma ran_insert: "ran (m(k \<mapsto> v)) \<subseteq> insert v (ran m)"
  by (auto simp: ran_def)

lemma table_inv_Begin:
  assumes inv: "table_inv (c, calls)"
  shows "table_inv (run_cact (Begin i addr) (c, calls))"
proof (cases rule: getClient_cases [where c = c and addr = addr])
  case (hit h)
  have "cs_id h \<in> set (cached c)" and h: "h \<in> ran (clients c)"
    using inv hit(1) by (auto simp: table_inv_def ran_def)
  then have r: "run_cact (Begin i addr) (c, calls) = (c, calls(i \<mapsto> h))"
    using hit by (simp add: Client_def)
  have "ran (clients c) \<union> ran (calls(i \<mapsto> h)) \<subseteq> ran (clients c) \<union> ran calls"
    using h ran_insert [of calls i h] by auto
  then show ?thesis unfolding r
    using inv by (auto simp: table_inv_def intro: inj_on_subset)
next
  case miss
  let ?h = "\<lparr>cs_id = next_cs c, cs_addr = addr\<rparr>"
  have r: "run_cact (Begin i addr) (c, calls) =
      (c\<lparr>clients := (clients c)(addr \<mapsto> ?h), next_cs := next_cs c + 1, cached := next_cs c # cached c\<rparr>,
       calls(i \<mapsto> ?h))"
    using miss inv by (simp add: Client_def table_inv_def)
  have s: "ran ((clients c)(addr \<mapsto> ?h)) \<union> ran (calls(i \<mapsto> ?h)) \<subseteq> insert ?h (ran (clients c) \<union> ran calls)"
    using ran_insert [of "clients c" addr ?h] ran_insert [of calls i ?h] by blast
  have "inj_on cs_id (insert ?h (ran (clients c) \<union> ran calls))"
    using inv by (force simp: table_inv_def)
  then have "inj_on cs_id (ran ((clients c)(addr \<mapsto> ?h)) \<union> ran (calls(i \<mapsto> ?h)))"
    using s by (rule inj_on_subset)
  moreover have "ran ((clients c)(addr \<mapsto> ?h)) = insert ?h (ran (clients c))"
    using miss(1) by (simp add: ran_map_upd)
  ultimately show ?thesis unfolding r
    using inv s by (auto simp: table_inv_def less_Suc_eq lessThan_Suc)
qed

lemma updateClientState_cases:
  obtains (keep) "clients c (cs_addr h) = Some h" "e = None" "updateClientState h e c = c"
  | (reset) "clients c (cs_addr h) = Some h" "e \<noteq> None"
      "updateClientState h e c =
         c\<lparr>clients := (clients c)(cs_addr h := None), idle_closed := cs_id h # idle_closed c\<rparr>"
  | (defunct) "clients c (cs_addr h) \<noteq> Some h"
      "updateClientState h e c = c\<lparr>idle_closed := cs_id h # idle_closed c\<rparr>"
  by (cases "clients c (cs_addr h) = Some h"; cases "e = None") (auto simp: updateClientState_def Let_def)

lemma table_inv_drop:
  assumes inv: "table_inv (c, calls)" and h: "h \<in> ran calls" and sub: "ran calls' \<subseteq> ran calls"
    and m: "m \<subseteq>\<^sub>m clients c" "h \<notin> ran m" "ran (clients c) \<subseteq> insert h (ran m)"
  shows "table_inv (c\<lparr>clients := m, idle_closed := cs_id h # idle_closed c\<rparr>, calls')"
proof -
  have le: "clients c addr = Some h'" if "m addr = Some h'" for addr h'
    using m(1) that by (auto simp: map_le_def dom_def)
  then have rs: "ran m \<union> ran calls' \<subseteq> ran (clients c) \<union> ran calls"
    using sub by (auto simp: ran_def)
  have bound: "\<forall>x \<in> ran (clients c) \<union> ran calls. cs_id x < next_cs c"
      "set (idle_closed c) \<subseteq> {..<next_cs c}" "distinct (cached c)" "set (cached c) = {..<next_cs c}"
    and inj: "inj_on cs_id (ran (clients c) \<union> ran calls)"
    using inv by (simp_all add: table_inv_def)
  let ?c = "c\<lparr>clients := m, idle_closed := cs_id h # idle_closed c\<rparr>"
  show ?thesis
  proof (rule table_invI)
    fix addr h' assume "clients ?c addr = Some h'"
    then have a: "m addr = Some h'" by simp
    then have "h' \<noteq> h" "h' \<in> ran m" using m(2) by (auto simp: ran_def)
    then have "cs_id h' \<noteq> cs_id h" using inj_onD [OF inj, of h' h] h rs by blast
    moreover have "cs_addr h' = addr \<and> cs_id h' < next_cs c \<and> cs_id h' \<notin> set (idle_closed c)"
      using inv le [OF a] by (simp add: table_inv_def)
    ultimately show "cs_addr h' = addr \<and> cs_id h' < next_cs ?c \<and> cs_id h' \<notin> set (idle_closed ?c)" by simp
  next
    fix n assume "n < next_cs ?c"
    then have "n \<in> set (idle_closed c) \<or> n \<in> cs_id ` ran (clients c)" using inv by (simp add: table_inv_def)
    then show "n \<in> set (idle_closed ?c) \<or> n \<in> cs_id ` ran (clients ?c)" using m(3) by auto
  next
    show "inj_on cs_id (ran (clients ?c) \<union> ran calls')" using inj_on_subset [OF inj rs] by simp
  next
    fix x assume "x \<in> ran (clients ?c) \<union> ran calls'"
    then show "cs_id x < next_cs ?c" using rs bound(1) by auto
  qed (use bound h in simp_all)
qed

lemma table_inv_Finish:
  assumes inv: "table_inv (c, calls)"
  shows "table_inv (run_cact (Finish i e) (c, calls))"
proof (cases "calls i")
  case (Some h)
  have run: "run_cact (Finish i e) (c, calls) = (updateClientState h e c, calls(i := None))" using Some by simp
  have h: "h \<in> ran calls" using Some by (rule ranI)
  have own: "a = cs_addr h" if "clients c a = Some h" for a
    using inv that by (auto simp: table_inv_def)
  note drop = table_inv_drop [OF inv h ran_restrict]
  show ?thesis
  proof (cases rule: updateClientState_cases [where c = c and h = h and e = e])
    case keep
    with inv ran_restrict [of calls i] show ?thesis unfolding run table_inv_def by (auto intro: inj_on_subset)
  next
    case reset
    show ?thesis unfolding run reset(3)
    proof (rule drop)
      show "(clients c)(cs_addr h := None) \<subseteq>\<^sub>m clients c" by (auto simp: map_le_def)
      show "h \<notin> ran ((clients c)(cs_addr h := None))" using own by (auto simp: ran_def split: if_splits)
      show "ran (clients c) \<subseteq> insert h (ran ((clients c)(cs_addr h := None)))"
      proof
        fix x assume "x \<in> ran (clients c)"
        then obtain a where "clients c a = Some x" by (auto simp: ran_def)
        then show "x \<in> insert h (ran ((clients c)(cs_addr h := None)))"
          using reset(1) by (cases "a = cs_addr h") (auto intro: ranI [of _ a])
      qed
    qed
  next
    case defunct
    have "h \<notin> ran (clients c)" using own defunct(1) by (auto simp: ran_def)
    with drop [of "clients c"] show ?thesis unfolding run defunct(2) by auto
  qed
qed (use inv in simp)

lemma table_inv_step: "table_inv s \<Longrightarrow> table_inv (run_cact a s)"
  by (cases s; cases a) (auto simp only: table_inv_Begin table_inv_Finish)

lemma table_inv_run: "table_inv s \<Longrightarrow> table_inv (run_cacts as s)"
  by (induction as arbitrary: s) (auto simp: run_cacts_def table_inv_step)

text \<open>C6. Whatever the interleaving of the calls on a client and of their failures: a client state
  has had its idle connections closed exactly if it has left the table, every client state's HTTP
  client was created once, and the state filed under an address is that address's.\<close>

theorem client_table_reachable:
  "let c = fst (run_cacts as (NewClient p, Map.empty)) in
     (\<forall>n < next_cs c. n \<in> set (idle_closed c) \<longleftrightarrow> n \<notin> cs_id ` ran (clients c)) \<and>
     (\<forall>addr h. clients c addr = Some h \<longrightarrow> cs_addr h = addr \<and> cs_id h < next_cs c) \<and>
     distinct (cached c) \<and> set (cached c) = {..<next_cs c}"
  using table_inv_run [OF table_inv_init, of as p]
  by (auto simp: table_inv_def Let_def ran_def split: prod.splits)

theorem client_table_reachable_witness:
  "let c = fst (run_cacts [Begin 0 ''a'', Begin 1 ''a'', Finish 0 (Some EOF), Begin 2 ''a''] (NewClient ''/'', Map.empty)) in
     next_cs c = 2 \<and> 0 \<in> set (idle_closed c) \<and> clients c ''a'' = Some \<lparr>cs_id = 1, cs_addr = ''a''\<rparr>"
  using client_table_reachable [of "[Begin 0 ''a'', Begin 1 ''a'', Finish 0 (Some EOF), Begin 2 ''a'']" "''/''"]
  by (simp add: run_cacts_def NewClient_def getClient_def Client_def updateClientState_def Let_def)

text \<open>A state that has left the table never returns to it.\<close>

definition gone :: "clientState \<Rightarrow> cstate \<Rightarrow> bool" where
  "gone h s \<longleftrightarrow> cs_id h < next_cs (fst s) \<and> h \<notin> ran (clients (fst s))"

lemma gone_step: "gone h s \<Longrightarrow> gone h (run_cact a s)"
proof (cases a)
  case (Begin i addr)
  assume g: "gone h s"
  obtain c calls where s: "s = (c, calls)" by (cases s)
  show ?thesis unfolding Begin s using g
    by (cases rule: getClient_cases [where c = c and addr = addr])
       (auto simp: gone_def s Client_def ran_map_upd)
next
  case (Finish i e)
  assume g: "gone h s"
  obtain c calls where s: "s = (c, calls)" by (cases s)
  show ?thesis
  proof (cases "calls i")
    case (Some h')
    show ?thesis unfolding Finish s using g Some ran_restrict [of "clients c" "cs_addr h'"]
      by (cases rule: updateClientState_cases [where c = c and h = h' and e = e])
         (auto simp: gone_def s)
  qed (use g in \<open>simp add: Finish s\<close>)
qed

lemma gone_run: "gone h s \<Longrightarrow> gone h (run_cacts as s)"
  by (induction as arbitrary: s) (auto simp: run_cacts_def gone_step)

lemma gone_getClient: "gone h s \<Longrightarrow> fst (getClient addr (fst s)) \<noteq> h"
  by (cases rule: getClient_cases [where c = "fst s" and addr = addr]) (auto simp: gone_def ran_def)

text \<open>C7. A client state on which a call has failed is never handed to a later call, whatever the other
  calls do in between; in particular the late end of an old call cannot undo a reset.\<close>

theorem failed_client_never_reused:
  assumes "s = run_cacts as (NewClient p, Map.empty)" and "snd s i = Some h"
  shows "fst (getClient addr (fst (run_cacts as' (run_cact (Finish i (Some e)) s)))) \<noteq> h"
proof (rule gone_getClient, rule gone_run)
  obtain c calls where s: "s = (c, calls)" by (cases s)
  have inv: "table_inv (c, calls)" using assms(1) table_inv_run [OF table_inv_init] by (simp add: s)
  have h: "h \<in> ran calls" "cs_id h < next_cs c"
    using inv assms(2) by (auto simp: s table_inv_def ran_def)
  have only: "a = cs_addr h" if "clients c a = Some h" for a
    using inv that by (auto simp: table_inv_def)
  have "h \<notin> ran ((clients c)(cs_addr h := None))" using only by (auto simp: ran_def split: if_splits)
  moreover have "h \<notin> ran (clients c)" if "clients c (cs_addr h) \<noteq> Some h"
    using only that by (auto simp: ran_def)
  ultimately have "h \<notin> ran (clients (updateClientState h (Some e) c))"
    by (cases rule: updateClientState_cases [where c = c and h = h and e = "Some e"]) simp_all
  moreover have "next_cs (updateClientState h (Some e) c) = next_cs c"
    by (simp add: updateClientState_def Let_def)
  ultimately show "gone h (run_cact (Finish i (Some e)) s)"
    using assms(2) h(2) by (simp add: gone_def s)
qed

theorem failed_client_never_reused_witness:
  "fst (getClient ''a'' (fst (run_cacts [Begin 2 ''a'', Finish 2 (Some EOF)]
     (run_cact (Finish 0 (Some Canceled))
       (run_cacts [Begin 0 ''a'', Begin 1 ''b''] (NewClient ''/'', Map.empty)))))) \<noteq> \<lparr>cs_id = 0, cs_addr = ''a''\<rparr>"
  by (rule failed_client_never_reused [OF refl])
     (simp add: run_cacts_def NewClient_def getClient_def Client_def Let_def)

subsection \<open>Call\<close>

text \<open>The argument and the reply pointer by the dynamic types \<open>Call\<close> switches on, and what it
  stores through the reply pointer.\<close>

datatype 'v carg = CFunc "unit \<Rightarrow> bytes" | CReader bytes | CVal 'v

datatype creply = RReadCloser | RVal gotype

datatype 'v cout = OStream resp | OVal 'v

text \<open>What a call relies on: the transport, the gob decoder on a response body (with the number of
  bytes it takes off it), and the random draws of the fault injector when \<open>InjectFailures\<close> is set,
  one pair for each read.\<close>

record ('v, 'w) cenv =
  post :: "nat \<Rightarrow> string \<Rightarrow> string \<Rightarrow> bytes \<Rightarrow> 'w \<Rightarrow> (err + resp) \<times> 'w"
  cgob :: "'v gob"
  cdec :: "gotype \<Rightarrow> reader \<Rightarrow> (err + 'v) \<times> nat"
  cdec_err :: "reader \<Rightarrow> err + err"
  errorString :: "err \<Rightarrow> string"
  injectFailures :: "(rat \<times> rat) list option"

fun injected :: "(rat \<times> rat) list \<Rightarrow> injector \<Rightarrow> reader" where
  "injected [] r = []"
| "injected ((x, y) # ds) r = (case injector_Read x y r of (res, r) \<Rightarrow> res # injected ds r)"

definition call_body :: "('v, 'w) cenv \<Rightarrow> 'v carg \<Rightarrow> err + (int \<times> string \<times> bytes)" where
  "call_body E arg =
     (case arg of
        CFunc f \<Rightarrow> Inr (-1, ''application/octet-stream'', f ())
      | CReader b \<Rightarrow> Inr (-1, ''application/octet-stream'', b)
      | CVal v \<Rightarrow>
          (case gob_enc (cgob E) v of
             (b, Some e) \<Rightarrow> Inl (ErrE [Severity Fatal, Kind Invalid, Err e])
           | (b, None) \<Rightarrow> Inr (int (length b), gobContentType, b)))"

definition decodeError :: "('v, 'w) cenv \<Rightarrow> string \<Rightarrow> reader \<Rightarrow> err" where
  "decodeError E serviceMethod body =
     (case cdec_err E body of
        Inl e \<Rightarrow> ErrE [Kind Invalid, Severity Temporary,
                       Str (''error while decoding error for '' @ serviceMethod), Err e]
      | Inr e \<Rightarrow> ErrE [Kind Remote, Err e])"

text \<open>A status other than 200 and \<open>methodErrorCode\<close>.\<close>

definition status_error :: "('v, 'w) cenv \<Rightarrow> string \<Rightarrow> resp \<Rightarrow> err" where
  "status_error E url r =
     (case ReadAll (Body r) of (body, e) \<Rightarrow>
        (let tail = Status r @ '', '' @ body @ '', '' @
               (case e of None \<Rightarrow> ''<nil>'' | Some e \<Rightarrow> errorString E e)
         in if 400 \<le> StatusCode r \<and> StatusCode r < 500
            then ErrE [Severity Fatal, Kind Invalid, Str (url @ '': client error '' @ tail)]
            else ErrE [Severity Fatal, Kind Invalid, Str (url @ '': bad reply status '' @ tail)]))"

text \<open>The reply: the error, what was stored, and the reply size for the statistics.\<close>

definition call_reply :: "('v, 'w) cenv \<Rightarrow> string \<Rightarrow> string \<Rightarrow> creply \<Rightarrow> resp \<Rightarrow> err option \<times> 'v cout option \<times> int" where
  "call_reply E url serviceMethod reply r =
     (case reply of
        RReadCloser \<Rightarrow>
          if StatusCode r = 200 then (None, Some (OStream r), -1)
          else if StatusCode r = methodErrorCode then (Some (decodeError E serviceMethod (Body r)), None, -1)
          else (Some (status_error E url r), None, -1)
      | RVal t \<Rightarrow>
          if StatusCode r = methodErrorCode then (Some (decodeError E serviceMethod (Body r)), None, -1)
          else if StatusCode r = 200 then
            (case cdec E t (Body r) of
               (Inr v, n) \<Rightarrow> (None, Some (OVal v), int n)
             | (Inl e, n) \<Rightarrow>
                 (Some (ErrE [Kind Invalid, Severity Temporary,
                              Str (''error while decoding reply for '' @ serviceMethod), Err e]), None, int n))
          else (Some (status_error E url r), None, -1))"

definition inject_body :: "('v, 'w) cenv \<Rightarrow> string \<Rightarrow> string \<Rightarrow> resp \<Rightarrow> resp" where
  "inject_body E serviceMethod addr r =
     (case injectFailures E of
        None \<Rightarrow> r
      | Some ds \<Rightarrow>
          r\<lparr>Body := injected ds \<lparr>inj_label = serviceMethod @ ''('' @ addr @ '')'', inj_in = Some (Body r), inj_err = None\<rparr>\<rparr>)"

text \<open>The statistics entry is that of \<open>done\<close>: request size, reply size, error.\<close>

definition Call :: "('v, 'w) cenv \<Rightarrow> string \<Rightarrow> string \<Rightarrow> 'v carg \<Rightarrow> creply \<Rightarrow> rclient \<Rightarrow> 'w
    \<Rightarrow> (err option \<times> 'v cout option) \<times> rpc_stat \<times> rclient \<times> 'w" where
  "Call E addr serviceMethod arg reply c w =
     (let url = TrimRight addr (CHR ''/'') @ prefix c @ serviceMethod in
      case call_body E arg of
        Inl e \<Rightarrow> ((Some e, None), (-1, -1, Some e), c, w)
      | Inr (requestBytes, contentType, body) \<Rightarrow>
          (case getClient addr c of (h, c) \<Rightarrow>
           case Client h c of (hc, c) \<Rightarrow>
           case post E hc url contentType body w of (res, w) \<Rightarrow>
           case (case res of
                   Inl e \<Rightarrow>
                     (if e = DeadlineExceeded \<or> e = Canceled then (Some e, None, -1)
                      else (Some (ErrE [Kind Net, Severity Temporary, Err e]), None, -1))
                 | Inr r \<Rightarrow> call_reply E url serviceMethod reply (inject_body E serviceMethod addr r))
           of (e, out, replyBytes) \<Rightarrow>
             ((e, out), (requestBytes, replyBytes, e), updateClientState h e c, w)))"

subsection \<open>Errors of a call\<close>

text \<open>What \<open>errors.Is(errors.Net, _)\<close> says: the context errors are not of that kind, and an error made
  by \<open>errors.E\<close> from arguments with one kind is of that kind.\<close>

definition kinds_ok :: "errlib \<Rightarrow> bool" where
  "kinds_ok L \<longleftrightarrow> \<not> is_net L DeadlineExceeded \<and> \<not> is_net L Canceled \<and>
     (\<forall>args k. (\<forall>k'. Kind k' \<in> set args \<longleftrightarrow> k' = k) \<longrightarrow> (is_net L (ErrE args) \<longleftrightarrow> k = Net))"

lemma kinds_okD:
  "kinds_ok L \<Longrightarrow> (\<And>k'. Kind k' \<in> set args \<longleftrightarrow> k' = k) \<Longrightarrow> is_net L (ErrE args) \<longleftrightarrow> k = Net"
  by (simp add: kinds_ok_def)

lemma kinds_ok_arg_errlib: "kinds_ok arg_errlib"
  by (auto simp: kinds_ok_def arg_errlib_def)

lemma call_body_not_net: "kinds_ok L \<Longrightarrow> call_body E arg = Inl e \<Longrightarrow> \<not> is_net L e"
  by (auto simp: call_body_def kinds_okD [where k = Invalid] split: carg.splits prod.splits option.splits)

lemma decodeError_not_net: "kinds_ok L \<Longrightarrow> \<not> is_net L (decodeError E m b)"
  by (auto simp: decodeError_def kinds_okD [where k = Invalid] kinds_okD [where k = Remote] split: sum.splits)

lemma status_error_not_net: "kinds_ok L \<Longrightarrow> \<not> is_net L (status_error E url r)"
  by (auto simp: status_error_def Let_def kinds_okD [where k = Invalid] split: prod.splits)

lemma call_reply_not_net:
  "kinds_ok L \<Longrightarrow> call_reply E url m reply r = (Some e, out, n) \<Longrightarrow> \<not> is_net L e"
  by (auto simp: call_reply_def decodeError_not_net status_error_not_net kinds_okD [where k = Invalid]
      split: creply.splits if_splits prod.splits sum.splits)

text \<open>C16. An error of kind \<open>Net\<close> comes from the immediate call, never from the application: \<open>Call\<close> returns
  one exactly when the transport failed otherwise than by the caller's context, and then the error wraps
  that failure.\<close>

theorem Call_net_error:
  assumes "kinds_ok L" and "Call E addr m arg reply c w = ((Some e, out), stat, c', w')"
  shows "is_net L e \<longleftrightarrow>
    (\<exists>pe n t b. call_body E arg = Inr (n, t, b) \<and>
       post E (cs_id (fst (getClient addr c))) (TrimRight addr (CHR ''/'') @ prefix c @ m) t b w = (Inl pe, w') \<and>
       pe \<noteq> DeadlineExceeded \<and> pe \<noteq> Canceled \<and> e = ErrE [Kind Net, Severity Temporary, Err pe])"
proof (cases "call_body E arg")
  case (Inl x)
  then show ?thesis using assms call_body_not_net by (fastforce simp: Call_def)
next
  case (Inr x)
  obtain n t b where x: "x = (n, t, b)" by (cases x)
  obtain h c1 where g: "getClient addr c = (h, c1)" by fastforce
  obtain res w1 where p: "post E (cs_id h) (TrimRight addr (CHR ''/'') @ prefix c @ m) t b w = (res, w1)" by fastforce
  show ?thesis
  proof (cases res)
    case (Inl pe)
    then show ?thesis using assms Inr x g p kinds_okD [OF assms(1), of "[Kind Net, Severity Temporary, Err pe]" Net]
      by (auto simp: Call_def Client_def kinds_ok_def split: if_splits)
  next
    case res: (Inr r)
    have "w1 = w'" "\<exists>k. call_reply E (TrimRight addr (CHR ''/'') @ prefix c @ m) m reply (inject_body E m addr r) = (Some e, out, k)"
      using assms(2) Inr x g p res by (auto simp: Call_def Client_def split: prod.splits)
    then show ?thesis using call_reply_not_net [OF assms(1)] Inr x g p res by fastforce
  qed
qed

definition demo_cenv :: "(nat, 'w) cenv" where
  "demo_cenv = \<lparr>post = (\<lambda>h url t b w. (Inl (Opaque ''connection refused''), w)), cgob = demo_gob,
     cdec = (\<lambda>t r. (gob_dec demo_gob t (fst (ReadAll r)), length (fst (ReadAll r)))),
     cdec_err = (\<lambda>r. gob_dec_err demo_gob (fst (ReadAll r))), errorString = (\<lambda>e. ''err''), injectFailures = None\<rparr>"

theorem Call_net_error_witness:
  "\<exists>stat c'. Call (demo_cenv :: (nat, nat) cenv) ''http://h'' ''S.M'' (CVal 3) (RVal (TNamed ''int'')) (NewClient ''/rpc/'') 7 =
     ((Some (ErrE [Kind Net, Severity Temporary, Err (Opaque ''connection refused'')]), None), stat, c', 7) \<and>
     is_net arg_errlib (ErrE [Kind Net, Severity Temporary, Err (Opaque ''connection refused'')])"
proof -
  obtain stat c' where r: "Call (demo_cenv :: (nat, nat) cenv) ''http://h'' ''S.M'' (CVal 3) (RVal (TNamed ''int'')) (NewClient ''/rpc/'') 7 =
     ((Some (ErrE [Kind Net, Severity Temporary, Err (Opaque ''connection refused'')]), None), stat, c', 7)"
    by (simp add: Call_def demo_cenv_def call_body_def demo_gob_def getClient_def Client_def NewClient_def Let_def)
  have "is_net arg_errlib (ErrE [Kind Net, Severity Temporary, Err (Opaque ''connection refused'')])"
    using Call_net_error [OF kinds_ok_arg_errlib r]
    by (simp add: demo_cenv_def call_body_def demo_gob_def)
  with r show ?thesis by blast
qed

subsection \<open>A call through the server\<close>

text \<open>The value of a trailer over HTTP/2, the protocol the systems configure: the server of \<open>net/http\<close> leaves out a
  value that is not a valid header value, one with a control character other than a tab.\<close>

definition control :: "char \<Rightarrow> bool" where
  "control c \<longleftrightarrow> ((of_char c :: nat) < 32 \<or> of_char c = (127 :: nat)) \<and> c \<noteq> CHR 0x09"

definition wire_trailer :: "string \<Rightarrow> string" where
  "wire_trailer v = (if list_ex control v then '''' else v)"

text \<open>A transport that reaches a server and loses no message: the request is served and its response
  handed back, with the status and the body the handler wrote and its trailer as far as HTTP/2 carries it.
  \<open>url_path\<close> is the path of a URL and \<open>status_text\<close> the text of a status.\<close>

definition resp_of :: "(int \<Rightarrow> string) \<Rightarrow> respw \<Rightarrow> resp" where
  "resp_of status_text rw =
     (let code = (case Code rw of None \<Rightarrow> 200 | Some c \<Rightarrow> c)
      in \<lparr>StatusCode = code, Status = status_text code, Body = [(RespBody rw, None)],
          RTrailer = (case Trailer rw of None \<Rightarrow> '''' | Some t \<Rightarrow> wire_trailer t)\<rparr>)"

definition reaches :: "errlib \<Rightarrow> (string \<Rightarrow> string) \<Rightarrow> (int \<Rightarrow> string) \<Rightarrow> ('v, 'w) server \<Rightarrow> ('v, 'w) cenv \<Rightarrow> bool" where
  "reaches L url_path status_text s E \<longleftrightarrow> injectFailures E = None \<and>
     (\<forall>h url t b w. post E h url t b w =
        (case ServeHTTP L (cgob E) (errorString E) s \<lparr>Method = ''POST'', URLPath = url_path url, ReqBody = b\<rparr> w
         of (rw, _, w) \<Rightarrow> (Inr (resp_of status_text rw), w)))"

text \<open>The URL of a call names the method.\<close>

lemma call_url_path:
  assumes "CHR ''/'' \<notin> set m" "m \<noteq> []" "last (prefix c) = CHR ''/''" "prefix c \<noteq> []"
  shows "path_Base (prefix c @ m) = m"
  using path_Base_append [OF assms(1,2), of "butlast (prefix c)"] assms(3,4)
  by (metis append.assoc append_Cons append_Nil append_butlast_last_id)

lemma Call_via_server:
  assumes "reaches L url_path status_text s E"
    and "url_path (TrimRight addr (CHR ''/'') @ prefix c @ svc @ CHR ''.'' # mname) = prefix c @ svc @ CHR ''.'' # mname"
    and "last (prefix c) = CHR ''/''" "prefix c \<noteq> []"
    and "CHR ''/'' \<notin> set svc" "CHR ''.'' \<notin> set svc" "CHR ''/'' \<notin> set mname"
    and "s svc = Some methods" "methods mname = Some m"
    and body: "call_body E arg = Inr (n, t, b)" and arg: "read_arg (cgob E) (m_arg m) b = Inr argv"
    and inv: "invoke m argv w = ((e, r), w')"
    and fin: "finish L (cgob E) (errorString E) e r new_respw = (k, e', rw)"
    and reply: "call_reply E (TrimRight addr (CHR ''/'') @ prefix c @ svc @ CHR ''.'' # mname) (svc @ CHR ''.'' # mname)
      reply (resp_of status_text rw) = (ce, out, cn)"
  shows "\<exists>stat c'. Call E addr (svc @ CHR ''.'' # mname) arg reply c w = ((ce, out), stat, c', w')"
proof -
  let ?sm = "svc @ CHR ''.'' # mname"
  have "path_Base (prefix c @ ?sm) = ?sm" using assms(3-7) by (intro call_url_path) auto
  then have srv: "ServeHTTP L (cgob E) (errorString E) s
      \<lparr>Method = ''POST'', URLPath = url_path (TrimRight addr (CHR ''/'') @ prefix c @ ?sm), ReqBody = b\<rparr> w =
    (rw, Some (if m_arg m = TReader then -1 else 0, k, e'), w')"
    using ServeHTTP_dispatch [of "\<lparr>Method = ''POST'', URLPath = prefix c @ ?sm, ReqBody = b\<rparr>" svc mname s methods m
        "cgob E" argv w e r w' L "errorString E"] assms(2,6,8,9) arg inv fin by simp
  have "post E h (TrimRight addr (CHR ''/'') @ prefix c @ ?sm) t b w = (Inr (resp_of status_text rw), w')" for h
    using assms(1) unfolding reaches_def by (simp add: srv)
  then show ?thesis
    using assms(1) body reply by (simp add: Call_def Client_def inject_body_def reaches_def split: prod.splits)
qed

text \<open>C1. A call is an invocation: over a transport that reaches the server, and for values the gob codec
  carries faithfully, \<open>Call\<close> leaves the service in the state the method leaves it in; it stores the value the
  method stored when the method succeeds, and otherwise fails with the method's error, recovered by
  \<open>errors.Recover\<close> and marked \<open>Remote\<close>.\<close>

theorem Call_is_method_call:
  assumes "reaches L url_path status_text s E"
    and "url_path (TrimRight addr (CHR ''/'') @ prefix c @ svc @ CHR ''.'' # mname) = prefix c @ svc @ CHR ''.'' # mname"
    and "last (prefix c) = CHR ''/''" "prefix c \<noteq> []"
    and "CHR ''/'' \<notin> set svc" "CHR ''.'' \<notin> set svc" "CHR ''/'' \<notin> set mname"
    and "s svc = Some methods" "methods mname = Some m" "m_arg m \<noteq> TReader"
    and arg: "gob_enc (cgob E) v = (b, None)" "gob_dec (cgob E) (Elem (m_arg m)) b = Inr v"
    and run: "Func m (ArgVal v) (init_reply (m_reply m)) w = (MReturn e (ReplyVal r), w')"
    and reply: "gob_enc (cgob E) r = (rb, None)" "fst (cdec E t [(rb, None)]) = Inr r"
    and err: "\<And>x. e = Some x \<Longrightarrow> gob_enc_err (cgob E) (recover_err L x) = (eb, None) \<and>
                 cdec_err E [(eb, None)] = Inr (recover_err L x)"
  shows "\<exists>stat c'. Call E addr (svc @ CHR ''.'' # mname) (CVal v) (RVal t) c w =
    (case e of None \<Rightarrow> (None, Some (OVal r))
             | Some x \<Rightarrow> (Some (ErrE [Kind Remote, Err (recover_err L x)]), None), stat, c', w')"
proof -
  have body: "call_body E (CVal v) = Inr (int (length b), gobContentType, b)"
    using arg by (simp add: call_body_def)
  have rarg: "read_arg (cgob E) (m_arg m) b = Inr (ArgVal v)"
    using arg assms(10) by (simp add: read_arg_def)
  have inv: "invoke m (ArgVal v) w = ((e, ReplyVal r), w')" using run by (simp add: invoke_def)
  note via = Call_via_server [OF assms(1-9) body rarg inv]
  show ?thesis
  proof (cases e)
    case None
    obtain k where dec: "cdec E t [(rb, None)] = (Inr r, k)" using reply(2) by (cases "cdec E t [(rb, None)]") auto
    note fin = finish_encoded [of "ReplyVal r" L "cgob E" None rb "errorString E"]
    have "\<exists>stat c'. Call E addr (svc @ CHR ''.'' # mname) (CVal v) (RVal t) c w = ((None, Some (OVal r)), stat, c', w')"
      by (rule via, unfold None, rule fin)
         (simp_all add: encode_reply_def reply(1) call_reply_def resp_of_def Let_def methodErrorCode_def dec)
    then show ?thesis by (simp add: None)
  next
    case (Some x)
    note fin = finish_encoded [of "ReplyVal r" L "cgob E" "Some x" eb "errorString E"]
    have "\<exists>stat c'. Call E addr (svc @ CHR ''.'' # mname) (CVal v) (RVal t) c w =
        ((Some (ErrE [Kind Remote, Err (recover_err L x)]), None), stat, c', w')"
      by (rule via, unfold Some, rule fin)
         (simp_all add: encode_reply_def err [OF Some] call_reply_def resp_of_def Let_def decodeError_def)
    then show ?thesis by (simp add: Some)
  qed
qed

text \<open>Reading a streamed reply to its end, with \<open>n\<close> reads at most.\<close>

fun streamReader_ReadAll :: "nat \<Rightarrow> resp \<Rightarrow> (bytes \<times> err option) option" where
  "streamReader_ReadAll 0 r = None"
| "streamReader_ReadAll (Suc n) r =
     (case streamReader_Read r of
        ((b, None), r) \<Rightarrow>
          (case streamReader_ReadAll n r of None \<Rightarrow> None | Some (b', e) \<Rightarrow> Some (b @ b', e))
      | ((b, Some e), r) \<Rightarrow> Some (b, if e = EOF then None else Some e))"

text \<open>C17. A streamed reply arrives whole: the call returns once the method has, and reading the reply to its
  end gives the bytes of the method's stream and, if that stream ended in an error, an error with its
  message instead of an end of file. The error gets lost exactly when its message is empty or has a control character
  other than a tab, a line break for one: the trailer cannot carry it, and the reader takes what has come for the whole stream.\<close>

theorem Call_streams_reply:
  assumes "reaches L url_path status_text s E"
    and "url_path (TrimRight addr (CHR ''/'') @ prefix c @ svc @ CHR ''.'' # mname) = prefix c @ svc @ CHR ''.'' # mname"
    and "last (prefix c) = CHR ''/''" "prefix c \<noteq> []"
    and "CHR ''/'' \<notin> set svc" "CHR ''.'' \<notin> set svc" "CHR ''/'' \<notin> set mname"
    and "s svc = Some methods" "methods mname = Some m"
    and "call_body E arg = Inr (n, t, b)" "read_arg (cgob E) (m_arg m) b = Inr argv"
    and run: "Func m argv (init_reply (m_reply m)) w = (MReturn None (ReplyStream (Some st)), w')"
  shows "\<exists>stat c' r. Call E addr (svc @ CHR ''.'' # mname) arg RReadCloser c w = ((None, Some (OStream r)), stat, c', w') \<and>
    streamReader_ReadAll 2 r = Some (content st,
      case read_err st of
        None \<Rightarrow> None
      | Some x \<Rightarrow> if errorString E x = '''' \<or> list_ex control (errorString E x) then None else Some (Opaque (errorString E x)))"
proof -
  have inv: "invoke m argv w = ((None, ReplyStream (Some st)), w')" using run by (simp add: invoke_def)
  obtain rw where fin: "finish L (cgob E) (errorString E) None (ReplyStream (Some st)) new_respw = (-1, read_err st, rw)"
    and rw: "rw = \<lparr>ContentType = ''application/octet-stream'', Code = Some 200, RespBody = content st,
       Trailer = Some (case read_err st of None \<Rightarrow> '''' | Some e \<Rightarrow> errorString E e), Flushed = needFlush st\<rparr>"
    by (simp add: finish_def write_stream_new)
  have "call_reply E url sm RReadCloser (resp_of status_text rw) = (None, Some (OStream (resp_of status_text rw)), -1)" for url sm
    by (simp add: call_reply_def resp_of_def rw Let_def)
  from Call_via_server [OF assms(1-11) inv fin this]
  obtain stat c' where call: "Call E addr (svc @ CHR ''.'' # mname) arg RReadCloser c w =
      ((None, Some (OStream (resp_of status_text rw))), stat, c', w')" by blast
  have "streamReader_ReadAll 2 (resp_of status_text rw) =
      Some (content st, case read_err st of None \<Rightarrow> None
        | Some x \<Rightarrow> if errorString E x = '''' \<or> list_ex control (errorString E x) then None else Some (Opaque (errorString E x)))"
    by (cases "read_err st") (auto simp: numeral_2_eq_2 streamReader_Read_def resp_of_def rw Let_def wire_trailer_def)
  with call show ?thesis by blast
qed

text \<open>A server and a client of it for concrete instances: the service \<open>PI\<close>, whose URL paths start at the
  fourth slash-separated part.\<close>

definition demo_server :: "(nat, nat) rmethod \<Rightarrow> (nat, nat) server" where
  "demo_server m = NewServer(''PI'' \<mapsto> service_Init [m] Map.empty)"

definition demo_url_path :: "string \<Rightarrow> string" where
  "demo_url_path u = drop 8 u"

definition demo_link :: "(nat, 'w) server \<Rightarrow> (nat, 'w) cenv" where
  "demo_link s = demo_cenv\<lparr>post := (\<lambda>h url t b w.
     case ServeHTTP arg_errlib demo_gob (\<lambda>e. ''err'') s
            \<lparr>Method = ''POST'', URLPath = demo_url_path url, ReqBody = b\<rparr> w
     of (rw, _, w) \<Rightarrow> (Inr (resp_of (\<lambda>c. ''status'') rw), w))\<rparr>"

lemma demo_link_reaches: "reaches arg_errlib demo_url_path (\<lambda>c. ''status'') s (demo_link s)"
  by (simp add: reaches_def demo_link_def demo_cenv_def)

lemma demo_link_sel:
  "cgob (demo_link s) = demo_gob"
  "cdec (demo_link s) = (\<lambda>t r. (gob_dec demo_gob t (fst (ReadAll r)), length (fst (ReadAll r))))"
  "cdec_err (demo_link s) = (\<lambda>r. gob_dec_err demo_gob (fst (ReadAll r)))"
  "errorString (demo_link s) = (\<lambda>e. ''err'')"
  by (simp_all add: demo_link_def demo_cenv_def)

theorem Call_is_method_call_witness:
  "(\<exists>stat c'. Call (demo_link (demo_server demo_method)) ''http://h/'' (''PI'' @ CHR ''.'' # ''Sample'') (CVal 9) (RVal (TNamed ''uint64''))
      (NewClient ''/bigrpc/'') 7 = ((None, Some (OVal 4)), stat, c', 8)) \<and>
   (\<exists>stat c'. Call (demo_link (demo_server failing_method)) ''http://h/'' (''PI'' @ CHR ''.'' # ''Sample'') (CVal 9) (RVal (TNamed ''uint64''))
      (NewClient ''/bigrpc/'') 7 = ((Some (ErrE [Kind Remote, Err (Opaque ''no'')]), None), stat, c', 8))"
proof (rule conjI)
  show "\<exists>stat c'. Call (demo_link (demo_server demo_method)) ''http://h/'' (''PI'' @ CHR ''.'' # ''Sample'') (CVal 9) (RVal (TNamed ''uint64''))
      (NewClient ''/bigrpc/'') 7 = ((None, Some (OVal 4)), stat, c', 8)"
    using Call_is_method_call [OF demo_link_reaches, of "''http://h/''" "NewClient ''/bigrpc/''" "''PI''" "''Sample''" "demo_server demo_method"
        "service_Init [demo_method] Map.empty" demo_method 9 "replicate 9 CHR ''x''" 7 None 4 8 "replicate 4 CHR ''x''"
        "TNamed ''uint64''" "''''"]
    by (simp add: demo_link_sel demo_server_def demo_url_path_def demo_gob_def demo_cenv_def demo_method_def eligible_def
        m_arg_def m_reply_def NewClient_def TrimRight_def)
  show "\<exists>stat c'. Call (demo_link (demo_server failing_method)) ''http://h/'' (''PI'' @ CHR ''.'' # ''Sample'') (CVal 9) (RVal (TNamed ''uint64''))
      (NewClient ''/bigrpc/'') 7 = ((Some (ErrE [Kind Remote, Err (Opaque ''no'')]), None), stat, c', 8)"
    using Call_is_method_call [OF demo_link_reaches, of "''http://h/''" "NewClient ''/bigrpc/''" "''PI''" "''Sample''" "demo_server failing_method"
        "service_Init [failing_method] Map.empty" failing_method 9 "replicate 9 CHR ''x''" 7 "Some (Opaque ''no'')" 0 8 "''''"
        "TNamed ''uint64''" "''no''"]
    by (simp add: demo_link_sel demo_server_def demo_url_path_def demo_gob_def demo_cenv_def demo_method_def failing_method_def
        eligible_def m_arg_def m_reply_def NewClient_def TrimRight_def arg_errlib_def)
qed

definition stream_method :: "err option \<Rightarrow> (nat, nat) rmethod" where
  "stream_method e = demo_method\<lparr>In := [TNamed ''circlePI'', TContext, TNamed ''uint64'', TPtr TReadCloser],
     Func := (\<lambda>a i w. (MReturn e (ReplyStream (Some \<lparr>content = ''data'', read_err = Some (Opaque ''cut''), needFlush = False\<rparr>)), Suc w))\<rparr>"

theorem Call_streams_reply_witness:
  "\<exists>stat c' r. Call (demo_link (demo_server (stream_method None))) ''http://h/'' (''PI'' @ CHR ''.'' # ''Sample'') (CVal 9) RReadCloser
      (NewClient ''/bigrpc/'') 7 = ((None, Some (OStream r)), stat, c', 8) \<and>
    streamReader_ReadAll 2 r = Some (''data'', Some (Opaque ''err''))"
  using Call_streams_reply [OF demo_link_reaches, of "''http://h/''" "NewClient ''/bigrpc/''" "''PI''" "''Sample''" "demo_server (stream_method None)"
      "service_Init [stream_method None] Map.empty" "stream_method None" "CVal 9" 9 gobContentType "replicate 9 CHR ''x''" "ArgVal 9" 7
      "\<lparr>content = ''data'', read_err = Some (Opaque ''cut''), needFlush = False\<rparr>" 8]
  by (simp add: demo_link_sel demo_server_def demo_url_path_def demo_gob_def demo_method_def stream_method_def control_def
      eligible_def m_arg_def m_reply_def NewClient_def TrimRight_def call_body_def read_arg_def)

lemma stream_error_replaced:
  assumes "reaches L url_path status_text s E"
    and "url_path (TrimRight addr (CHR ''/'') @ prefix c @ svc @ CHR ''.'' # mname) = prefix c @ svc @ CHR ''.'' # mname"
    and "last (prefix c) = CHR ''/''" "prefix c \<noteq> []"
    and "CHR ''/'' \<notin> set svc" "CHR ''.'' \<notin> set svc" "CHR ''/'' \<notin> set mname"
    and "s svc = Some methods" "methods mname = Some m"
    and "call_body E arg = Inr (n, t, b)" "read_arg (cgob E) (m_arg m) b = Inr argv"
    and run: "Func m argv (init_reply (m_reply m)) w = (MReturn (Some e) (ReplyStream (Some st)), w')"
  shows "\<exists>stat c'. Call E addr (svc @ CHR ''.'' # mname) arg RReadCloser c w =
    ((Some (decodeError E (svc @ CHR ''.'' # mname) [(content st, None)]), None), stat, c', w')"
proof -
  have inv: "invoke m argv w = ((Some e, ReplyStream (Some st)), w')" using run by (simp add: invoke_def)
  obtain rw where fin: "finish L (cgob E) (errorString E) (Some e) (ReplyStream (Some st)) new_respw = (-1, read_err st, rw)"
    and rw: "Code rw = Some methodErrorCode" "RespBody rw = content st"
    by (simp add: finish_def write_stream_new)
  have "call_reply E url sm RReadCloser (resp_of status_text rw) = (Some (decodeError E sm [(content st, None)]), None, -1)" for url sm
    by (simp add: call_reply_def resp_of_def rw Let_def methodErrorCode_def)
  from Call_via_server [OF assms(1-11) inv fin this] show ?thesis .
qed

text \<open>A method that returns an error after storing a stream loses the error: the stream is sent in
  its place under the status of a method error, and the client, which expects an encoded error there,
  reports whatever decoding the stream's bytes as an error gives.\<close>

theorem error_with_stream_lost:
  assumes "reaches L url_path status_text s E"
    and "url_path (TrimRight addr (CHR ''/'') @ prefix c @ svc @ CHR ''.'' # mname) = prefix c @ svc @ CHR ''.'' # mname"
    and "last (prefix c) = CHR ''/''" "prefix c \<noteq> []"
    and "CHR ''/'' \<notin> set svc" "CHR ''.'' \<notin> set svc" "CHR ''/'' \<notin> set mname"
    and "s svc = Some methods" "methods mname = Some m"
    and "call_body E arg = Inr (n, t, b)" "read_arg (cgob E) (m_arg m) b = Inr argv"
    and "Func m argv (init_reply (m_reply m)) w = (MReturn (Some e) (ReplyStream (Some st)), w')"
  shows "\<exists>stat c'. Call E addr (svc @ CHR ''.'' # mname) arg RReadCloser c w =
    ((Some (decodeError E (svc @ CHR ''.'' # mname) [(content st, None)]), None), stat, c', w')"
  using assms by (rule stream_error_replaced)

theorem error_with_stream_lost_witness:
  "\<exists>stat c'. Call (demo_link (demo_server (stream_method (Some EOF)))) ''http://h/'' (''PI'' @ CHR ''.'' # ''Sample'') (CVal 9) RReadCloser
      (NewClient ''/bigrpc/'') 7 = ((Some (ErrE [Kind Remote, Err (Opaque ''data'')]), None), stat, c', 8)"
  using error_with_stream_lost [OF demo_link_reaches, of "''http://h/''" "NewClient ''/bigrpc/''" "''PI''" "''Sample''"
      "demo_server (stream_method (Some EOF))" "service_Init [stream_method (Some EOF)] Map.empty" "stream_method (Some EOF)" "CVal 9" 9
      gobContentType "replicate 9 CHR ''x''" "ArgVal 9" 7 EOF
      "\<lparr>content = ''data'', read_err = Some (Opaque ''cut''), needFlush = False\<rparr>" 8]
  by (simp add: demo_link_sel demo_server_def demo_url_path_def demo_gob_def demo_cenv_def demo_method_def stream_method_def
      eligible_def m_arg_def m_reply_def NewClient_def TrimRight_def call_body_def read_arg_def decodeError_def)

end
