(* ===== verification/Supervisor.thy ===== *)
theory Supervisor
  imports Rpc_Client
begin

text \<open>
  The supervisor (\<open>supervisor.go\<close>), the service every machine runs. Its process is the record
  \<open>sup\<close>: the supervisor's own fields, the process arguments, the files it has written, the digest
  of its binary and the services registered on its RPC server. The watchdog is a loop over the
  events its \<open>select\<close> receives, each with its instant. The operating system, \<open>runtime/pprof\<close>
  and \<open>gopsutil\<close> are arguments of the operations that call them.
\<close>

subsection \<open>State\<close>

record 'd Info =
  Goos :: string
  Goarch :: string
  Digest :: "'d option"       \<comment> \<open>None: the zero digest\<close>

record rfile =
  file_content :: bytes
  file_mode :: int

record ('v, 'w, 'd) sup =
  binaryPath :: string
  sv_environ :: "string list"
  healthy :: bool
  os_args :: "string list"
  files :: "string \<rightharpoonup> rfile"
  digestOnce :: bool
  binaryDigest :: "'d option"
  sv_server :: "('v, 'w) server"

definition StartSupervisor :: "string list \<Rightarrow> ('v, 'w) server \<Rightarrow> ('v, 'w, 'd) sup" where
  "StartSupervisor args srv =
     \<lparr>binaryPath = '''', sv_environ = [], healthy = True, os_args = args, files = Map.empty,
      digestOnce = False, binaryDigest = None, sv_server = srv\<rparr>"

text \<open>\<open>LocalInfo\<close>: the digest is computed at most once; \<open>bin\<close> is the opened binary and its content
  with the error reading it ends with.\<close>

definition LocalInfo :: "string \<Rightarrow> string \<Rightarrow> err + (bytes \<times> err option) \<Rightarrow> (bytes \<Rightarrow> 'd) \<Rightarrow> ('v, 'w, 'd) sup
    \<Rightarrow> 'd Info \<times> ('v, 'w, 'd) sup" where
  "LocalInfo goos goarch bin digester s =
     (let s = (if digestOnce s then s
               else case bin of
                      Inl e \<Rightarrow> s\<lparr>digestOnce := True\<rparr>
                    | Inr (b, Some e) \<Rightarrow> s\<lparr>digestOnce := True\<rparr>
                    | Inr (b, None) \<Rightarrow> s\<lparr>digestOnce := True, binaryDigest := Some (digester b)\<rparr>)
      in (\<lparr>Goos = goos, Goarch = goarch, Digest = binaryDigest s\<rparr>, s))"

subsection \<open>Configuration of the next image\<close>

definition Setargs :: "string list \<Rightarrow> ('v, 'w, 'd) sup \<Rightarrow> err option \<times> ('v, 'w, 'd) sup" where
  "Setargs args s = (None, s\<lparr>os_args := args\<rparr>)"

definition Setenv :: "string list \<Rightarrow> ('v, 'w, 'd) sup \<Rightarrow> err option \<times> ('v, 'w, 'd) sup" where
  "Setenv env s = (None, s\<lparr>sv_environ := env\<rparr>)"

text \<open>What the file operations of \<open>Setbinary\<close> return: the name of a fresh temporary file, and the
  errors of closing it and of changing its mode (0600 is 0x180, 0755 is 0x1ED). The upload is a reader.\<close>

record binfs =
  TempFile :: "err + string"
  file_Close :: "err option"
  Chmod :: "err option"

definition Setbinary :: "binfs \<Rightarrow> reader \<Rightarrow> ('v, 'w, 'd) sup \<Rightarrow> err option \<times> ('v, 'w, 'd) sup" where
  "Setbinary fs bin s =
     (case TempFile fs of
        Inl e \<Rightarrow> (Some e, s)
      | Inr path \<Rightarrow>
          (case ReadAll bin of (b, cerr) \<Rightarrow>
             (let s' = s\<lparr>files := (files s)(path \<mapsto> \<lparr>file_content = b, file_mode = 0x180\<rparr>)\<rparr>;
                  removed = s\<lparr>files := (files s)(path := None)\<rparr>
              in case cerr of
                   Some e \<Rightarrow> (Some e, s')
                 | None \<Rightarrow>
                     (case file_Close fs of
                        Some e \<Rightarrow> (Some e, removed)
                      | None \<Rightarrow>
                          (case Chmod fs of
                             Some e \<Rightarrow> (Some e, removed)
                           | None \<Rightarrow>
                               (None, s'\<lparr>files := (files s)(path \<mapsto> \<lparr>file_content = b, file_mode = 0x1ED\<rparr>),
                                         binaryPath := path\<rparr>))))))"

text \<open>\<open>GetBinary\<close> as a method of the RPC server: the error and what is behind the reply pointer.
  When the file cannot be opened a nil \<open>*os.File\<close> is stored, which is a stream that fails to read.\<close>

definition nil_file :: rstream where
  "nil_file = \<lparr>content = [], read_err = Some (Opaque ''invalid argument''), needFlush = False\<rparr>"

definition GetBinary :: "('u, 'w, 'd) sup \<Rightarrow> 'v mresult" where
  "GetBinary s =
     (if binaryPath s = '''' then
        MReturn (Some (ErrE [Kind Invalid, Str ''Supervisor.GetBinary: no binary set''])) (ReplyStream None)
      else case files s (binaryPath s) of
             None \<Rightarrow> MReturn (Some (Errorf ''open %s: no such file or directory'' [Str (binaryPath s)]))
                       (ReplyStream (Some nil_file))
           | Some f \<Rightarrow> MReturn None (ReplyStream (Some
                         \<lparr>content = file_content f, read_err = None, needFlush = False\<rparr>)))"

text \<open>The image \<open>Exec\<close> replaces the process with: path, arguments, environment.\<close>

definition Exec :: "string list \<Rightarrow> ('v, 'w, 'd) sup \<Rightarrow> err + (string \<times> string list \<times> string list)" where
  "Exec os_environ s =
     (let environ = os_environ @ sv_environ s; path = binaryPath s
      in if path = '''' then Inl (ErrE [Kind Invalid, Str ''Supervisor.Exec: no binary set''])
         else Inr (path, os_args s, environ))"

subsection \<open>Services and information\<close>

text \<open>\<open>maybeInit\<close> (\<open>bigmachine.go\<close>): the result of \<open>Init\<close> if the instance has that method.\<close>

definition maybeInit :: "('b \<Rightarrow> err option) option \<Rightarrow> 'b \<Rightarrow> err option" where
  "maybeInit init b = (case init of None \<Rightarrow> None | Some f \<Rightarrow> f b)"

definition Supervisor_Register :: "string \<Rightarrow> ('v, 'w) rmethod list \<Rightarrow> ('b \<Rightarrow> err option) option \<Rightarrow> 'b
    \<Rightarrow> ('v, 'w, 'd) sup \<Rightarrow> err option \<times> ('v, 'w, 'd) sup" where
  "Supervisor_Register name instance init b s =
     (case Register name instance (sv_server s) of
        (Some e, srv) \<Rightarrow> (Some e, s\<lparr>sv_server := srv\<rparr>)
      | (None, srv) \<Rightarrow> (maybeInit init b, s\<lparr>sv_server := srv\<rparr>))"

definition Ping :: "int \<Rightarrow> err option \<times> int" where
  "Ping seq = (None, seq)"

definition Getpid :: "int \<Rightarrow> err option \<times> int" where
  "Getpid os_pid = (None, os_pid)"

definition Supervisor_Info :: "string \<Rightarrow> string \<Rightarrow> err + (bytes \<times> err option) \<Rightarrow> (bytes \<Rightarrow> 'd) \<Rightarrow> ('v, 'w, 'd) sup
    \<Rightarrow> (err option \<times> 'd Info) \<times> ('v, 'w, 'd) sup" where
  "Supervisor_Info goos goarch bin digester s =
     (case LocalInfo goos goarch bin digester s of (i, s) \<Rightarrow> ((None, i), s))"

text \<open>\<open>MemInfo\<close>: the reply starts as the zero value, \<open>None\<close> for each part.\<close>

definition Supervisor_MemInfo :: "bool \<Rightarrow> 'r \<Rightarrow> err + 'm \<Rightarrow> err option \<times> ('r option \<times> 'm option)" where
  "Supervisor_MemInfo readMemStats runtime virtual =
     (let r = (if readMemStats then Some runtime else None)
      in case virtual of Inl e \<Rightarrow> (Some e, (r, None)) | Inr vm \<Rightarrow> (None, (r, Some vm)))"

definition Supervisor_DiskInfo :: "err + 'u \<Rightarrow> err option \<times> 'u option" where
  "Supervisor_DiskInfo usage = (case usage of Inl e \<Rightarrow> (Some e, None) | Inr u \<Rightarrow> (None, Some u))"

definition Supervisor_LoadInfo :: "err + 'l \<Rightarrow> err option \<times> 'l option" where
  "Supervisor_LoadInfo load = (case load of Inl e \<Rightarrow> (Some e, None) | Inr l \<Rightarrow> (None, Some l))"

subsection \<open>Profiles and exported variables\<close>

text \<open>A context by its deadline and by the instant and error it is done with, if ever.\<close>

record rctx =
  Deadline :: "time option"
  Done_at :: "(time \<times> err) option"

definition isContextAliveFor :: "rctx \<Rightarrow> duration \<Rightarrow> time \<Rightarrow> bool" where
  "isContextAliveFor ctx dur now =
     (case Deadline ctx of None \<Rightarrow> True | Some deadline \<Rightarrow> dur \<le> deadline - now)"

text \<open>\<open>CPUProfile\<close>: the profiler's own error, or what it writes from the start to the instant it is
  stopped; the stream ends with the context's error if the context is done first.\<close>

definition CPUProfile :: "(time \<Rightarrow> time \<Rightarrow> err + bytes) \<Rightarrow> rctx \<Rightarrow> duration \<Rightarrow> time \<Rightarrow> 'v mresult" where
  "CPUProfile profiler ctx dur now =
     (let dur = (if dur = 0 then 30 * Second else dur)
      in if \<not> isContextAliveFor ctx dur now then
           MReturn (Some (Errorf ''context is too short for duration %s'' [Dur dur])) (ReplyStream None)
         else
           (let (stop, e) = (case Done_at ctx of
                               Some (t, e) \<Rightarrow> if t < now + dur then (t, Some e) else (now + dur, None)
                             | None \<Rightarrow> (now + dur, None))
            in MReturn None (ReplyStream (Some
                 (case profiler now stop of
                    Inl e \<Rightarrow> \<lparr>content = [], read_err = Some e, needFlush = False\<rparr>
                  | Inr b \<Rightarrow> \<lparr>content = b, read_err = e, needFlush = False\<rparr>)))))"

record profileRequest =
  pr_Name :: string
  pr_Debug :: int
  pr_GC :: bool

text \<open>\<open>Profile\<close>: whether a garbage collection is run first, and the reply; a profile is what its
  \<open>WriteTo\<close> writes at a debug level and the error it returns.\<close>

definition Profile :: "(string \<rightharpoonup> (int \<Rightarrow> bytes \<times> err option)) \<Rightarrow> profileRequest \<Rightarrow> bool \<times> 'v mresult" where
  "Profile lookup req =
     (pr_Name req = ''heap'' \<and> pr_GC req,
      case lookup (pr_Name req) of
        None \<Rightarrow> MReturn (Some (Errorf ''no such profile %s'' [Str (pr_Name req)])) (ReplyStream None)
      | Some p \<Rightarrow> (case p (pr_Debug req) of (b, e) \<Rightarrow>
          MReturn None (ReplyStream (Some \<lparr>content = b, read_err = e, needFlush = False\<rparr>))))"

record profileStat =
  ps_Name :: string
  ps_Count :: int

fun Profiles :: "(string \<times> int) list \<Rightarrow> profileStat list \<Rightarrow> err option \<times> profileStat list" where
  "Profiles [] profiles = (None, profiles)"
| "Profiles ((n, c) # ps) profiles = Profiles ps (profiles @ [\<lparr>ps_Name = n, ps_Count = c\<rparr>])"

type_synonym expvars = "(string \<times> string) list"

fun Expvars :: "(string \<times> string) list \<Rightarrow> expvars \<Rightarrow> err option \<times> expvars" where
  "Expvars [] vars = (None, vars)"
| "Expvars (kv # kvs) vars = Expvars kvs (vars @ [kv])"

fun Expvars_map :: "expvars \<Rightarrow> (string \<rightharpoonup> string) \<Rightarrow> (string \<rightharpoonup> string)" where
  "Expvars_map [] m = m"
| "Expvars_map ((k, v) # e) m = Expvars_map e (m(k \<mapsto> v))"

definition Expvars_MarshalJSON :: "((string \<rightharpoonup> string) \<Rightarrow> err + bytes) \<Rightarrow> expvars \<Rightarrow> err + bytes" where
  "Expvars_MarshalJSON marshal e = marshal (Expvars_map e Map.empty)"

subsection \<open>Shutdown, keepalive and the watchdog\<close>

text \<open>\<open>Shutdown\<close>: the instant before which the process does not exit, and the message it logs then.\<close>

definition Supervisor_Shutdown :: "duration \<Rightarrow> string \<Rightarrow> time \<Rightarrow> err option \<times> (time \<times> string)" where
  "Supervisor_Shutdown delay message now = (None, (now + delay, message))"

record keepaliveReply =
  kr_Next :: duration
  kr_Healthy :: bool

text \<open>\<open>Keepalive\<close>, called at \<open>now\<close>: the watchdog receives the deadline at the instant \<open>recv\<close>, unless
  the context is done first; the deadline sent is part of the result.\<close>

definition Keepalive :: "duration \<Rightarrow> time \<Rightarrow> err + time \<Rightarrow> bool \<Rightarrow> err + (keepaliveReply \<times> time)" where
  "Keepalive nxt now recv is_healthy =
     (let t = now + nxt
      in case recv of
           Inl e \<Rightarrow> Inl e
         | Inr now' \<Rightarrow> Inr (\<lparr>kr_Next = t - now', kr_Healthy = is_healthy\<rparr>, t))"

text \<open>The watchdog loop. Each iteration has its instant, the event the \<open>select\<close> received and the
  reading of the memory use (in percent) should the iteration take one. \<open>exits\<close> are the instants at which
  \<open>System.Exit\<close> was called; an exit that returns, as a test system's does, leaves the loop running.\<close>

definition memProfilePeriod :: duration where "memProfilePeriod = Minute"

datatype wevent = Tick | Next time | CtxDone

record witer =
  instant :: time
  ev :: wevent
  vm :: "err + rat"

record wdog =
  wd_next :: time
  lastMemProfile :: "time option"     \<comment> \<open>None: the zero time\<close>
  wd_healthy :: bool
  exits :: "time list"

definition watchdog_init :: "time \<Rightarrow> wdog" where
  "watchdog_init now = \<lparr>wd_next = now + 2 * Minute, lastMemProfile = None, wd_healthy = True, exits = []\<rparr>"

definition watchdog_check :: "time \<Rightarrow> err + rat \<Rightarrow> wdog \<Rightarrow> wdog" where
  "watchdog_check now mem d =
     (let d = (if now - wd_next d > 0 then d\<lparr>exits := exits d @ [now]\<rparr> else d)
      in if (case lastMemProfile d of None \<Rightarrow> True | Some t \<Rightarrow> now - t > memProfilePeriod) then
           (case mem of
              Inl e \<Rightarrow> d
            | Inr used \<Rightarrow> d\<lparr>wd_healthy := used \<le> 95, lastMemProfile := Some now\<rparr>)
         else d)"

fun watchdog :: "witer list \<Rightarrow> wdog \<Rightarrow> wdog" where
  "watchdog [] d = d"
| "watchdog (it # its) d =
     (case ev it of
        Tick \<Rightarrow> watchdog its (watchdog_check (instant it) (vm it) d)
      | Next t \<Rightarrow> watchdog its (watchdog_check (instant it) (vm it) (d\<lparr>wd_next := t\<rparr>))
      | CtxDone \<Rightarrow> d)"

subsection \<open>The watchdog's deadline\<close>

text \<open>The deadline in force at an iteration: the last one received by then.\<close>

fun in_force :: "time \<Rightarrow> witer list \<Rightarrow> time" where
  "in_force d [] = d"
| "in_force d (it # its) = in_force (case ev it of Next t \<Rightarrow> t | _ \<Rightarrow> d) its"

lemma in_force_append [simp]: "in_force d (xs @ ys) = in_force (in_force d xs) ys"
  by (induction xs arbitrary: d) auto

lemma watchdog_check_next [simp]: "wd_next (watchdog_check now mem d) = wd_next d"
  by (auto simp: watchdog_check_def Let_def split: sum.splits option.splits)

lemma watchdog_check_exits:
  "exits (watchdog_check now mem d) = exits d @ (if wd_next d < now then [now] else [])"
  by (auto simp: watchdog_check_def Let_def split: sum.splits option.splits)

lemma watchdog_append:
  "CtxDone \<notin> ev ` set xs \<Longrightarrow> watchdog (xs @ ys) d = watchdog ys (watchdog xs d)"
proof (induction xs arbitrary: d)
  case (Cons x xs)
  then show ?case by (cases "ev x") auto
qed simp

lemma watchdog_next: "CtxDone \<notin> ev ` set its \<Longrightarrow> wd_next (watchdog its d) = in_force (wd_next d) its"
proof (induction its arbitrary: d)
  case (Cons x xs)
  then show ?case by (cases "ev x") auto
qed simp

lemma watchdog_exits:
  "CtxDone \<notin> ev ` set its \<Longrightarrow>
   exits (watchdog its d) =
     exits d @ map instant (map ((!) its) (filter (\<lambda>k. in_force (wd_next d) (take (Suc k) its) < instant (its ! k)) [0..<length its]))"
proof (induction its rule: rev_induct)
  case (snoc it its)
  have h: "CtxDone \<notin> ev ` set its" "ev it \<noteq> CtxDone" using snoc.prems by auto
  have last: "exits (watchdog (its @ [it]) d) =
     exits (watchdog its d) @ (if in_force (wd_next d) (its @ [it]) < instant it then [instant it] else [])"
    using h by (cases "ev it") (simp_all add: watchdog_append watchdog_check_exits watchdog_next)
  have keep: "filter (\<lambda>k. in_force (wd_next d) (take (Suc k) (its @ [it])) < instant ((its @ [it]) ! k)) [0..<length its] =
     filter (\<lambda>k. in_force (wd_next d) (take (Suc k) its) < instant (its ! k)) [0..<length its]"
    by (rule filter_cong) (auto simp: nth_append)
  have nth: "map ((!) (its @ [it])) (filter P [0..<length its]) = map ((!) its) (filter P [0..<length its])" for P
    by (rule map_cong) (auto simp: nth_append)
  show ?case unfolding last snoc.IH [OF h(1)]
    by (simp only: length_append_singleton upt_Suc_append [OF le0] filter_append keep map_append nth append_assoc
        append_Cons append_Nil filter.simps nth_append_length take_Suc_conv_app_nth) simp
qed simp

text \<open>C9. The watchdog calls \<open>Exit\<close> exactly at the iterations that come later than the deadline in force, the
  last one a keepalive has set or else two minutes after the start; so a machine whose keepalives arrive in
  time is never killed, and one past its deadline is killed at the watchdog's next iteration.\<close>

theorem watchdog_exits_late:
  assumes "CtxDone \<notin> ev ` set its"
  shows "exits (watchdog its (watchdog_init t0)) =
    [instant (its ! k). k \<leftarrow> [0..<length its], in_force (t0 + 2 * Minute) (take (Suc k) its) < instant (its ! k)]"
proof -
  have "map f (filter P xs) = [f k. k \<leftarrow> xs, P k]" for f :: "nat \<Rightarrow> time" and P xs
    by (induction xs) auto
  then show ?thesis using watchdog_exits [OF assms, of "watchdog_init t0"] by (simp add: watchdog_init_def o_def)
qed

definition demo_iter :: "time \<Rightarrow> wevent \<Rightarrow> witer" where
  "demo_iter t e = \<lparr>instant = t, ev = e, vm = Inr 10\<rparr>"

theorem watchdog_exits_late_witness:
  "exits (watchdog [demo_iter (30 * Second) Tick, demo_iter (31 * Second) (Next (91 * Second)),
      demo_iter (90 * Second) Tick, demo_iter (120 * Second) Tick] (watchdog_init 0)) = [120 * Second]"
  using watchdog_exits_late [of "[demo_iter (30 * Second) Tick, demo_iter (31 * Second) (Next (91 * Second)),
      demo_iter (90 * Second) Tick, demo_iter (120 * Second) Tick]" 0]
  by (simp add: demo_iter_def duration_defs upt_rec numeral_nat)

lemma in_force_le:
  "d \<le> D \<Longrightarrow> (\<And>it t. it \<in> set its \<Longrightarrow> ev it = Next t \<Longrightarrow> t \<le> D) \<Longrightarrow> in_force d its \<le> D"
proof (induction its arbitrary: d)
  case (Cons x xs)
  then show ?case by (cases "ev x") auto
qed simp

text \<open>A period has a multiple in every interval of its length.\<close>

lemma multiple_in_interval:
  fixes d t0 p :: int
  assumes "0 < p" "t0 \<le> d"
  obtains k :: nat where "d < t0 + int k * p" "t0 + int k * p \<le> d + p"
proof
  let ?k = "nat ((d - t0) div p + 1)"
  have "int ?k = (d - t0) div p + 1" using assms by (simp add: pos_imp_zdiv_nonneg_iff)
  then have eq: "int ?k * p = (d - t0) div p * p + p" by (simp add: algebra_simps)
  have "d - t0 = (d - t0) div p * p + (d - t0) mod p" by simp
  moreover have "0 \<le> (d - t0) mod p" "(d - t0) mod p < p" using assms(1) by simp_all
  ultimately show "d < t0 + int ?k * p" "t0 + int ?k * p \<le> d + p" unfolding eq by linarith+
qed

text \<open>C8. A driver that goes silent loses its machines: if the watchdog's ticker has fired every 30 seconds up
  to an instant past \<open>D + 30s\<close> and no keepalive has set a deadline after \<open>D\<close>, then the machine has called \<open>Exit\<close> after \<open>D\<close> and
  at the latest 30 seconds after it.\<close>

theorem watchdog_kills_within_tick:
  assumes "CtxDone \<notin> ev ` set its"
    and ticks: "\<And>k. 0 < k \<Longrightarrow> t0 + int k * (30 * Second) \<le> T \<Longrightarrow>
      \<exists>it \<in> set its. ev it = Tick \<and> instant it = t0 + int k * (30 * Second)"
    and silent: "\<And>it t. it \<in> set its \<Longrightarrow> ev it = Next t \<Longrightarrow> t \<le> D"
    and "t0 + 2 * Minute \<le> D" "D + 30 * Second \<le> T"
  shows "\<exists>t \<in> set (exits (watchdog its (watchdog_init t0))). D < t \<and> t \<le> D + 30 * Second"
proof -
  obtain k :: nat where k: "D < t0 + int k * (30 * Second)" "t0 + int k * (30 * Second) \<le> D + 30 * Second"
    using multiple_in_interval [of "30 * Second" t0 D] assms(4) by (auto simp: duration_defs)
  then obtain it where it: "it \<in> set its" "instant it = t0 + int k * (30 * Second)"
    using ticks [of k] assms(4,5) by (cases k) (auto simp: duration_defs)
  then obtain n where n: "n < length its" "its ! n = it" by (auto simp: in_set_conv_nth)
  have "in_force (t0 + 2 * Minute) (take (Suc n) its) \<le> D"
    using silent by (intro in_force_le [OF assms(4)]) (auto dest: in_set_takeD)
  then have "instant it \<in> set (exits (watchdog its (watchdog_init t0)))"
    using n it(2) k(1) by (force simp: watchdog_exits [OF assms(1)] watchdog_init_def)
  then show ?thesis using k it(2) by auto
qed

theorem watchdog_kills_within_tick_witness:
  "\<exists>t \<in> set (exits (watchdog (map (\<lambda>k. demo_iter (int k * (30 * Second)) Tick) [1, 2, 3, 4, 5]) (watchdog_init 0))).
     120 * Second < t \<and> t \<le> 120 * Second + 30 * Second"
proof (rule watchdog_kills_within_tick [where T = "150 * Second" and ?t0.0 = 0])
  fix k :: nat
  assume "0 < k" "0 + int k * (30 * Second) \<le> 150 * Second"
  then have "k \<in> {1, 2, 3, 4, 5}" by (auto simp: duration_defs)
  then show "\<exists>it \<in> set (map (\<lambda>k. demo_iter (int k * (30 * Second)) Tick) [1, 2, 3, 4, 5]).
      ev it = Tick \<and> instant it = 0 + int k * (30 * Second)"
    by (auto simp: demo_iter_def)
qed (auto simp: demo_iter_def duration_defs)

subsection \<open>Health\<close>

text \<open>The health a machine reports is the verdict of its last successful memory reading: a reading over
  95 percent makes it unhealthy, one at or below makes it healthy again, and a failed reading changes
  nothing. Readings that count are more than a minute apart.\<close>

lemma watchdog_health:
  "let d' = watchdog_check now mem d;
       due = (case lastMemProfile d of None \<Rightarrow> True | Some t \<Rightarrow> now - t > Minute)
   in wd_healthy d' = (case mem of Inr used \<Rightarrow> if due then used \<le> 95 else wd_healthy d | Inl e \<Rightarrow> wd_healthy d) \<and>
      lastMemProfile d' = (if due \<and> (\<exists>u. mem = Inr u) then Some now else lastMemProfile d)"
  by (auto simp: watchdog_check_def Let_def memProfilePeriod_def split: sum.splits option.splits)

text \<open>A keepalive reply is consistent with the watchdog: the deadline it sends is the caller's interval from the
  call on, the reply is what is left of that interval when the watchdog received it, and a watchdog
  iteration that receives it in time does not exit.\<close>

theorem Keepalive_accepted:
  assumes "Keepalive nxt now (Inr recv) h = Inr (reply, t)" and "now \<le> recv" "recv \<le> now + nxt"
  shows "recv + kr_Next reply = now + nxt \<and> 0 \<le> kr_Next reply \<and> kr_Next reply \<le> nxt \<and>
    exits (watchdog [\<lparr>instant = recv, ev = Next t, vm = mem\<rparr>] d) = exits d"
  using assms by (auto simp: Keepalive_def Let_def watchdog_check_exits)

theorem Keepalive_accepted_witness:
  "exits (watchdog [\<lparr>instant = 2, ev = Next 61, vm = Inr 10\<rparr>] (watchdog_init 0)) = []"
  using Keepalive_accepted [of 60 1 2 True "\<lparr>kr_Next = 59, kr_Healthy = True\<rparr>" 61 "Inr 10" "watchdog_init 0"]
  by (simp add: Keepalive_def watchdog_init_def)

subsection \<open>The next image\<close>

text \<open>C29. Uploading a binary: on success the recorded binary is exactly the upload, executable, is what \<open>GetBinary\<close>
  streams and what \<open>Exec\<close> runs with the arguments and environment set before; on failure the recorded
  binary is unchanged.\<close>

theorem Setbinary_upload:
  fixes s :: "('v, 'w, 'd) sup"
  assumes "TempFile fs \<noteq> Inr ''''" and "Setbinary fs bin s = (e, s')"
  shows "case e of
      None \<Rightarrow>
        files s' (binaryPath s') = Some \<lparr>file_content = fst (ReadAll bin), file_mode = 0x1ED\<rparr> \<and>
        GetBinary s' = (MReturn None :: 'v replyv \<Rightarrow> _) (ReplyStream (Some \<lparr>content = fst (ReadAll bin), read_err = None, needFlush = False\<rparr>)) \<and>
        Exec env (snd (Setenv env' (snd (Setargs args s')))) = Inr (binaryPath s', args, env @ env')
    | Some x \<Rightarrow> binaryPath s' = binaryPath s"
  using assms
  by (cases "file_Close fs"; cases "Chmod fs"; cases "snd (ReadAll bin)")
     (auto simp: Setbinary_def GetBinary_def Exec_def Setenv_def Setargs_def Let_def
      split: sum.splits prod.splits option.splits dest: sym [of "Some _"])

definition demo_sup :: "(nat, nat, nat) sup" where
  "demo_sup = StartSupervisor [''prog''] NewServer"

theorem Setbinary_upload_witness:
  "\<exists>s'. Setbinary \<lparr>TempFile = Inr ''/tmp/x'', file_Close = None, Chmod = None\<rparr> [(''el'', None), (''f'', Some EOF)] demo_sup = (None, s') \<and>
     files s' (binaryPath s') = Some \<lparr>file_content = ''elf'', file_mode = 0x1ED\<rparr> \<and>
     Exec [''A=1''] (snd (Setenv [''B=2''] (snd (Setargs [''x''] s')))) = Inr (binaryPath s', [''x''], [''A=1'', ''B=2''])"
proof -
  obtain s' where s': "Setbinary \<lparr>TempFile = Inr ''/tmp/x'', file_Close = None, Chmod = None\<rparr> [(''el'', None), (''f'', Some EOF)] demo_sup = (None, s')"
    by (simp add: Setbinary_def Let_def)
  show ?thesis using Setbinary_upload [OF _ s', of "[''A=1'']" "[''B=2'']" "[''x'']"] s' by simp
qed

text \<open>A failed upload leaves its temporary file behind: when reading the binary fails, the file written so far
  stays in the file system, whereas a failure after it removes the file.\<close>

theorem Setbinary_leaks_partial_upload:
  assumes "TempFile fs = Inr path" and "ReadAll bin = (b, Some e)"
  shows "files (snd (Setbinary fs bin s)) path = Some \<lparr>file_content = b, file_mode = 0x180\<rparr>"
  using assms by (simp add: Setbinary_def Let_def)

theorem Setbinary_leaks_partial_upload_witness:
  "files (snd (Setbinary \<lparr>TempFile = Inr ''/tmp/x'', file_Close = None, Chmod = None\<rparr> [(''el'', Some Canceled)] demo_sup)) ''/tmp/x''
     = Some \<lparr>file_content = ''el'', file_mode = 0x180\<rparr>"
  by (rule Setbinary_leaks_partial_upload) simp_all

text \<open>\<open>GetBinary\<close> as the server's reflection sees it; the supervisor's process is the state it acts on.\<close>

definition GetBinary_method :: "('v, ('u, 'w, 'd) sup) rmethod" where
  "GetBinary_method = \<lparr>Name = ''GetBinary'', PkgPath = '''',
     In = [TPtr (TNamed ''Supervisor''), TContext, TNamed ''struct {}'', TPtr TReadCloser], Out = [TError],
     Func = (\<lambda>a i s. (GetBinary s, s))\<rparr>"

text \<open>\<open>GetBinary\<close> of a binary that is gone from disk does not deliver the error of opening it: a nil file is stored
  behind the reply pointer although the call fails, so the server streams that, and the client
  reports what decoding an empty body as an error gives.\<close>

theorem GetBinary_open_error_lost:
  assumes "reaches L url_path status_text s E" "CHR ''.'' \<notin> set svc" "CHR ''/'' \<notin> set svc"
    and "url_path (TrimRight addr (CHR ''/'') @ prefix c @ svc @ ''.GetBinary'') = prefix c @ svc @ ''.GetBinary''"
    and "last (prefix c) = CHR ''/''" "prefix c \<noteq> []"
    and "s svc = Some methods" "methods ''GetBinary'' = Some GetBinary_method"
    and "call_body E arg = Inr (n, t, b)" "gob_dec (cgob E) (TNamed ''struct {}'') b = Inr v"
    and "binaryPath sp \<noteq> ''''" "files sp (binaryPath sp) = None"
  shows "\<exists>stat c'. Call E addr (svc @ ''.GetBinary'') arg RReadCloser c sp =
    ((Some (decodeError E (svc @ ''.GetBinary'') [([], None)]), None), stat, c', sp)"
proof -
  have "read_arg (cgob E) (m_arg GetBinary_method) b = Inr (ArgVal v)"
    using assms(10) by (simp add: read_arg_def m_arg_def GetBinary_method_def)
  moreover have "Func GetBinary_method (ArgVal v) (init_reply (m_reply GetBinary_method)) sp =
      (MReturn (Some (Errorf ''open %s: no such file or directory'' [Str (binaryPath sp)])) (ReplyStream (Some nil_file)), sp)"
    using assms(11,12) by (simp add: GetBinary_method_def GetBinary_def)
  ultimately show ?thesis
    using stream_error_replaced [of L url_path status_text s E addr c svc "''GetBinary''" methods GetBinary_method arg n t b
        "ArgVal v" sp _ nil_file sp] assms by (simp add: nil_file_def)
qed

definition demo_sup_server :: "(nat, (nat, nat, nat) sup) server" where
  "demo_sup_server = NewServer(''Supervisor'' \<mapsto> service_Init [GetBinary_method] Map.empty)"

theorem GetBinary_open_error_lost_witness:
  "\<exists>stat c'. Call (demo_link demo_sup_server) ''http://h/'' (''Supervisor'' @ ''.GetBinary'') (CVal 0) RReadCloser
      (NewClient ''/bigrpc/'') (demo_sup\<lparr>binaryPath := ''/tmp/x''\<rparr>) =
    ((Some (decodeError (demo_link demo_sup_server) (''Supervisor'' @ ''.GetBinary'') [([], None)]), None), stat, c',
     demo_sup\<lparr>binaryPath := ''/tmp/x''\<rparr>)"
  by (rule GetBinary_open_error_lost [OF demo_link_reaches, where methods = "service_Init [GetBinary_method] Map.empty"
        and b = "''''" and v = 0 and n = 0 and t = gobContentType])
     (simp_all add: demo_url_path_def TrimRight_def NewClient_def demo_sup_server_def GetBinary_method_def eligible_def
        call_body_def demo_link_sel demo_gob_def demo_sup_def StartSupervisor_def)

text \<open>The binding of a variable in an environment where the first definition counts, as it does for
  \<open>os.Getenv\<close> in a Go program.\<close>

definition env_key :: "string \<Rightarrow> string" where
  "env_key kv = takeWhile (\<lambda>c. c \<noteq> CHR ''='') kv"

definition getenv_first :: "string list \<Rightarrow> string \<Rightarrow> string option" where
  "getenv_first env k = List.find (\<lambda>kv. env_key kv = k) env"

lemma find_append_left: "List.find P xs = Some x \<Longrightarrow> List.find P (xs @ ys) = Some x"
  by (induction xs) (auto split: if_splits)

text \<open>The environment \<open>Exec\<close> passes on keeps the process's own definitions in front of those of
  \<open>Setenv\<close>: a variable that is already defined keeps its old value for a program that reads the first
  definition, whatever \<open>Setenv\<close> says of it.\<close>

theorem Exec_env_not_overridden:
  assumes "Exec os_environ s = Inr (path, args, environ)" and "getenv_first os_environ k = Some kv"
  shows "getenv_first environ k = Some kv"
  using assms by (auto simp: Exec_def Let_def getenv_first_def find_append_left split: if_splits)

theorem Exec_env_not_overridden_witness:
  "getenv_first [''A=1'', ''A=2''] ''A'' = Some ''A=1''"
  using Exec_env_not_overridden [of "[''A=1'']" "demo_sup\<lparr>binaryPath := ''/tmp/x'', sv_environ := [''A=2'']\<rparr>" "''/tmp/x''"
      "[''prog'']" "[''A=1'', ''A=2'']" "''A''" "''A=1''"]
  by (simp add: Exec_def demo_sup_def StartSupervisor_def getenv_first_def env_key_def)

text \<open>The digest a process reports never changes: whatever the binary on disk has become, every later
  \<open>Info\<close> gives the digest of the first one, even if that first reading failed.\<close>

theorem LocalInfo_stable:
  "let (i, s') = LocalInfo goos goarch bin digester s
   in LocalInfo goos goarch bin' digester s' = (i, s')"
  by (auto simp: LocalInfo_def Let_def split: sum.splits option.splits prod.splits)

end
