(* ===== verification/Bigmachine.thy ===== *)
theory Bigmachine
  imports Machine_Call Supervisor "HOL-Library.AList" "HOL-Library.List_Lexorder" "HOL-Library.Char_ord"
begin

text \<open>
  The bigmachine session (\<open>bigmachine.go\<close>, \<open>system.go\<close>): the registry of systems, \<open>Start\<close> and
  \<open>run\<close>, the table of machines with \<open>Dial\<close>, \<open>B.Start\<close> and \<open>Machines\<close>, \<open>Shutdown\<close>, and the merged profile
  index. A \<open>*Machine\<close> is a reference into the list \<open>heap\<close>. What happens to the table, by whichever
  goroutine, is a list of \<open>bact\<close>s: dialing, starting, and the end of the goroutine \<open>Dial\<close> leaves
  waiting for its machine to stop.
\<close>

subsection \<open>Registry\<close>

definition RegisterSystem :: "string \<Rightarrow> 's \<Rightarrow> (string \<rightharpoonup> 's) \<Rightarrow> (string \<rightharpoonup> 's) outcome" where
  "RegisterSystem name system systems =
     (if systems name \<noteq> None then Panic (''system '' @ name @ '' already registered'')
      else Ok (systems(name \<mapsto> system)))"

text \<open>\<open>Init\<close>: nothing outside a worker; in one, the system to start, which must be registered.\<close>

definition bigmachine_Init :: "string \<Rightarrow> (string \<rightharpoonup> 's) \<Rightarrow> 's option outcome" where
  "bigmachine_Init env_system systems =
     (if env_system = '''' then Ok None
      else case systems env_system of
             None \<Rightarrow> Panic (''system '' @ env_system @ '' not found'')
           | Some s \<Rightarrow> Ok (Some s))"

subsection \<open>B\<close>

record 'i B =
  b_index :: int
  b_name :: string
  machines :: "string \<rightharpoonup> nat"
  driver :: bool
  running :: bool
  heap :: "'i machine list"
  watchers :: "(nat \<times> string) list"    \<comment> \<open>goroutines of \<open>Dial\<close>: machine and address\<close>

type_synonym 'i boption = "'i B \<Rightarrow> 'i B"

definition Name_option :: "string \<Rightarrow> 'i boption" where
  "Name_option name b = b\<lparr>b_name := name\<rparr>"

definition RpcPrefix :: string where "RpcPrefix = ''/bigrpc/''"

definition logSyncMarker :: string where
  "logSyncMarker = ''========'' @ [CHR 0x5C] @ ''/'' @ [CHR 0x5C] @ ''/ Bigmachine Done '' @ [CHR 0x5C] @ ''/'' @ [CHR 0x5C] @ ''/========''"

text \<open>\<open>run\<close> by the way it goes on: back to the driver, serving as a machine (with its RPC server), or the
  process ends. \<open>init_err\<close> is the result of \<open>System.Init\<close>, \<open>supm\<close> the methods of the supervisor (it has no \<open>Init\<close> of its own).\<close>

datatype ('i, 'v, 'w) run_result = RDriver "'i B" | RMachine "'i B" "('v, 'w) server" | RFatal string "err option"

definition B_run :: "string \<Rightarrow> err option \<Rightarrow> ('v, 'w) rmethod list \<Rightarrow> 'i B \<Rightarrow> ('i, 'v, 'w) run_result" where
  "B_run mode init_err supm b =
     (if mode \<noteq> '''' \<and> mode \<noteq> ''machine'' then RFatal (''invalid bigmachine mode '' @ mode) None
      else
        (let b = (if mode = '''' then b\<lparr>driver := True\<rparr> else b)
         in case init_err of
              Some e \<Rightarrow> RFatal '''' (Some e)
            | None \<Rightarrow>
                (let b = b\<lparr>running := True\<rparr>
                 in if driver b then RDriver b
                    else case Register ''Supervisor'' supm NewServer of
                           (Some e, srv) \<Rightarrow> RFatal '''' (Some e)
                         | (None, srv) \<Rightarrow> RMachine b srv)))"

text \<open>\<open>Start\<close>: the session, the next index, and what is published about it.\<close>

definition B_new :: "int \<Rightarrow> 'i boption list \<Rightarrow> 'i B" where
  "B_new nextBIndex opts =
     fold (\<lambda>opt b. opt b) opts
       \<lparr>b_index = nextBIndex, b_name = '''', machines = Map.empty, driver = False, running = False,
        heap = [], watchers = []\<rparr>"

definition pad2 :: "int \<Rightarrow> string" where
  "pad2 n = (if 0 \<le> n \<and> n < 10 then CHR ''0'' # show_int n else show_int n)"

definition dump_names :: "string \<Rightarrow> 'i B \<Rightarrow> string list" where
  "dump_names system_name b =
     (if system_name \<noteq> ''testsystem'' then
        (let pfx = ''bigmachine-'' @ pad2 (b_index b) @ ''-'';
             pfx = (if b_name b \<noteq> '''' then pfx @ b_name b @ ''-'' else pfx)
         in map (\<lambda>s. pfx @ s) [''status'', ''pprof-goroutine'', ''pprof-heap'', ''pprof-mutex'', ''pprof-profile''])
      else [])"

definition publishes_machines :: "string \<Rightarrow> bool \<Rightarrow> bool" where
  "publishes_machines system_name already \<longleftrightarrow> system_name \<noteq> ''testsystem'' \<and> \<not> already"

definition bigmachine_Start :: "string \<Rightarrow> err option \<Rightarrow> ('v, 'w) rmethod list \<Rightarrow> 'i boption list \<Rightarrow> int
    \<Rightarrow> ('i, 'v, 'w) run_result \<times> int" where
  "bigmachine_Start mode init_err supm opts nextBIndex =
     (B_run mode init_err supm (B_new nextBIndex opts), nextBIndex + 1)"

subsection \<open>Parameters\<close>

datatype 'i param = Services "(string \<times> 'i) list" | Environ "string list"

fun applyParam :: "'i param \<Rightarrow> 'i machine \<Rightarrow> 'i machine" where
  "applyParam (Services s) m = m\<lparr>services := fold (\<lambda>(name, iface). AList.update name iface) s (services m)\<rparr>"
| "applyParam (Environ e) m = m\<lparr>environ := environ m @ e\<rparr>"

definition applyParams :: "'i param list \<Rightarrow> 'i machine \<Rightarrow> 'i machine" where
  "applyParams ps m = fold applyParam ps m"

subsection \<open>The table of machines\<close>

definition Dial :: "duration \<times> duration \<times> duration \<Rightarrow> string \<Rightarrow> 'i B \<Rightarrow> nat \<times> 'i B" where
  "Dial keepaliveConfig addr b =
     (case machines b addr of
        Some r \<Rightarrow> (r, b)
      | None \<Rightarrow>
          (let r = length (heap b); m = Machine_start keepaliveConfig (new_machine addr)
           in (r, b\<lparr>machines := (machines b)(addr \<mapsto> r), heap := heap b @ [m],
                    watchers := watchers b @ [(r, addr)]\<rparr>)))"

text \<open>The goroutine of \<open>Dial\<close> after its machine has stopped.\<close>

definition Dial_stopped :: "nat \<times> string \<Rightarrow> 'i B \<Rightarrow> 'i B" where
  "Dial_stopped ra b =
     (if ra \<in> set (watchers b)
      then b\<lparr>machines := (machines b)(snd ra := None), watchers := remove1 ra (watchers b)\<rparr> else b)"

text \<open>\<open>B.Start\<close> over the machines the system has started; the loop stops at a machine with no services.
  \<open>tailDone\<close> is the channel made for each.\<close>

fun start_machines :: "duration \<times> duration \<times> duration \<Rightarrow> 'i param list \<Rightarrow> 'i machine list \<Rightarrow> 'i B
    \<Rightarrow> err option \<times> nat list \<times> 'i B" where
  "start_machines cfg ps [] b = (None, [], b)"
| "start_machines cfg ps (m # ms) b =
     (let m = applyParams ps m
      in if services m = [] then (Some (ErrE [Kind Invalid, Str ''no services provided'']), [], b)
         else
           (let m = Machine_start cfg (m\<lparr>owner := True, tailDone := Some (nextId m), nextId := Suc (nextId m)\<rparr>);
                r = length (heap b);
                b = b\<lparr>heap := heap b @ [m], machines := (machines b)(Addr m \<mapsto> r)\<rparr>
            in case start_machines cfg ps ms b of (e, rs, b) \<Rightarrow> (e, r # rs, b)))"

definition B_Start :: "duration \<times> duration \<times> duration \<Rightarrow> 'i param list \<Rightarrow> err + 'i machine list \<Rightarrow> 'i B
    \<Rightarrow> (err + nat list) \<times> 'i B" where
  "B_Start cfg ps system_start b =
     (case system_start of
        Inl e \<Rightarrow> (Inl e, b)
      | Inr ms \<Rightarrow>
          if ms = [] then (Inl (ErrE [Kind Unavailable, Str ''no machines started'']), b)
          else case start_machines cfg ps ms b of
                 (Some e, rs, b) \<Rightarrow> (Inl e, b)
               | (None, rs, b) \<Rightarrow> (Inr rs, b))"

definition B_Machines :: "'i B \<Rightarrow> nat set" where
  "B_Machines b = ran (machines b)"

subsection \<open>Shutdown\<close>

text \<open>The calls \<open>shutdownAllMachines\<close> makes, one after the other: to which machine, when, and with what. A call is
  best effort, its error is only logged; \<open>ret m t\<close> is the instant at which a call to \<open>m\<close> begun at \<open>t\<close> returns, and None when it never
  does, as \<open>Call\<close> may under a context without a deadline on a machine that does not get to \<open>Running\<close>. The second component is the
  instant after the last call, None when one of them never returned.\<close>

type_synonym 'i scall = "string \<times> time \<times> string \<times> 'i rarg"

fun shutdown_calls :: "('i machine \<Rightarrow> time \<Rightarrow> time option) \<Rightarrow> 'i machine list \<Rightarrow> time \<Rightarrow> 'i scall list \<times> time option" where
  "shutdown_calls ret [] t = ([], Some t)"
| "shutdown_calls ret (m # ms) t =
     (let c = (Addr m, t, ''Supervisor.Shutdown'', RShutdown Second logSyncMarker)
      in case ret m t of
           None \<Rightarrow> ([c], None)
         | Some t \<Rightarrow> (case shutdown_calls ret ms t of (cs, r) \<Rightarrow> (c # cs, r)))"

text \<open>The wait for a machine's log: \<open>closed_at\<close> tells when the channel of a machine is closed, if ever; a machine that
  was dialed has no channel.\<close>

definition tail_wait :: "time \<Rightarrow> (string \<Rightarrow> nat \<Rightarrow> time option) \<Rightarrow> 'i machine \<Rightarrow> time" where
  "tail_wait deadline closed_at m =
     (case tailDone m of
        None \<Rightarrow> deadline
      | Some c \<Rightarrow> (case closed_at (Addr m) c of None \<Rightarrow> deadline | Some t \<Rightarrow> min t deadline))"

text \<open>The limit runs from the end of the calls; the waits for the logs run beside each other.\<close>

definition shutdownAllMachines :: "('i machine \<Rightarrow> time \<Rightarrow> time option) \<Rightarrow> time \<Rightarrow> duration \<Rightarrow> (string \<Rightarrow> nat \<Rightarrow> time option) \<Rightarrow> 'i machine list
    \<Rightarrow> 'i scall list \<times> time option" where
  "shutdownAllMachines ret now duration closed_at ms =
     (case shutdown_calls ret ms now of
        (calls, None) \<Rightarrow> (calls, None)
      | (calls, Some t) \<Rightarrow> (calls, Some (fold (\<lambda>m u. max u (tail_wait (t + duration) closed_at m)) ms t)))"

text \<open>\<open>Shutdown\<close>: the calls and the instant at which the system's own \<open>Shutdown\<close> is called, if it ever is, with the state that leaves.\<close>

definition B_Shutdown :: "('i machine \<Rightarrow> time \<Rightarrow> time option) \<Rightarrow> time \<Rightarrow> (string \<Rightarrow> nat \<Rightarrow> time option) \<Rightarrow> ('s \<Rightarrow> 's) \<Rightarrow> 'i machine list \<Rightarrow> 's
    \<Rightarrow> 'i scall list \<times> time option \<times> 's" where
  "B_Shutdown ret now closed_at sys_Shutdown ms s =
     (case shutdownAllMachines ret now (20 * Second) closed_at ms of
        (calls, None) \<Rightarrow> (calls, None, s)
      | (calls, Some t) \<Rightarrow> (calls, Some t, sys_Shutdown s))"

subsection \<open>The merged profile index\<close>

text \<open>The profiles of the machines that answered, by address.\<close>

fun collect_stats :: "(string \<times> (err + profileStat list)) list \<Rightarrow> (string \<times> profileStat list) list" where
  "collect_stats [] = []"
| "collect_stats ((addr, Inl e) # rs) = collect_stats rs"
| "collect_stats ((addr, Inr ps) # rs) = (addr, ps) # collect_stats rs"

definition aggregate_add :: "profileStat \<Rightarrow> (string \<times> profileStat) list \<Rightarrow> (string \<times> profileStat) list" where
  "aggregate_add p agg =
     AList.update (ps_Name p)
       \<lparr>ps_Name = ps_Name p,
        ps_Count = (case map_of agg (ps_Name p) of None \<Rightarrow> 0 | Some q \<Rightarrow> ps_Count q) + ps_Count p\<rparr> agg"

definition aggregate :: "(string \<times> profileStat list) list \<Rightarrow> (string \<times> profileStat) list" where
  "aggregate stats = fold (\<lambda>(addr, mstats). fold aggregate_add mstats) stats []"

definition pprof_all :: "(string \<times> profileStat list) list \<Rightarrow> profileStat list" where
  "pprof_all stats = sort_key ps_Name (map snd (aggregate stats))"

datatype index_result = ServeProfile string | ServeIndex "profileStat list" "(string \<times> profileStat list) list"

definition pprofIndex :: "string \<Rightarrow> (string \<times> (err + profileStat list)) list \<Rightarrow> index_result" where
  "pprofIndex path replies =
     (let which = TrimPrefix path ''/debug/bigmachine/pprof/''
      in if which \<noteq> '''' then ServeProfile which
         else (let stats = collect_stats replies in ServeIndex (pprof_all stats) stats))"

definition HandleDebugPrefix :: "string \<Rightarrow> (string \<times> string) list" where
  "HandleDebugPrefix pfx = [(pfx @ ''pprof/'', ''pprofIndex''), (pfx @ ''status'', ''statusHandler'')]"

definition HandleDebug :: "(string \<times> string) list" where
  "HandleDebug = HandleDebugPrefix ''/debug/bigmachine/''"

subsection \<open>Histories of the table\<close>

datatype 'i bact =
    BDial "duration \<times> duration \<times> duration" string
  | BStart "duration \<times> duration \<times> duration" "'i param list" "err + 'i machine list"
  | BDialStopped "nat \<times> string"

fun run_bact :: "'i bact \<Rightarrow> 'i B \<Rightarrow> 'i B" where
  "run_bact (BDial cfg addr) b = snd (Dial cfg addr b)"
| "run_bact (BStart cfg ps r) b = snd (B_Start cfg ps r b)"
| "run_bact (BDialStopped ra) b = Dial_stopped ra b"

definition run_bacts :: "'i bact list \<Rightarrow> 'i B \<Rightarrow> 'i B" where
  "run_bacts as b = fold run_bact as b"

definition b_inv :: "'i B \<Rightarrow> bool" where
  "b_inv b \<longleftrightarrow>
     (\<forall>addr r. machines b addr = Some r \<longrightarrow> r < length (heap b) \<and> Addr (heap b ! r) = addr) \<and>
     (\<forall>(r, addr) \<in> set (watchers b). r < length (heap b) \<and> Addr (heap b ! r) = addr \<and> \<not> owner (heap b ! r))"

lemma Machine_start_sel [simp]:
  "Addr (Machine_start cfg m) = Addr m" "owner (Machine_start cfg m) = owner m"
  "services (Machine_start cfg m) = services m" "environ (Machine_start cfg m) = environ m"
  "tailDone (Machine_start cfg m) = tailDone m"
  by (simp_all add: Machine_start_def Let_def split: prod.splits)

lemma applyParam_sel [simp]:
  "Addr (applyParam p m) = Addr m" "owner (applyParam p m) = owner m" "state (applyParam p m) = state m"
  "keepalivePeriod (applyParam p m) = keepalivePeriod m"
  by (cases p; simp)+

lemma applyParams_sel [simp]:
  "Addr (applyParams ps m) = Addr m" "owner (applyParams ps m) = owner m" "state (applyParams ps m) = state m"
  "keepalivePeriod (applyParams ps m) = keepalivePeriod m"
  unfolding applyParams_def by (induction ps arbitrary: m) auto

lemma b_inv_new: "machines b = Map.empty \<Longrightarrow> watchers b = [] \<Longrightarrow> b_inv b"
  by (simp add: b_inv_def)

text \<open>Adding a machine at the end of the heap.\<close>

lemma b_inv_add:
  assumes "b_inv b" "Addr m = addr"
  shows "b_inv (b\<lparr>heap := heap b @ [m], machines := (machines b)(addr \<mapsto> length (heap b))\<rparr>)"
  using assms by (auto simp: b_inv_def nth_append intro: less_SucI)

lemma b_inv_Dial:
  assumes "b_inv b"
  shows "b_inv (snd (Dial cfg addr b))"
proof (cases "machines b addr")
  case None
  let ?m = "Machine_start cfg (new_machine addr)"
  have m: "Addr ?m = addr" "\<not> owner ?m" by (simp_all add: new_machine_def)
  have "snd (Dial cfg addr b) =
      (b\<lparr>heap := heap b @ [?m], machines := (machines b)(addr \<mapsto> length (heap b))\<rparr>)
         \<lparr>watchers := watchers b @ [(length (heap b), addr)]\<rparr>"
    using None by (simp add: Dial_def Let_def)
  then show ?thesis using b_inv_add [OF assms m(1)] m by (auto simp: b_inv_def)
qed (use assms in \<open>simp add: Dial_def\<close>)

lemma b_inv_start_machines: "b_inv b \<Longrightarrow> b_inv (snd (snd (start_machines cfg ps ms b)))"
proof (induction ms arbitrary: b)
  case (Cons m ms)
  let ?m = "applyParams ps m"
  let ?m' = "Machine_start cfg (?m\<lparr>owner := True, tailDone := Some (nextId ?m), nextId := Suc (nextId ?m)\<rparr>)"
  show ?case
  proof (cases "services ?m = []")
    case False
    have "b_inv (b\<lparr>heap := heap b @ [?m'], machines := (machines b)(Addr ?m' \<mapsto> length (heap b))\<rparr>)"
      by (rule b_inv_add [OF Cons.prems]) simp
    from Cons.IH [OF this] show ?thesis using False by (simp add: Let_def case_prod_beta)
  qed (use Cons.prems in \<open>simp add: Let_def\<close>)
qed simp

lemma b_inv_Dial_stopped: "b_inv b \<Longrightarrow> b_inv (Dial_stopped ra b)"
  by (cases ra) (auto simp: b_inv_def Dial_stopped_def dest: set_remove1_subset [THEN subsetD] split: if_splits)

lemma B_Start_cases:
  obtains "snd (B_Start cfg ps r b) = b"
  | ms where "r = Inr ms" "snd (B_Start cfg ps r b) = snd (snd (start_machines cfg ps ms b))"
  by (cases r) (auto simp: B_Start_def split: prod.splits option.splits)

lemma b_inv_run_bact: "b_inv b \<Longrightarrow> b_inv (run_bact a b)"
proof (cases a)
  case (BStart cfg ps r)
  assume "b_inv b"
  then show ?thesis using BStart b_inv_start_machines [of b cfg ps]
    by (cases rule: B_Start_cases [where cfg = cfg and ps = ps and r = r and b = b]) auto
qed (auto simp: b_inv_Dial b_inv_Dial_stopped)

lemma b_inv_run_bacts: "b_inv b \<Longrightarrow> b_inv (run_bacts as b)"
  unfolding run_bacts_def by (induction as arbitrary: b) (auto simp: b_inv_run_bact)

lemma B_new_inv: "b_inv (B_new i (map Name_option names) :: 'i B)"
proof -
  have "machines (fold (\<lambda>opt b. opt b) (map Name_option names) b) = machines b \<and>
        watchers (fold (\<lambda>opt b. opt b) (map Name_option names) b) = watchers b" for b :: "'i B"
    by (induction names arbitrary: b) (auto simp: Name_option_def)
  then show ?thesis by (intro b_inv_new) (simp_all add: B_new_def)
qed

text \<open>C21. Whatever is dialed, started and stopped, in whatever order: the table files every machine under its own
  address.\<close>

theorem table_addresses:
  "machines (run_bacts as (B_new i (map Name_option names) :: 'i B)) addr = Some r \<Longrightarrow>
   r < length (heap (run_bacts as (B_new i (map Name_option names) :: 'i B))) \<and>
   Addr (heap (run_bacts as (B_new i (map Name_option names) :: 'i B)) ! r) = addr"
  using b_inv_run_bacts [OF B_new_inv, of as i names] by (simp add: b_inv_def)

theorem table_addresses_witness:
  "Addr (heap (run_bacts [BDial (1, 1, 1) ''a''] (B_new 0 (map Name_option []) :: unit B)) ! 0) = ''a''"
  using table_addresses [of "[BDial (1, 1, 1) ''a''] :: unit bact list" 0 "[]" "''a''" 0]
  by (simp add: run_bacts_def B_new_def Dial_def Let_def)

subsection \<open>Dialing\<close>

lemma start_machines_keeps:
  assumes "addr \<notin> Addr ` set ms"
  shows "machines (snd (snd (start_machines cfg ps ms b))) addr = machines b addr"
  using assms
proof (induction ms arbitrary: b)
  case (Cons m ms)
  then show ?case by (auto simp: Let_def case_prod_beta)
qed simp

text \<open>What leaves an address alone: dialing, starting machines elsewhere, a stop elsewhere.\<close>

fun spares :: "string \<Rightarrow> 'i bact \<Rightarrow> bool" where
  "spares addr (BDial cfg a) \<longleftrightarrow> True"
| "spares addr (BStart cfg ps (Inl e)) \<longleftrightarrow> True"
| "spares addr (BStart cfg ps (Inr ms)) \<longleftrightarrow> addr \<notin> Addr ` set ms"
| "spares addr (BDialStopped ra) \<longleftrightarrow> snd ra \<noteq> addr"

lemma spares_run_bact:
  assumes "spares addr a" "machines b addr = Some r"
  shows "machines (run_bact a b) addr = Some r"
  using assms
proof (induction addr a rule: spares.induct)
  case (3 addr cfg ps ms)
  then show ?case using start_machines_keeps [of addr ms cfg ps b]
    by (auto simp: B_Start_def split: prod.splits option.splits)
qed (auto simp: Dial_def B_Start_def Dial_stopped_def Let_def split: option.splits)

lemma spares_run_bacts:
  "(\<forall>a \<in> set as. spares addr a) \<Longrightarrow> machines b addr = Some r \<Longrightarrow> machines (run_bacts as b) addr = Some r"
  unfolding run_bacts_def by (induction as arbitrary: b) (auto simp: spares_run_bact)

lemma Dial_registers: "machines (snd (Dial cfg addr b)) addr = Some (fst (Dial cfg addr b))"
  by (auto simp: Dial_def Let_def split: option.splits)

text \<open>Dialing an address again gives the same machine as long as the machine there has neither stopped nor been
  replaced, whatever else is dialed, started or stopped meanwhile.\<close>

theorem Dial_stable:
  assumes "\<forall>a \<in> set as. spares addr a"
  shows "fst (Dial cfg' addr (run_bacts as (snd (Dial cfg addr b)))) = fst (Dial cfg addr b)"
  using spares_run_bacts [OF assms Dial_registers, of cfg b] by (simp add: Dial_def)

theorem Dial_stable_witness:
  "fst (Dial (1, 1, 1) ''a'' (run_bacts [BDial (1, 1, 1) ''b'', BDialStopped (1, ''b'')] (snd (Dial (1, 1, 1) ''a'' (B_new 0 [] :: unit B))))) = 0"
  using Dial_stable [of "[BDial (1, 1, 1) ''b'', BDialStopped (1, ''b'')]" "''a''" "(1, 1, 1)" "(1, 1, 1)" "B_new 0 [] :: unit B"]
  by (simp add: B_new_def Dial_def Let_def)

text \<open>The goroutine that \<open>Dial\<close> leaves behind removes whatever machine is at its address when the dialed one
  stops: a machine started at the same address meanwhile is dropped from the table although it is owned and up,
  and \<open>Shutdown\<close> passes it over.\<close>

theorem Dial_drops_successor:
  assumes "machines b addr = None" and "Addr m = addr" "services (applyParams ps m) \<noteq> []"
  shows "let b1 = snd (Dial cfg addr b);
             (rs, b2) = B_Start cfg ps (Inr [m]) b1;
             b3 = Dial_stopped (length (heap b), addr) b2
         in rs = Inr [Suc (length (heap b))] \<and> machines b2 addr = Some (Suc (length (heap b))) \<and>
            owner (heap b2 ! Suc (length (heap b))) \<and> machines b3 addr = None"
  using assms by (simp add: Dial_def B_Start_def Dial_stopped_def Let_def nth_append)

theorem Dial_drops_successor_witness:
  "machines (run_bacts [BDial (1, 1, 1) ''a'', BStart (1, 1, 1) [Services [(''S'', ())]] (Inr [new_machine ''a'']),
      BDialStopped (0, ''a'')] (B_new 0 [] :: unit B)) ''a'' = None"
  using Dial_drops_successor [of "B_new 0 [] :: unit B" "''a''" "new_machine ''a''" "[Services [(''S'', ())]]" "(1, 1, 1)"]
  by (simp add: run_bacts_def B_new_def new_machine_def applyParams_def Let_def case_prod_beta)

subsection \<open>Starting machines\<close>

text \<open>A machine as a system hands it over: nothing but its address and its capacity is set.\<close>

definition fresh_machine :: "'i machine \<Rightarrow> bool" where
  "fresh_machine m \<longleftrightarrow> services m = [] \<and> environ m = [] \<and> state m = Unstarted \<and> \<not> owner m \<and>
     keepalivePeriod m = 0 \<and> waiters m = [] \<and> merr m = None"

text \<open>What the parameters amount to: the last definition of each service, all the environment.\<close>

fun param_services :: "'i param \<Rightarrow> (string \<times> 'i) list" where
  "param_services (Services s) = s"
| "param_services (Environ e) = []"

fun param_environ :: "'i param \<Rightarrow> string list" where
  "param_environ (Services s) = []"
| "param_environ (Environ e) = e"

lemma map_of_fold_update:
  "map_of (fold (\<lambda>(name, iface). AList.update name iface) s l) = map_of l ++ map_of (rev s)"
  by (induction s arbitrary: l) (auto simp: update_conv' map_add_def fun_eq_iff split: option.splits)

lemma applyParams_services:
  "map_of (services (applyParams ps m)) = map_of (services m) ++ map_of (rev (concat (map param_services ps)))"
  unfolding applyParams_def
proof (induction ps arbitrary: m)
  case (Cons p ps)
  have "map_of (services (applyParam p m)) = map_of (services m) ++ map_of (rev (param_services p))"
    by (cases p) (simp_all add: map_of_fold_update)
  then show ?case using Cons.IH [of "applyParam p m"] by simp
qed simp

lemma applyParams_environ: "environ (applyParams ps m) = environ m @ concat (map param_environ ps)"
  unfolding applyParams_def
proof (induction ps arbitrary: m)
  case (Cons p ps)
  then show ?case by (cases p) auto
qed simp

lemma applyParams_none:
  "services m = [] \<Longrightarrow> services (applyParams ps m) = [] \<longleftrightarrow> concat (map param_services ps) = []"
proof -
  assume "services m = []"
  then have "map_of (services (applyParams ps m)) = map_of (rev (concat (map param_services ps)))"
    by (simp add: applyParams_services)
  moreover have "map_of l = Map.empty \<longleftrightarrow> l = []" for l :: "(string \<times> 'a) list" by (cases l) auto
  ultimately show ?thesis by (metis rev_is_Nil_conv)
qed

definition started :: "duration \<times> duration \<times> duration \<Rightarrow> 'i param list \<Rightarrow> 'i machine \<Rightarrow> 'i machine" where
  "started cfg ps m =
     (let m = applyParams ps m
      in Machine_start cfg (m\<lparr>owner := True, tailDone := Some (nextId m), nextId := Suc (nextId m)\<rparr>))"

lemma started_sel [simp]: "Addr (started cfg ps m) = Addr m" "owner (started cfg ps m)"
  "services (started cfg ps m) = services (applyParams ps m)" "environ (started cfg ps m) = environ (applyParams ps m)"
  by (simp_all add: started_def Let_def)

lemma start_machines_all:
  assumes "\<forall>m \<in> set ms. services m = []" "concat (map param_services ps) \<noteq> []"
  shows "start_machines cfg ps ms b =
      (None, [length (heap b)..<length (heap b) + length ms],
       b\<lparr>heap := heap b @ map (started cfg ps) ms,
         machines := (machines b)(map Addr ms [\<mapsto>] [length (heap b)..<length (heap b) + length ms])\<rparr>)"
  using assms(1)
proof (induction ms arbitrary: b)
  case (Cons m ms)
  let ?b = "b\<lparr>heap := heap b @ [started cfg ps m], machines := (machines b)(Addr m \<mapsto> length (heap b))\<rparr>"
  have ne: "services (applyParams ps m) \<noteq> []" using Cons.prems assms(2) by (simp add: applyParams_none)
  have "start_machines cfg ps (m # ms) b =
      (case start_machines cfg ps ms ?b of (e, rs, b') \<Rightarrow> (e, length (heap b) # rs, b'))"
    using ne by (simp add: Let_def started_def)
  also have "\<dots> = (None, length (heap b) # [Suc (length (heap b))..<length (heap b) + length (m # ms)],
       b\<lparr>heap := heap b @ map (started cfg ps) (m # ms),
         machines := ((machines b)(Addr m \<mapsto> length (heap b)))
            (map Addr ms [\<mapsto>] [Suc (length (heap b))..<length (heap b) + length (m # ms)])\<rparr>)"
    using Cons by simp
  also have "length (heap b) # [Suc (length (heap b))..<length (heap b) + length (m # ms)] =
      [length (heap b)..<length (heap b) + length (m # ms)]"
    by (rule upt_conv_Cons [symmetric]) simp
  also have "((machines b)(Addr m \<mapsto> length (heap b)))
        (map Addr ms [\<mapsto>] [Suc (length (heap b))..<length (heap b) + length (m # ms)]) =
      (machines b)(map Addr (m # ms) [\<mapsto>] [length (heap b)..<length (heap b) + length (m # ms)])"
    by (subst upt_conv_Cons [of "length (heap b)"]) simp_all
  finally show ?case .
qed simp

lemma B_Start_success_services:
  assumes "B_Start cfg ps (Inr ms) b = (Inr rs, b')" "\<forall>m \<in> set ms. services m = []"
  shows "concat (map param_services ps) \<noteq> []"
proof
  assume none: "concat (map param_services ps) = []"
  obtain m ms' where ms: "ms = m # ms'" using assms(1) by (cases ms) (auto simp: B_Start_def)
  then have "services (applyParams ps m) = []" using assms(2) none applyParams_none [of m ps] by simp
  then show False using assms(1) by (simp add: B_Start_def ms Let_def)
qed

lemma B_Start_success:
  assumes "B_Start cfg ps (Inr ms) b = (Inr rs, b')" "\<forall>m \<in> set ms. services m = []"
  shows "rs = [length (heap b)..<length (heap b) + length ms] \<and> heap b' = heap b @ map (started cfg ps) ms \<and>
    Addr ` set ms \<subseteq> dom (machines b')"
proof -
  have "Addr ` set ms \<subseteq> dom ((machines b)(map Addr ms [\<mapsto>] [length (heap b)..<length (heap b) + length ms]))"
    by (simp add: dom_map_upds)
  then show ?thesis using assms B_Start_success_services [OF assms]
    by (simp add: B_Start_def start_machines_all split: if_splits) force
qed

lemma started_fresh:
  assumes "fresh_machine m"
  shows "state (started (period, timeout, rpc) ps m) = Unstarted"
    "keepalivePeriod (started (period, timeout, rpc) ps m) = period"
    "keepaliveTimeout (started (period, timeout, rpc) ps m) = timeout"
    "keepaliveRpcTimeout (started (period, timeout, rpc) ps m) = rpc"
    "concat (map param_services ps) \<noteq> [] \<Longrightarrow> services (started (period, timeout, rpc) ps m) \<noteq> []"
  using assms applyParams_none [of m ps]
  by (auto simp: started_def Let_def Machine_start_def fresh_machine_def)

text \<open>C20. \<open>B.Start\<close> registers all the machines the system started or none: with at least one service among the
  parameters, every machine is returned, owned, carries the merged services (the last definition of a name
  counts) and the whole environment, and is in the table; without, the error is \<open>Invalid\<close> and the table is
  unchanged, the machines already started being left to themselves.\<close>

theorem B_Start_all_or_nothing:
  assumes "ms \<noteq> []" "\<forall>m \<in> set ms. services m = []"
  shows "case B_Start cfg ps (Inr ms) b of
      (Inr rs, b') \<Rightarrow>
        concat (map param_services ps) \<noteq> [] \<and> length rs = length ms \<and> Addr ` set ms \<subseteq> dom (machines b') \<and>
        (\<forall>i < length ms. owner (heap b' ! (rs ! i)) \<and> Addr (heap b' ! (rs ! i)) = Addr (ms ! i) \<and>
           map_of (services (heap b' ! (rs ! i))) = map_of (rev (concat (map param_services ps))) \<and>
           environ (heap b' ! (rs ! i)) = environ (ms ! i) @ concat (map param_environ ps))
    | (Inl e, b') \<Rightarrow>
        concat (map param_services ps) = [] \<and> b' = b \<and> e = ErrE [Kind Invalid, Str ''no services provided'']"
proof (cases "concat (map param_services ps) = []")
  case True
  obtain m ms' where ms: "ms = m # ms'" using assms(1) by (cases ms) auto
  then have "services (applyParams ps m) = []" using assms(2) True applyParams_none [of m ps] by simp
  then show ?thesis using True by (simp add: B_Start_def ms Let_def)
next
  case False
  have dom: "Addr ` set ms \<subseteq> dom ((machines b)(map Addr ms [\<mapsto>] [length (heap b)..<length (heap b) + length ms]))"
    by (auto simp: dom_map_upds)
  show ?thesis using assms False dom
    by (simp add: B_Start_def start_machines_all nth_append applyParams_services applyParams_environ)
qed

theorem B_Start_all_or_nothing_witness:
  "\<exists>rs b'. B_Start (1, 1, 1) [Services [(''S'', True)], Environ [''A=1''], Services [(''S'', False)]]
       (Inr [new_machine ''a'', new_machine ''b'']) (B_new 0 []) = (Inr rs, b') \<and>
     map_of (services (heap b' ! (rs ! 1))) ''S'' = Some False \<and> machines b' ''b'' \<noteq> None"
proof -
  let ?ps = "[Services [(''S'', True)], Environ [''A=1''], Services [(''S'', False)]]"
  let ?ms = "[new_machine ''a'', new_machine ''b''] :: bool machine list"
  obtain r b' where r: "B_Start (1, 1, 1) ?ps (Inr ?ms) (B_new 0 []) = (r, b')" by fastforce
  have "services m = []" if "m \<in> set ?ms" for m using that by (auto simp: new_machine_def)
  with B_Start_all_or_nothing [of ?ms, where cfg = "(1, 1, 1)" and ps = ?ps and b = "B_new 0 []"] r show ?thesis
    by (cases r) (auto simp: new_machine_def)
qed

subsection \<open>Shutting down\<close>

lemma tail_wait_le: "tail_wait d closed_at m \<le> d"
  by (auto simp: tail_wait_def split: option.splits)

lemma fold_max_wait:
  fixes f :: "'a \<Rightarrow> int"
  assumes "\<And>x. f x \<le> d"
  shows "t \<le> fold (\<lambda>m t. max t (f m)) ms t" "t \<le> d \<Longrightarrow> fold (\<lambda>m t. max t (f m)) ms t \<le> d"
    "m \<in> set ms \<Longrightarrow> f m \<le> fold (\<lambda>m t. max t (f m)) ms t"
proof (induction ms arbitrary: t)
  case (Cons x ms)
  { case 1
    show ?case using Cons.IH(1) [of "max t (f x)"] by simp
  next
    case 2
    then show ?case using Cons.IH(2) [of "max t (f x)"] assms by simp
  next
    case 3
    then show ?case using Cons.IH(1) [of "max t (f x)"] Cons.IH(3) [of "max t (f x)"] by auto }
qed simp_all

lemma shutdown_calls_shape:
  assumes "\<And>m t t'. ret m t = Some t' \<Longrightarrow> t \<le> t' \<and> t' \<le> t + k"
  shows "case shutdown_calls ret ms t of
      (calls, Some u) \<Rightarrow> map fst calls = map Addr ms \<and> t \<le> u \<and> u \<le> t + int (length ms) * k
    | (calls, None) \<Rightarrow> \<exists>ms1 m ms2 u. ms = ms1 @ m # ms2 \<and> map fst calls = map Addr (ms1 @ [m]) \<and> t \<le> u \<and> ret m u = None"
proof (induction ms arbitrary: t)
  case (Cons m ms)
  show ?case
  proof (cases "ret m t")
    case None
    then show ?thesis by (auto simp: Let_def intro!: exI [of _ "[]"])
  next
    case (Some t1)
    obtain cs r where r: "shutdown_calls ret ms t1 = (cs, r)" by fastforce
    have t1: "t \<le> t1" "t1 \<le> t + k" using assms [OF Some] by simp_all
    show ?thesis
    proof (cases r)
      case None
      then obtain ms1 m' ms2 u where "ms = ms1 @ m' # ms2" "map fst cs = map Addr (ms1 @ [m'])" "t1 \<le> u" "ret m' u = None"
        using Cons.IH [of t1] r by auto
      then have "m # ms = (m # ms1) @ m' # ms2 \<and> Addr m # map fst cs = map Addr ((m # ms1) @ [m']) \<and> t \<le> u \<and> ret m' u = None"
        using t1 by simp
      moreover obtain c where c: "shutdown_calls ret (m # ms) t = (c # cs, None)" "fst c = Addr m" using Some r None by (simp add: Let_def)
      ultimately have "m # ms = (m # ms1) @ m' # ms2 \<and> map fst (c # cs) = map Addr ((m # ms1) @ [m']) \<and> t \<le> u \<and> ret m' u = None" by simp
      then show ?thesis unfolding c(1) prod.case option.case by blast
    next
      case (Some u)
      then show ?thesis using Cons.IH [of t1] r \<open>ret m t = Some t1\<close> t1 by (simp add: Let_def algebra_simps)
    qed
  qed
qed simp

text \<open>C30. What bounds \<open>Shutdown\<close>. Its limit covers the waiting for the logs only: if every call to a machine that returns does so within \<open>k\<close>, then
  either all of them return, and \<open>Shutdown\<close> has called every machine once, in order, and is over within \<open>k\<close> for each of them and the limit
  (and not before the limit, whenever one of the machines was dialed, since such a machine has no channel that would announce the end of
  its log); or a call never returns, and then \<open>Shutdown\<close> does not either, the machines behind that one are never told to
  shut down, and the system's own \<open>Shutdown\<close> is not reached.\<close>

theorem shutdown_bounded:
  assumes "\<And>m t t'. ret m t = Some t' \<Longrightarrow> t \<le> t' \<and> t' \<le> t + k"
  shows "case B_Shutdown ret now closed_at sys_Shutdown ms s of
      (calls, Some t, s') \<Rightarrow>
        map fst calls = map Addr ms \<and> now \<le> t \<and> t \<le> now + int (length ms) * k + 20 * Second \<and>
        ((\<exists>m \<in> set ms. tailDone m = None) \<longrightarrow> now + 20 * Second \<le> t) \<and> s' = sys_Shutdown s
    | (calls, None, s') \<Rightarrow>
        (\<exists>ms1 m ms2 u. ms = ms1 @ m # ms2 \<and> map fst calls = map Addr (ms1 @ [m]) \<and> ret m u = None) \<and> s' = s"
proof -
  obtain calls r where r: "shutdown_calls ret ms now = (calls, r)" by fastforce
  have shape: "case (calls, r) of
      (calls, Some u) \<Rightarrow> map fst calls = map Addr ms \<and> now \<le> u \<and> u \<le> now + int (length ms) * k
    | (calls, None) \<Rightarrow> \<exists>ms1 m ms2 u. ms = ms1 @ m # ms2 \<and> map fst calls = map Addr (ms1 @ [m]) \<and> now \<le> u \<and> ret m u = None"
    using shutdown_calls_shape [where ret = ret and k = k and ms = ms and t = now] assms unfolding r by blast
  show ?thesis
  proof (cases r)
    case None
    then show ?thesis using shape by (auto simp: B_Shutdown_def shutdownAllMachines_def r)
  next
    case (Some t)
    let ?f = "tail_wait (t + 20 * Second) closed_at"
    note fm = fold_max_wait [of ?f, OF tail_wait_le]
    have "t + 20 * Second \<le> fold (\<lambda>m u. max u (?f m)) ms t" if "m \<in> set ms" "tailDone m = None" for m
      using fm(3) [OF that(1), of t] that(2) by (simp add: tail_wait_def)
    moreover have "0 \<le> 20 * Second" by (simp add: duration_defs)
    ultimately show ?thesis using fm(1,2) [of t ms] shape Some by (fastforce simp: B_Shutdown_def shutdownAllMachines_def r)
  qed
qed

theorem shutdown_bounded_witness:
  "(\<exists>calls t. B_Shutdown (\<lambda>m t. Some (t + 1)) 5 (\<lambda>a c. Some 6) Suc [new_machine ''a'' :: unit machine, new_machine ''b''] 0 = (calls, Some t, 1) \<and>
      5 + 20 * Second \<le> t \<and> t \<le> 7 + 20 * Second) \<and>
   (\<exists>calls. B_Shutdown (\<lambda>m t. None) 5 (\<lambda>a c. Some 6) Suc [new_machine ''a'' :: unit machine, new_machine ''b''] 0 = (calls, None, 0) \<and>
      map fst calls = [''a''])"
  using shutdown_bounded [where ret = "\<lambda>m t. Some (t + 1)" and k = 1 and now = 5 and closed_at = "\<lambda>a c. Some 6" and sys_Shutdown = Suc and
      ms = "[new_machine ''a'' :: unit machine, new_machine ''b'']" and s = 0]
    shutdown_bounded [where ret = "\<lambda>m t. None" and k = 0 and now = 5 and closed_at = "\<lambda>a c. Some 6" and sys_Shutdown = Suc and
      ms = "[new_machine ''a'' :: unit machine, new_machine ''b'']" and s = 0]
  by (simp add: new_machine_def B_Shutdown_def shutdownAllMachines_def Let_def)

subsection \<open>Merged profiles\<close>

definition total :: "string \<Rightarrow> profileStat list \<Rightarrow> int" where
  "total n ps = (\<Sum>p \<leftarrow> filter (\<lambda>p. ps_Name p = n) ps. ps_Count p)"

definition merged :: "profileStat list \<Rightarrow> string \<rightharpoonup> profileStat" where
  "merged ps n = (if n \<in> ps_Name ` set ps then Some \<lparr>ps_Name = n, ps_Count = total n ps\<rparr> else None)"

lemma distinct_map_sort_key: "distinct (map f xs) \<Longrightarrow> distinct (map f (sort_key f xs))"
  by (simp add: distinct_map)

lemma total_absent: "n \<notin> ps_Name ` set ps \<Longrightarrow> total n ps = 0"
proof -
  assume "n \<notin> ps_Name ` set ps"
  then have "filter (\<lambda>p. ps_Name p = n) ps = []" by (auto simp: filter_empty_conv)
  then show ?thesis by (simp add: total_def)
qed

lemma total_snoc: "total n (ps @ [p]) = total n ps + (if ps_Name p = n then ps_Count p else 0)"
  by (simp add: total_def)

lemma aggregate_add_merged:
  assumes "map_of agg = merged ps" "distinct (map fst agg)"
  shows "map_of (aggregate_add p agg) = merged (ps @ [p])" "distinct (map fst (aggregate_add p agg))"
proof -
  show "map_of (aggregate_add p agg) = merged (ps @ [p])"
  proof
    fix n
    show "map_of (aggregate_add p agg) n = merged (ps @ [p]) n"
    proof (cases "n = ps_Name p")
      case True
      then show ?thesis using assms(1)
        by (auto simp: aggregate_add_def update_conv' merged_def total_snoc total_absent)
    next
      case False
      then show ?thesis using assms(1) by (simp add: aggregate_add_def update_conv' merged_def total_snoc)
    qed
  qed
  show "distinct (map fst (aggregate_add p agg))"
    unfolding aggregate_add_def by (rule distinct_update [OF assms(2)])
qed

lemma fold_aggregate_add:
  assumes "map_of agg = merged ps" "distinct (map fst agg)"
  shows "map_of (fold aggregate_add qs agg) = merged (ps @ qs) \<and> distinct (map fst (fold aggregate_add qs agg))"
  using assms
proof (induction qs arbitrary: ps agg)
  case (Cons q qs)
  then show ?case using Cons.IH [OF aggregate_add_merged [OF Cons.prems]] by simp
qed simp

lemma aggregate_merged:
  "map_of (aggregate stats) = merged (concat (map snd stats)) \<and> distinct (map fst (aggregate stats))"
proof -
  have "aggregate stats = fold aggregate_add (concat (map snd stats)) []"
  proof -
    have "fold (\<lambda>(addr, mstats). fold aggregate_add mstats) stats agg = fold aggregate_add (concat (map snd stats)) agg" for agg
      by (induction stats arbitrary: agg) auto
    then show ?thesis by (simp add: aggregate_def)
  qed
  moreover have "map_of [] = merged []" by (simp add: merged_def fun_eq_iff)
  ultimately show ?thesis using fold_aggregate_add [of "[]" "[]"] by simp
qed

lemma aggregate_set:
  "set (aggregate stats) = {(n, \<lparr>ps_Name = n, ps_Count = total n (concat (map snd stats))\<rparr>) | n. n \<in> ps_Name ` set (concat (map snd stats))}"
proof -
  define ps where "ps = concat (map snd stats)"
  have "(n, q) \<in> set (aggregate stats) \<longleftrightarrow> merged ps n = Some q" for n q
    using aggregate_merged [of stats] map_of_eq_Some_iff [of "aggregate stats" n q] by (auto simp: ps_def)
  then show ?thesis unfolding ps_def [symmetric] by (auto simp: merged_def split: if_splits)
qed

text \<open>C31. The merged index has one row for each profile name, in the order of the names, with the sum of the counts
  of all machines; so it does not depend on the order in which the machines' maps are iterated.\<close>

theorem pprof_all_merged:
  "sorted_wrt (<) (map ps_Name (pprof_all stats)) \<and>
   set (pprof_all stats) =
     {\<lparr>ps_Name = n, ps_Count = total n (concat (map snd stats))\<rparr> | n. n \<in> ps_Name ` set (concat (map snd stats))}"
proof
  let ?agg = "aggregate stats"
  have names: "map ps_Name (map snd ?agg) = map fst ?agg"
    using aggregate_set [of stats] by (auto intro!: map_cong)
  have "distinct (map ps_Name (map snd ?agg))"
    unfolding names using aggregate_merged by blast
  then have "distinct (map ps_Name (pprof_all stats))"
    unfolding pprof_all_def by (rule distinct_map_sort_key)
  moreover have "sorted (map ps_Name (pprof_all stats))" by (simp add: pprof_all_def)
  ultimately show "sorted_wrt (<) (map ps_Name (pprof_all stats))" by (simp add: strict_sorted_iff)
  show "set (pprof_all stats) =
     {\<lparr>ps_Name = n, ps_Count = total n (concat (map snd stats))\<rparr> | n. n \<in> ps_Name ` set (concat (map snd stats))}"
    unfolding pprof_all_def using aggregate_set [of stats] by (force simp: image_iff)
qed

text \<open>The debug pages work only under the default prefix: under any other, the index handler takes its own path for
  the name of a profile and the index is never served.\<close>

theorem pprofIndex_other_prefix:
  assumes "\<not> HasPrefix (pfx @ ''pprof/'') ''/debug/bigmachine/pprof/''"
  shows "(pfx @ ''pprof/'', ''pprofIndex'') \<in> set (HandleDebugPrefix pfx) \<and>
    pprofIndex (pfx @ ''pprof/'') replies = ServeProfile (pfx @ ''pprof/'')"
  using assms by (simp add: HandleDebugPrefix_def pprofIndex_def TrimPrefix_def HasPrefix_def Let_def)

theorem pprofIndex_other_prefix_witness:
  "pprofIndex (''/x/'' @ ''pprof/'') [] = ServeProfile ''/x/pprof/''"
  using pprofIndex_other_prefix [of "''/x/''" "[]"] by (simp add: HasPrefix_def)

subsection \<open>The System interface\<close>

text \<open>
  What a session relies on of the system it runs on: the machines \<open>Start\<close> gives are as \<open>new(Machine)\<close> made
  them but for the fields a system may set, and the keepalive configuration has no zero, so that
  \<open>Machine.start\<close> leaves a configured machine behind. A bounded system gives no more machines than asked for. \<open>'e\<close> is
  what the outside world contributes to a \<open>Start\<close>, \<open>'s\<close> the system's own state.
\<close>

text \<open>A session's \<open>Start\<close> on a system.\<close>

definition session_Start :: "('e \<Rightarrow> nat \<Rightarrow> 's \<Rightarrow> (err + 'i machine list) \<times> 's) \<Rightarrow> ('s \<Rightarrow> duration \<times> duration \<times> duration)
    \<Rightarrow> 'e \<Rightarrow> nat \<Rightarrow> 'i param list \<Rightarrow> 's \<Rightarrow> 'i B \<Rightarrow> (err + nat list) \<times> 's \<times> 'i B" where
  "session_Start sys_Start sys_KeepaliveConfig e n ps s b =
     (case sys_Start e n s of (r, s') \<Rightarrow>
      case B_Start (sys_KeepaliveConfig s') ps r b of (res, b') \<Rightarrow> (res, s', b'))"

locale bm_system =
  fixes sys_Start :: "'e \<Rightarrow> nat \<Rightarrow> 's \<Rightarrow> (err + 'i machine list) \<times> 's"
    and sys_KeepaliveConfig :: "'s \<Rightarrow> duration \<times> duration \<times> duration"
  assumes start_fresh: "sys_Start e n s = (Inr ms, s') \<Longrightarrow> m \<in> set ms \<Longrightarrow> fresh_machine m"
    and keepalive_nonzero: "sys_KeepaliveConfig s = (period, timeout, rpc) \<Longrightarrow> period \<noteq> 0 \<and> timeout \<noteq> 0 \<and> rpc \<noteq> 0"
begin

lemma session_Start_cases:
  assumes "session_Start sys_Start sys_KeepaliveConfig e n ps s b = (Inr rs, s', b')"
  obtains ms where "sys_Start e n s = (Inr ms, s')" "1 \<le> length ms" "\<forall>m \<in> set ms. fresh_machine m"
    "rs = [length (heap b)..<length (heap b) + length ms]" "heap b' = heap b @ map (started (sys_KeepaliveConfig s') ps) ms"
proof -
  obtain r where r: "sys_Start e n s = (r, s')" "B_Start (sys_KeepaliveConfig s') ps r b = (Inr rs, b')"
    using assms by (auto simp: session_Start_def split: prod.splits)
  then obtain ms where ms: "r = Inr ms" "ms \<noteq> []" "sys_Start e n s = (Inr ms, s')"
    by (cases r) (auto simp: B_Start_def split: if_splits)
  have fresh: "\<forall>m \<in> set ms. fresh_machine m" using start_fresh [OF ms(3)] by blast
  then have "\<forall>m \<in> set ms. services m = []" by (simp add: fresh_machine_def)
  note B_Start_success [OF _ this, of "sys_KeepaliveConfig s'" ps b rs b'] 
  then show thesis using that [OF ms(3) _ fresh] r(2) ms(1,2) by (cases ms) auto
qed

text \<open>At least one machine, each with a keepalive configuration, owned and not yet started.\<close>

lemma session_Start_machines:
  assumes "session_Start sys_Start sys_KeepaliveConfig e n ps s b = (Inr rs, s', b')"
  shows "1 \<le> length rs \<and>
    (\<forall>r \<in> set rs. owner (heap b' ! r) \<and> state (heap b' ! r) = Unstarted \<and> services (heap b' ! r) \<noteq> [] \<and>
       (keepalivePeriod (heap b' ! r), keepaliveTimeout (heap b' ! r), keepaliveRpcTimeout (heap b' ! r)) =
         sys_KeepaliveConfig s' \<and> keepalivePeriod (heap b' ! r) \<noteq> 0)"
proof -
  obtain ms where ms: "1 \<le> length ms" "\<forall>m \<in> set ms. fresh_machine m"
    "rs = [length (heap b)..<length (heap b) + length ms]" "heap b' = heap b @ map (started (sys_KeepaliveConfig s') ps) ms"
    "sys_Start e n s = (Inr ms, s')"
    using session_Start_cases [OF assms] by blast
  obtain period timeout rpc where cfg: "sys_KeepaliveConfig s' = (period, timeout, rpc)" by (metis surj_pair)
  have svc: "concat (map param_services ps) \<noteq> []"
    using assms ms(1,2,5) B_Start_success_services [of "sys_KeepaliveConfig s'" ps ms b rs b']
    by (auto simp: session_Start_def fresh_machine_def split: prod.splits)
  have "owner m \<and> state m = Unstarted \<and> services m \<noteq> [] \<and>
       (keepalivePeriod m, keepaliveTimeout m, keepaliveRpcTimeout m) = sys_KeepaliveConfig s' \<and> keepalivePeriod m \<noteq> 0"
    if mem: "m \<in> set (map (started (sys_KeepaliveConfig s') ps) ms)" for m
  proof -
    obtain x where x: "x \<in> set ms" "m = started (sys_KeepaliveConfig s') ps x" using mem by auto
    then have f: "fresh_machine x" using ms(2) by blast
    show ?thesis using started_fresh(1-4) [OF f] started_fresh(5) [OF f svc] keepalive_nonzero [OF cfg]
      by (simp add: x(2) cfg)
  qed
  moreover have "heap b' ! r \<in> set (map (started (sys_KeepaliveConfig s') ps) ms)" if "r \<in> set rs" for r
    using that ms(3) by (auto simp: ms(4) nth_append)
  ultimately show ?thesis using ms(1,3) by auto
qed

end

locale bm_bounded = bm_system +
  assumes start_count: "sys_Start e n s = (Inr ms, s') \<Longrightarrow> length ms \<le> n"
begin

lemma session_Start_bounded:
  assumes "session_Start sys_Start sys_KeepaliveConfig e n ps s b = (Inr rs, s', b')"
  shows "length rs \<le> n"
  using session_Start_cases [OF assms] start_count by (metis diff_add_inverse length_upt)

end

end
