(* ===== verification/Io_Util.thy ===== *)
theory Io_Util
  imports Rpc_Client "HOL-Library.Sublist"
begin

text \<open>
  The I/O helpers: the reader that closes its source at end of file (\<open>internal/ioutil\<close>), the
  buffer kept in a temporary file (\<open>internal/filebuf\<close>) and the asynchronous write
  multiplexer of the log output (\<open>internal/tee\<close>). A multiplexed writer is the record \<open>teech\<close>; \<open>Write\<close>
  takes the buffer out of the writer's channel and puts it back in two steps, and the
  writer's goroutine and \<open>cancel\<close> run between them.
\<close>

subsection \<open>The closing reader\<close>

record closingReader =
  cr_src :: reader
  cr_closed :: bool
  cr_closes :: nat       \<comment> \<open>calls of \<open>rc.Close\<close>\<close>

definition NewClosingReader :: "reader \<Rightarrow> closingReader" where
  "NewClosingReader rc = \<lparr>cr_src = rc, cr_closed = False, cr_closes = 0\<rparr>"

definition closingReader_Read :: "closingReader \<Rightarrow> (bytes \<times> err option) \<times> closingReader" where
  "closingReader_Read c =
     (if cr_closed c then (([], Some EOF), c)
      else case read_next (cr_src c) of ((b, e), src) \<Rightarrow>
        ((b, e), if e = Some EOF then c\<lparr>cr_src := src, cr_closed := True, cr_closes := cr_closes c + 1\<rparr>
                 else c\<lparr>cr_src := src\<rparr>))"

fun closing_reads :: "nat \<Rightarrow> closingReader \<Rightarrow> reader \<times> closingReader" where
  "closing_reads 0 c = ([], c)"
| "closing_reads (Suc n) c =
     (case closingReader_Read c of (r, c) \<Rightarrow> (case closing_reads n c of (rs, c) \<Rightarrow> (r # rs, c)))"

subsection \<open>The file buffer\<close>

text \<open>The temporary files in existence by name; a buffer is the name of its file, the bytes not yet
  read, and whether it is closed. \<open>New\<close> fails when the file cannot be made, the reader fails or the
  seek does.\<close>

record filebuf =
  fb_name :: string
  fb_rest :: bytes
  fb_open :: bool

definition FileBuf_New :: "err + string \<Rightarrow> err option \<Rightarrow> reader \<Rightarrow> (string \<rightharpoonup> bytes) \<Rightarrow> (err + filebuf) \<times> (string \<rightharpoonup> bytes)" where
  "FileBuf_New tempFile seek r fs =
     (case tempFile of
        Inl e \<Rightarrow> (Inl (ErrE [Str ''error opening temp file for filebuf'', Err e]), fs)
      | Inr name \<Rightarrow>
          (case ReadAll r of
             (b, Some e) \<Rightarrow> (Inl (ErrE [Str ''error reading into filebuf'', Err e]), (fs(name \<mapsto> b))(name := None))
           | (b, None) \<Rightarrow>
               (case seek of
                  Some e \<Rightarrow> (Inl (ErrE [Str ''error seeking in filebuf'', Err e]), (fs(name \<mapsto> b))(name := None))
                | None \<Rightarrow> (Inr \<lparr>fb_name = name, fb_rest = b, fb_open = True\<rparr>, fs(name \<mapsto> b)))))"

text \<open>\<open>Read\<close> into a slice of length \<open>n\<close>, as \<open>os.File\<close> reads.\<close>

definition FileBuf_Read :: "nat \<Rightarrow> filebuf \<Rightarrow> (bytes \<times> err option) \<times> filebuf" where
  "FileBuf_Read n b =
     (if \<not> fb_open b then (([], Some (Opaque ''invalid argument'')), b)
      else if n = 0 then (([], None), b)
      else if fb_rest b = [] then (([], Some EOF), b)
      else ((take n (fb_rest b), None), b\<lparr>fb_rest := drop n (fb_rest b)\<rparr>))"

definition FileBuf_Close :: "err option \<Rightarrow> filebuf \<Rightarrow> (string \<rightharpoonup> bytes) \<Rightarrow> err option \<times> filebuf \<times> (string \<rightharpoonup> bytes)" where
  "FileBuf_Close close_err b fs =
     (if \<not> fb_open b then (None, b, fs)
      else (close_err, b\<lparr>fb_open := False\<rparr>, fs(fb_name b := None)))"

fun filebuf_reads :: "nat list \<Rightarrow> filebuf \<Rightarrow> bytes \<times> filebuf" where
  "filebuf_reads [] b = ([], b)"
| "filebuf_reads (n # ns) b =
     (case FileBuf_Read n b of ((d, e), b) \<Rightarrow> (case filebuf_reads ns b of (ds, b) \<Rightarrow> (d @ ds, b)))"

subsection \<open>The write multiplexer\<close>

definition bufferSize :: nat where "bufferSize = 512 * 2 ^ 10"

record teech =
  slot :: "bytes option"          \<comment> \<open>the channel, of capacity one\<close>
  registered :: bool              \<comment> \<open>in the multiplexer's map\<close>
  canceled_t :: bool              \<comment> \<open>\<open>done\<close> is closed\<close>
  goroutine :: bool               \<comment> \<open>the copying goroutine is running\<close>
  sink :: bytes                   \<comment> \<open>what has reached the writer\<close>
  held :: "nat \<rightharpoonup> bytes"         \<comment> \<open>buffers taken by writes in progress\<close>

definition Tee :: teech where
  "Tee = \<lparr>slot = None, registered = True, canceled_t = False, goroutine = True, sink = [], held = Map.empty\<rparr>"

text \<open>The buffer a write of \<open>p\<close> puts back: the oldest bytes are discarded on overflow.\<close>

definition tee_buffer :: "bytes option \<Rightarrow> bytes \<Rightarrow> bytes" where
  "tee_buffer s p =
     (let buf = (case s of None \<Rightarrow> [] | Some b \<Rightarrow> b);
          n = int (length buf) + int (length p) - int bufferSize
      in (if n > 0 then drop (nat n) buf else buf) @ p)"

definition cancel_t :: "teech \<Rightarrow> teech" where
  "cancel_t t = t\<lparr>registered := False, canceled_t := True\<rparr>"

text \<open>The steps: write \<open>i\<close> of \<open>p\<close> takes the buffer of a registered writer; write \<open>i\<close> sends it, which
  blocks while the channel is full; the goroutine receives a buffer and copies it, stopping if that fails after \<open>k\<close> bytes;
  \<open>cancel\<close>; the goroutine ends after \<open>cancel\<close>. A step that is not enabled is None.\<close>

datatype tact = TTake nat bytes | TPut nat | TCopy "nat option" | TCancel | TEnd

fun tee_act :: "tact \<Rightarrow> teech \<Rightarrow> teech option" where
  "tee_act (TTake i p) t =
     (if registered t \<and> held t i = None
      then Some (t\<lparr>slot := None, held := (held t)(i \<mapsto> tee_buffer (slot t) p)\<rparr>) else None)"
| "tee_act (TPut i) t =
     (case (held t i, slot t) of
        (Some b, None) \<Rightarrow> Some (t\<lparr>slot := Some b, held := (held t)(i := None)\<rparr>)
      | _ \<Rightarrow> None)"
| "tee_act (TCopy fail) t =
     (case slot t of
        Some b \<Rightarrow>
          if goroutine t then
            (case fail of
               None \<Rightarrow> Some (t\<lparr>slot := None, sink := sink t @ b\<rparr>)
             | Some k \<Rightarrow> Some (cancel_t (t\<lparr>slot := None, sink := sink t @ take k b, goroutine := False\<rparr>)))
          else None
      | None \<Rightarrow> None)"
| "tee_act TCancel t = Some (cancel_t t)"
| "tee_act TEnd t = (if goroutine t \<and> canceled_t t then Some (t\<lparr>goroutine := False\<rparr>) else None)"

fun tee_acts :: "tact list \<Rightarrow> teech \<Rightarrow> teech option" where
  "tee_acts [] t = Some t"
| "tee_acts (a # as) t = (case tee_act a t of None \<Rightarrow> None | Some t \<Rightarrow> tee_acts as t)"

text \<open>\<open>Write\<close> where writes do not overlap.\<close>

definition tee_Write :: "bytes \<Rightarrow> teech \<Rightarrow> teech option" where
  "tee_Write p t = (if registered t then tee_acts [TTake 0 p, TPut 0] t else Some t)"

subsection \<open>Facts\<close>

lemma closing_reads_closed:
  "cr_closed c \<Longrightarrow> closing_reads n c = (replicate n ([], Some EOF), c)"
  by (induction n) (auto simp: closingReader_Read_def)

lemma closing_reads_count:
  assumes "closing_reads n c = (rs, c')" "\<not> cr_closed c"
  shows "cr_closes c' = cr_closes c + (if Some EOF \<in> snd ` set rs then 1 else 0)"
  using assms
proof (induction n arbitrary: c rs c')
  case (Suc n)
  obtain b e src where r: "read_next (cr_src c) = ((b, e), src)" by (metis surj_pair)
  show ?case
  proof (cases "e = Some EOF")
    case True
    then show ?thesis using Suc.prems r
      by (auto simp: closingReader_Read_def closing_reads_closed)
  next
    case False
    obtain rs' c2 where n: "closing_reads n (c\<lparr>cr_src := src\<rparr>) = (rs', c2)" by (metis surj_pair)
    then have eq: "rs = (b, e) # rs'" "c' = c2"
      using Suc.prems r False by (simp_all add: closingReader_Read_def)
    show ?thesis using Suc.IH [OF n] Suc.prems(2) False unfolding eq by simp
  qed
qed simp

lemma closing_reads_prefix:
  assumes "closing_reads n c = (rs, c')" "\<not> cr_closed c" "Some EOF \<notin> snd ` set rs"
  shows "rs = take n (cr_src c) \<and> n \<le> length (cr_src c)"
  using assms
proof (induction n arbitrary: c rs c')
  case (Suc n)
  obtain b e src where r: "read_next (cr_src c) = ((b, e), src)" by (metis surj_pair)
  obtain rs' c2 where n: "closing_reads n (c\<lparr>cr_src := src\<rparr>) = (rs', c2)" by (metis surj_pair)
  have e: "e \<noteq> Some EOF" using Suc.prems r by (auto simp: closingReader_Read_def split: if_splits prod.splits)
  then have eq: "rs = (b, e) # rs'" using Suc.prems r n by (simp add: closingReader_Read_def)
  have "cr_src c = (b, e) # src" using r e by (cases "cr_src c") auto
  then show ?case using Suc.IH [OF n] Suc.prems(2,3) unfolding eq by simp
qed simp

text \<open>The closing reader closes its source once: after any number of reads, the source has been closed exactly if one
  of them reported end of file, and until then the reads are those of the source.\<close>

theorem closing_reader_once:
  "let (rs, c) = closing_reads n (NewClosingReader rc)
   in cr_closes c = (if Some EOF \<in> snd ` set rs then 1 else 0) \<and>
      (Some EOF \<in> snd ` set rs \<or> rs = take n rc)"
proof -
  obtain rs c where r: "closing_reads n (NewClosingReader rc) = (rs, c)" by fastforce
  show ?thesis using closing_reads_count [OF r] closing_reads_prefix [OF r]
    by (simp add: r) (simp add: NewClosingReader_def)
qed

lemma filebuf_reads_take:
  assumes "fb_open b"
  shows "fst (filebuf_reads ns b) = take (sum_list ns) (fb_rest b) \<and>
     fb_rest (snd (filebuf_reads ns b)) = drop (sum_list ns) (fb_rest b) \<and>
     fb_open (snd (filebuf_reads ns b)) \<and> fb_name (snd (filebuf_reads ns b)) = fb_name b"
  using assms
proof (induction ns arbitrary: b)
  case (Cons n ns)
  define b1 where "b1 = snd (FileBuf_Read n b)"
  have b1: "fb_open b1" "fb_name b1 = fb_name b" "fb_rest b1 = drop n (fb_rest b)"
    "fst (fst (FileBuf_Read n b)) = take n (fb_rest b)"
    using Cons.prems by (auto simp: b1_def FileBuf_Read_def)
  have "filebuf_reads (n # ns) b = (take n (fb_rest b) @ fst (filebuf_reads ns b1), snd (filebuf_reads ns b1))"
    using b1(4) by (simp add: b1_def case_prod_beta)
  then show ?case using Cons.IH [OF b1(1)] b1 by (simp add: take_add add.commute)
qed simp

text \<open>A file buffer gives back what it was filled with: if the reader is read to its end, any sequence of reads of
  the buffer returns the reader's bytes in order, closing the buffer removes its file, closing it again
  does nothing, and a buffer that cannot be filled leaves no file behind.\<close>

theorem filebuf_roundtrip:
  assumes "fs name = None"
  shows "case FileBuf_New (Inr name) seek r fs of
      (Inr b, fs') \<Rightarrow>
        fst (filebuf_reads ns b) = take (sum_list ns) (fst (ReadAll r)) \<and> snd (ReadAll r) = None \<and>
        (let (e, b', fs'') = FileBuf_Close ce (snd (filebuf_reads ns b)) fs'
         in fs'' = fs \<and> FileBuf_Close ce' b' fs'' = (None, b', fs''))
    | (Inl e, fs') \<Rightarrow> fs' = fs"
proof -
  have gone: "fs(name := None) = fs" using assms by (simp add: fun_upd_idem)
  obtain d e where r: "ReadAll r = (d, e)" by fastforce
  show ?thesis
  proof (cases "e = None \<and> seek = None")
    case True
    let ?b = "\<lparr>fb_name = name, fb_rest = d, fb_open = True\<rparr>"
    note reads = filebuf_reads_take [of ?b ns]
    have "FileBuf_New (Inr name) seek r fs = (Inr ?b, fs(name \<mapsto> d))"
      using True r by (simp add: FileBuf_New_def)
    moreover have "FileBuf_Close ce (snd (filebuf_reads ns ?b)) (fs(name \<mapsto> d)) =
        (ce, snd (filebuf_reads ns ?b)\<lparr>fb_open := False\<rparr>, fs)"
      using reads gone by (simp add: FileBuf_Close_def)
    ultimately show ?thesis using reads True r by (simp add: FileBuf_Close_def)
  next
    case False
    then show ?thesis using gone r by (auto simp: FileBuf_New_def split: option.splits)
  qed
qed

theorem filebuf_roundtrip_witness:
  "case FileBuf_New (Inr ''/tmp/b'') None [(''ab'', None), (''c'', Some EOF)] Map.empty of
      (Inr b, fs') \<Rightarrow> fst (filebuf_reads [1, 5] b) = ''abc'' | (Inl e, fs') \<Rightarrow> False"
  using filebuf_roundtrip [of Map.empty "''/tmp/b''", where seek = None and r = "[(''ab'', None), (''c'', Some EOF)]"
      and ns = "[1, 5]" and ce = None and ce' = None]
  by (simp add: FileBuf_New_def)

subsection \<open>Properties of the multiplexer\<close>

definition pending_bytes :: "teech \<Rightarrow> bytes" where
  "pending_bytes t = (case slot t of None \<Rightarrow> [] | Some b \<Rightarrow> b)"

lemma tee_buffer_eq:
  "tee_buffer (slot t) p = drop (length (pending_bytes t) + length p - bufferSize) (pending_bytes t) @ p"
proof -
  have "nat (int a + int b - int c) = a + b - c" for a b c :: nat by simp
  then show ?thesis by (auto simp: tee_buffer_def pending_bytes_def Let_def)
qed

lemma tee_buffer_length: "length (tee_buffer (slot (t :: teech)) p) \<le> max bufferSize (length p)"
  by (simp add: tee_buffer_eq)

lemma tee_Write_eq:
  assumes "registered t" "held t = Map.empty"
  shows "tee_Write p t = Some (t\<lparr>slot := Some (tee_buffer (slot t) p)\<rparr>)"
  using assms by (simp add: tee_Write_def)

text \<open>Writes that do not overlap, with the goroutine copying in between.\<close>

datatype seq_act = SWrite bytes | SCopy

fun seq_run :: "seq_act list \<Rightarrow> teech \<Rightarrow> teech option" where
  "seq_run [] t = Some t"
| "seq_run (SWrite p # as) t = (case tee_Write p t of None \<Rightarrow> None | Some t \<Rightarrow> seq_run as t)"
| "seq_run (SCopy # as) t =
     (case tee_act (TCopy None) t of None \<Rightarrow> seq_run as t | Some t \<Rightarrow> seq_run as t)"

fun written :: "seq_act list \<Rightarrow> bytes" where
  "written [] = []"
| "written (SWrite p # as) = p @ written as"
| "written (SCopy # as) = written as"

definition tee_up :: "teech \<Rightarrow> bool" where
  "tee_up t \<longleftrightarrow> registered t \<and> goroutine t \<and> held t = Map.empty"

lemma tee_copy_up:
  assumes "tee_up t"
  obtains t' where "(case tee_act (TCopy None) t of None \<Rightarrow> t | Some t \<Rightarrow> t) = t'" "tee_up t'"
    "sink t' = sink t @ pending_bytes t" "pending_bytes t' = []"
  using assms by (cases "slot t") (auto simp: tee_up_def pending_bytes_def)

lemma seq_run_step:
  "seq_run (SCopy # as) t = seq_run as (case tee_act (TCopy None) t of None \<Rightarrow> t | Some t \<Rightarrow> t)"
  by (simp split: option.split)

lemma subseq_drop_append: "subseq (drop n xs @ ys) (xs @ ys)"
  by (metis append_take_drop_id list_emb_append2 list_emb_append_mono subseq_order.order_refl append_assoc)

lemma seq_run_up:
  assumes "tee_up t"
  shows "\<exists>t'. seq_run as t = Some t' \<and> tee_up t' \<and>
    subseq (sink t' @ pending_bytes t') (sink t @ pending_bytes t @ written as) \<and>
    (length (pending_bytes t @ written as) \<le> bufferSize \<longrightarrow>
       sink t' @ pending_bytes t' = sink t @ pending_bytes t @ written as) \<and>
    (\<forall>B. length (pending_bytes t) \<le> max bufferSize B \<longrightarrow> (\<forall>p. SWrite p \<in> set as \<longrightarrow> length p \<le> B) \<longrightarrow>
       length (pending_bytes t') \<le> max bufferSize B)"
  using assms
proof (induction as arbitrary: t)
  case Nil
  then show ?case by simp
next
  case (Cons a as)
  show ?case
  proof (cases a)
    case SCopy
    obtain t1 where t1: "(case tee_act (TCopy None) t of None \<Rightarrow> t | Some t \<Rightarrow> t) = t1" "tee_up t1"
      "sink t1 = sink t @ pending_bytes t" "pending_bytes t1 = []"
      using tee_copy_up [OF Cons.prems] .
    from Cons.IH [OF t1(2)] obtain t' where t': "seq_run as t1 = Some t'" "tee_up t'"
      "subseq (sink t' @ pending_bytes t') (sink t1 @ pending_bytes t1 @ written as)"
      "length (pending_bytes t1 @ written as) \<le> bufferSize \<longrightarrow>
         sink t' @ pending_bytes t' = sink t1 @ pending_bytes t1 @ written as"
      "\<forall>B. length (pending_bytes t1) \<le> max bufferSize B \<longrightarrow> (\<forall>p. SWrite p \<in> set as \<longrightarrow> length p \<le> B) \<longrightarrow>
         length (pending_bytes t') \<le> max bufferSize B" by blast
    have "seq_run (a # as) t = Some t'" using SCopy t'(1) t1(1) by (simp only: seq_run_step)
    then show ?thesis using t'(2-5) t1 SCopy by auto
  next
    case (SWrite p)
    define t1 where "t1 = t\<lparr>slot := Some (tee_buffer (slot t) p)\<rparr>"
    have w: "tee_Write p t = Some t1" using Cons.prems by (simp add: tee_up_def t1_def tee_Write_eq)
    have up: "tee_up t1" using Cons.prems by (simp add: tee_up_def t1_def)
    have pend: "pending_bytes t1 = tee_buffer (slot t) p" and snk: "sink t1 = sink t"
      by (simp_all add: t1_def pending_bytes_def)
    from Cons.IH [OF up] obtain t' where t': "seq_run as t1 = Some t'" "tee_up t'"
      "subseq (sink t' @ pending_bytes t') (sink t1 @ pending_bytes t1 @ written as)"
      "length (pending_bytes t1 @ written as) \<le> bufferSize \<longrightarrow>
         sink t' @ pending_bytes t' = sink t1 @ pending_bytes t1 @ written as"
      "\<forall>B. length (pending_bytes t1) \<le> max bufferSize B \<longrightarrow> (\<forall>p. SWrite p \<in> set as \<longrightarrow> length p \<le> B) \<longrightarrow>
         length (pending_bytes t') \<le> max bufferSize B" by blast
    have "subseq (sink t1 @ pending_bytes t1 @ written as) (sink t @ pending_bytes t @ written (a # as))"
      unfolding snk pend SWrite tee_buffer_eq written.simps append_assoc
      by (intro list_emb_append_mono subseq_order.order_refl subseq_drop_append)
    then have sub: "subseq (sink t' @ pending_bytes t') (sink t @ pending_bytes t @ written (a # as))"
      using t'(3) subseq_order.order_trans by blast
    have whole: "pending_bytes t1 = pending_bytes t @ p" if "length (pending_bytes t @ written (a # as)) \<le> bufferSize"
      using that by (simp add: pend tee_buffer_eq SWrite)
    have bound: "length (pending_bytes t1) \<le> max bufferSize B" if "length p \<le> B" for B
      using tee_buffer_length [of t p] that unfolding pend by linarith
    have "seq_run (a # as) t = Some t'" using w t'(1) by (simp add: SWrite)
    then show ?thesis using t'(2) sub t'(4,5) whole bound snk SWrite by auto
  qed
qed

text \<open>C37. The multiplexer neither blocks nor reorders writes that do not overlap: every run of writes and copies
  goes through, what has reached the writer and what is buffered is a subsequence of what was written, all of it as
  long as no more than the buffer's size has been written, and the buffer exceeds its size at most by being one
  single write larger than that.\<close>

theorem tee_sequential:
  "\<exists>t. seq_run as Tee = Some t \<and> subseq (sink t @ pending_bytes t) (written as) \<and>
     (length (written as) \<le> bufferSize \<longrightarrow> sink t @ pending_bytes t = written as) \<and>
     (\<forall>B. (\<forall>p. SWrite p \<in> set as \<longrightarrow> length p \<le> B) \<longrightarrow> length (pending_bytes t) \<le> max bufferSize B)"
proof -
  have "tee_up Tee" "sink Tee = []" "pending_bytes Tee = []"
    by (simp_all add: tee_up_def Tee_def pending_bytes_def)
  with seq_run_up [of Tee as] show ?thesis by auto
qed

theorem tee_sequential_witness:
  "\<exists>t. seq_run [SWrite ''ab'', SCopy, SWrite ''c''] Tee = Some t \<and> sink t @ pending_bytes t = ''abc''"
  using tee_sequential [of "[SWrite ''ab'', SCopy, SWrite ''c'']"] by (auto simp: bufferSize_def)

text \<open>What stays when a write is left holding its buffer before a full channel that nobody reads.\<close>

definition stuck_write :: "nat \<Rightarrow> teech \<Rightarrow> bool" where
  "stuck_write i t \<longleftrightarrow> \<not> registered t \<and> \<not> goroutine t \<and> slot t \<noteq> None \<and> held t i \<noteq> None"

lemma stuck_write_act: "stuck_write i t \<Longrightarrow> tee_act a t = Some t' \<Longrightarrow> stuck_write i t'"
  by (cases a) (auto simp: stuck_write_def cancel_t_def split: option.splits if_splits)

lemma stuck_write_acts: "stuck_write i t \<Longrightarrow> tee_acts as t = Some t' \<Longrightarrow> stuck_write i t'"
  by (induction as arbitrary: t) (auto split: option.splits intro: stuck_write_act)

text \<open>Overlapping writes can block for good: there is a run of two writes to a writer that is canceled between them
  after which the second write waits to send its buffer and, whatever happens next, never can.\<close>

theorem tee_write_blocks_forever:
  "\<exists>as t. tee_acts as Tee = Some t \<and> held t 2 \<noteq> None \<and>
     (\<forall>as' t'. tee_acts as' t = Some t' \<longrightarrow> held t' 2 \<noteq> None \<and> tee_act (TPut 2) t' = None)"
proof -
  let ?as = "[TTake 1 ''a'', TTake 2 ''b'', TPut 1, TCancel, TEnd]"
  obtain t where t: "tee_acts ?as Tee = Some t" "stuck_write 2 t"
    by (simp add: Tee_def cancel_t_def stuck_write_def)
  have "held t' 2 \<noteq> None \<and> tee_act (TPut 2) t' = None" if "tee_acts as' t = Some t'" for as' t'
    using stuck_write_acts [OF t(2) that] by (auto simp: stuck_write_def split: option.splits)
  moreover have "held t 2 \<noteq> None" using t(2) by (simp add: stuck_write_def)
  ultimately show ?thesis using t(1) by blast
qed

theorem tee_write_blocks_forever_witness:
  "\<exists>as t. tee_acts as Tee = Some t \<and> tee_act (TPut 2) t = None"
  using tee_write_blocks_forever by (metis tee_acts.simps(1))

end
