(* ===== verification/Profiles.thy ===== *)
theory Profiles
  imports Bigmachine Io_Util "HOL-Library.Word"
begin

text \<open>
  Profiles of the cluster (\<open>profile.go\<close>): the HTTP handler, the choice of the supervisor's method, and \<open>profiler.Marshal\<close>, which
  copies the profile of one machine or gathers the profiles of all running machines in temporary files and prints or merges
  them. The machines' replies and the package \<open>github.com/google/pprof/profile\<close> are parameters; the response is a
  writer that may accept a limited number of bytes.
\<close>

subsection \<open>Numbers in a request\<close>

definition decimal :: "char \<Rightarrow> bool" where "decimal c \<longleftrightarrow> c \<in> set ''0123456789''"

definition digit_value :: "char \<Rightarrow> nat" where "digit_value c = of_char c - 48"

text \<open>\<open>strconv.ParseUint\<close> in base 10: None is a syntax error, the largest value a range error.\<close>

fun parse_uint :: "nat \<Rightarrow> string \<Rightarrow> nat option" where
  "parse_uint n [] = Some n"
| "parse_uint n (c # cs) =
     (if \<not> decimal c then None
      else if n * 10 + digit_value c \<ge> 2 ^ 64 then Some (2 ^ 64 - 1)
      else parse_uint (n * 10 + digit_value c) cs)"

text \<open>The value of \<open>strconv.ParseInt\<close> and \<open>strconv.Atoi\<close> where the error is ignored: zero for a syntax error, the nearest bound for
  a range error.\<close>

definition ParseInt :: "string \<Rightarrow> int" where
  "ParseInt s =
     (let (neg, ds) = (case s of
            [] \<Rightarrow> (False, [])
          | c # r \<Rightarrow> if c = CHR ''-'' then (True, r) else if c = CHR ''+'' then (False, r) else (False, s))
      in if ds = [] then 0
         else case parse_uint 0 ds of
                None \<Rightarrow> 0
              | Some n \<Rightarrow> if neg then max (- (2 ^ 63)) (- int n) else min (2 ^ 63 - 1) (int n))"

subsection \<open>The profiler\<close>

record profiler =
  p_which :: string
  p_addr :: string
  p_sec :: int
  p_debug :: int
  p_gc :: bool

text \<open>The handler's profiler, from the form values of a request.\<close>

definition request_profiler :: "string \<Rightarrow> (string \<Rightarrow> string) \<Rightarrow> profiler" where
  "request_profiler which form =
     \<lparr>p_which = which, p_addr = form ''machine'', p_sec = ParseInt (form ''seconds''), p_debug = ParseInt (form ''debug''),
      p_gc = (ParseInt (form ''gc'') > 0)\<rparr>"

definition profiler_ContentType :: "profiler \<Rightarrow> string" where
  "profiler_ContentType p =
     (if p_debug p > 0 \<and> p_which p \<noteq> ''profile'' then ''text/plain; charset=utf-8'' else ''application/octet-stream'')"

datatype prof_call = CallCPUProfile duration | CallProfile profileRequest

definition getProfile :: "profiler \<Rightarrow> prof_call" where
  "getProfile p =
     (if p_which p = ''profile'' then CallCPUProfile (sint (word_of_int (p_sec p * Second) :: 64 word))
      else CallProfile \<lparr>pr_Name = p_which p, pr_Debug = p_debug p, pr_GC = p_gc p\<rparr>)"

text \<open>A writer, with the number of bytes it still accepts.\<close>

record writer =
  wr_out :: bytes
  wr_cap :: "nat option"

definition write_err :: err where "write_err = Opaque ''write''"

definition write_bytes :: "bytes \<Rightarrow> writer \<Rightarrow> err option \<times> writer" where
  "write_bytes p w =
     (case wr_cap w of
        None \<Rightarrow> (None, w\<lparr>wr_out := wr_out w @ p\<rparr>)
      | Some k \<Rightarrow>
          if length p \<le> k then (None, w\<lparr>wr_out := wr_out w @ p, wr_cap := Some (k - length p)\<rparr>)
          else (Some write_err, w\<lparr>wr_out := wr_out w @ take k p, wr_cap := Some 0\<rparr>))"

definition io_Copy :: "reader \<Rightarrow> writer \<Rightarrow> err option \<times> writer" where
  "io_Copy r w =
     (case ReadAll r of (b, e) \<Rightarrow>
       (case write_bytes b w of (Some we, w) \<Rightarrow> (Some we, w) | (None, w) \<Rightarrow> (e, w)))"

datatype prof_err = NoProfiles string | ProfErr err

text \<open>The profile of one machine: \<open>dialed\<close> is the result of dialing its address, a machine being what its calls give, a reader and the error
  of closing it.\<close>

type_synonym dialer = "string \<Rightarrow> err + (prof_call \<Rightarrow> err + (reader \<times> err option))"

definition marshal_one :: "profiler \<Rightarrow> dialer \<Rightarrow> writer \<Rightarrow> prof_err option \<times> writer" where
  "marshal_one p dialed w =
     (case dialed (p_addr p) of
        Inl e \<Rightarrow> (Some (ProfErr (Errorf ''failed to dial machine: %v'' [Err e])), w)
      | Inr m \<Rightarrow>
          (case m (getProfile p) of
             Inl e \<Rightarrow> (Some (ProfErr (Errorf ''failed to collect %s profile: %v'' [Str (p_which p), Err e])), w)
           | Inr (rc, cerr) \<Rightarrow>
               (case io_Copy rc w of
                  (Some e, w) \<Rightarrow> (Some (ProfErr (Errorf ''failed to write %s profile: %v'' [Str (p_which p), Err e])), w)
                | (None, w) \<Rightarrow> (map_option ProfErr cerr, w))))"

text \<open>A machine of the session as \<open>Marshal\<close> sees it: what its call gives, and the temporary file its profile is kept in.\<close>

record pmach =
  pm_Addr :: string
  pm_State :: State
  pm_reply :: "prof_call \<Rightarrow> err + reader"
  pm_temp :: "err + string"
  pm_seek :: "err option"

fun collect_profiles :: "profiler \<Rightarrow> pmach list \<Rightarrow> (string \<rightharpoonup> bytes) \<Rightarrow> (string \<times> filebuf) list \<times> (string \<rightharpoonup> bytes)" where
  "collect_profiles p [] fs = ([], fs)"
| "collect_profiles p (m # ms) fs =
     (if pm_State m \<noteq> Running then collect_profiles p ms fs
      else case pm_reply m (getProfile p) of
             Inl e \<Rightarrow> collect_profiles p ms fs
           | Inr rc \<Rightarrow>
               (case FileBuf_New (pm_temp m) (pm_seek m) rc fs of
                  (Inl e, fs) \<Rightarrow> collect_profiles p ms fs
                | (Inr prof, fs) \<Rightarrow> (case collect_profiles p ms fs of (profs, fs) \<Rightarrow> ((pm_Addr m, prof) # profs, fs))))"

definition close_prof :: "filebuf \<Rightarrow> (string \<rightharpoonup> bytes) \<Rightarrow> (string \<rightharpoonup> bytes)" where
  "close_prof prof fs = (case FileBuf_Close None prof fs of (e, prof, fs) \<Rightarrow> fs)"

text \<open>The deferred function: it closes what is left.\<close>

definition close_rest :: "(string \<times> filebuf) list \<Rightarrow> (string \<rightharpoonup> bytes) \<Rightarrow> (string \<rightharpoonup> bytes)" where
  "close_rest profs fs = fold (\<lambda>(addr, prof). close_prof prof) profs fs"

text \<open>Output for human readers, machine by machine.\<close>

fun debug_profiles :: "(string \<times> filebuf) list \<Rightarrow> writer \<Rightarrow> (string \<rightharpoonup> bytes) \<Rightarrow> prof_err option \<times> writer \<times> (string \<rightharpoonup> bytes)" where
  "debug_profiles [] w fs = (None, w, fs)"
| "debug_profiles ((addr, prof) # profs) w fs =
     (let w = snd (write_bytes (addr @ '':'' @ [CHR 0x0A]) w)
      in case write_bytes (fb_rest prof) w of (err, w) \<Rightarrow>
        (let fs = close_prof prof fs
         in case err of
              Some e \<Rightarrow> (Some (ProfErr (Errorf ''failed to append profile from %s: %v'' [Str addr, Err e])), w, close_rest profs fs)
            | None \<Rightarrow> debug_profiles profs (snd (write_bytes [CHR 0x0A] w)) fs))"

fun parse_profiles :: "(bytes \<Rightarrow> err + 'p) \<Rightarrow> (string \<times> filebuf) list \<Rightarrow> (string \<rightharpoonup> bytes) \<Rightarrow> (err + 'p list) \<times> (string \<rightharpoonup> bytes)" where
  "parse_profiles parse [] fs = (Inr [], fs)"
| "parse_profiles parse ((addr, prof) # profs) fs =
     (let fs = close_prof prof fs
      in case parse (fb_rest prof) of
           Inl e \<Rightarrow> (Inl (Errorf ''failed to parse profile from %s: %v'' [Str addr, Err e]), close_rest profs fs)
         | Inr x \<Rightarrow>
             (case parse_profiles parse profs fs of
                (Inl e, fs) \<Rightarrow> (Inl e, fs)
              | (Inr xs, fs) \<Rightarrow> (Inr (x # xs), fs)))"

record 'p pproflib =
  profile_Parse :: "bytes \<Rightarrow> err + 'p"
  profile_Merge :: "'p list \<Rightarrow> err + 'p"
  profile_Write :: "'p \<Rightarrow> bytes"

definition merge_profiles :: "'p pproflib \<Rightarrow> (string \<times> filebuf) list \<Rightarrow> writer \<Rightarrow> (string \<rightharpoonup> bytes)
    \<Rightarrow> prof_err option \<times> writer \<times> (string \<rightharpoonup> bytes)" where
  "merge_profiles lib profs w fs =
     (case parse_profiles (profile_Parse lib) profs fs of
        (Inl e, fs) \<Rightarrow> (Some (ProfErr e), w, fs)
      | (Inr parsed, fs) \<Rightarrow>
          (case profile_Merge lib parsed of
             Inl e \<Rightarrow> (Some (ProfErr (Errorf ''profile merge error: %v'' [Err e])), w, fs)
           | Inr prof \<Rightarrow>
               (case write_bytes (profile_Write lib prof) w of
                  (Some e, w) \<Rightarrow> (Some (ProfErr (Errorf ''failed to write profile: %v'' [Err e])), w, fs)
                | (None, w) \<Rightarrow> (None, w, fs))))"

text \<open>\<open>Marshal\<close>: \<open>machines\<close> are those of the session in the order in which maps are
  iterated.\<close>

definition profiler_Marshal :: "'p pproflib \<Rightarrow> dialer \<Rightarrow> pmach list \<Rightarrow> profiler
    \<Rightarrow> writer \<Rightarrow> (string \<rightharpoonup> bytes) \<Rightarrow> prof_err option \<times> writer \<times> (string \<rightharpoonup> bytes)" where
  "profiler_Marshal lib dialed ms p w fs =
     (if p_addr p \<noteq> '''' then (case marshal_one p dialed w of (r, w) \<Rightarrow> (r, w, fs))
      else case collect_profiles p ms fs of (profs, fs) \<Rightarrow>
        if profs = [] then (Some (NoProfiles ''no profiles are available at this time''), w, fs)
        else if p_debug p > 0 \<and> p_which p \<noteq> ''profiles'' then debug_profiles (sort_key fst profs) w fs
        else merge_profiles lib profs w fs)"

text \<open>The handler. An error after output has been written leaves the status as it was sent. The error's text is passed on as a
  format; \<open>printed\<close> is what it prints.\<close>

record presp =
  ps_ContentType :: string
  ps_Status :: int
  ps_Body :: bytes

definition profile_ServeHTTP :: "'p pproflib \<Rightarrow> dialer \<Rightarrow> (prof_err \<Rightarrow> string) \<Rightarrow> pmach list
    \<Rightarrow> string \<Rightarrow> (string \<Rightarrow> string) \<Rightarrow> nat option \<Rightarrow> (string \<rightharpoonup> bytes) \<Rightarrow> presp \<times> (string \<rightharpoonup> bytes)" where
  "profile_ServeHTTP lib dialed printed ms which form cap fs =
     (let p = request_profiler which form
      in case profiler_Marshal lib dialed ms p \<lparr>wr_out = [], wr_cap = cap\<rparr> fs of
           (None, w, fs) \<Rightarrow> (\<lparr>ps_ContentType = profiler_ContentType p, ps_Status = 200, ps_Body = wr_out w\<rparr>, fs)
         | (Some e, w, fs) \<Rightarrow>
             (let code = (case e of NoProfiles s \<Rightarrow> 404 | ProfErr e \<Rightarrow> 500); w' = snd (write_bytes (printed e) w)
              in if wr_out w = []
                 then (\<lparr>ps_ContentType = ''text/plain; charset=utf-8'', ps_Status = code, ps_Body = wr_out w'\<rparr>, fs)
                 else (\<lparr>ps_ContentType = profiler_ContentType p, ps_Status = 200, ps_Body = wr_out w'\<rparr>, fs)))"

definition dump_profiler :: "string \<Rightarrow> int \<Rightarrow> profiler" where
  "dump_profiler which debug = \<lparr>p_which = which, p_addr = '''', p_sec = 30, p_debug = debug, p_gc = False\<rparr>"

subsection \<open>Temporary files\<close>

definition without :: "(string \<rightharpoonup> bytes) \<Rightarrow> string set \<Rightarrow> (string \<rightharpoonup> bytes)" where
  "without fs A = (\<lambda>n. if n \<in> A then None else fs n)"

abbreviation names :: "(string \<times> filebuf) list \<Rightarrow> string set" where
  "names profs \<equiv> (\<lambda>x. fb_name (snd x)) ` set profs"

abbreviation all_open :: "(string \<times> filebuf) list \<Rightarrow> bool" where
  "all_open profs \<equiv> (\<forall>x \<in> set profs. fb_open (snd x))"

lemma without_simps [simp]:
  "without fs {} = fs" "without (without fs A) B = without fs (A \<union> B)"
  by (auto simp: without_def fun_eq_iff)

lemma close_prof_open: "fb_open prof \<Longrightarrow> close_prof prof fs = without fs {fb_name prof}"
  by (auto simp: close_prof_def FileBuf_Close_def without_def fun_eq_iff)

lemma close_rest_without: "all_open profs \<Longrightarrow> close_rest profs fs = without fs (names profs)"
  unfolding close_rest_def by (induction profs arbitrary: fs) (auto simp: close_prof_open)

lemma debug_profiles_files: "all_open profs \<Longrightarrow> snd (snd (debug_profiles profs w fs)) = without fs (names profs)"
  by (induction profs w fs rule: debug_profiles.induct)
    (auto simp: close_prof_open close_rest_without Let_def split: prod.splits option.splits)

lemma parse_profiles_files: "all_open profs \<Longrightarrow> snd (parse_profiles parse profs fs) = without fs (names profs)"
  by (induction parse profs fs rule: parse_profiles.induct)
    (auto simp: close_prof_open close_rest_without Let_def split: prod.splits sum.splits)

lemma merge_profiles_files: "all_open profs \<Longrightarrow> snd (snd (merge_profiles lib profs w fs)) = without fs (names profs)"
  using parse_profiles_files [of profs "profile_Parse lib" fs]
  by (auto simp: merge_profiles_def split: prod.splits sum.splits option.splits)

definition temps :: "pmach list \<Rightarrow> string list" where
  "temps ms = concat (map (\<lambda>m. case pm_temp m of Inl e \<Rightarrow> [] | Inr n \<Rightarrow> [n]) ms)"

text \<open>What a machine contributes, if anything.\<close>

definition answer :: "profiler \<Rightarrow> pmach \<Rightarrow> filebuf option" where
  "answer p m =
     (if pm_State m \<noteq> Running then None
      else case (pm_reply m (getProfile p), pm_temp m) of
             (Inr rc, Inr n) \<Rightarrow>
               (case (ReadAll rc, pm_seek m) of
                  ((b, None), None) \<Rightarrow> Some \<lparr>fb_name = n, fb_rest = b, fb_open = True\<rparr>
                | _ \<Rightarrow> None)
           | _ \<Rightarrow> None)"

definition answers :: "profiler \<Rightarrow> pmach list \<Rightarrow> (string \<times> filebuf) list" where
  "answers p ms = concat (map (\<lambda>m. case answer p m of None \<Rightarrow> [] | Some f \<Rightarrow> [(pm_Addr m, f)]) ms)"

lemma answers_open: "all_open (answers p ms)"
  by (auto simp: answers_def answer_def split: option.splits sum.splits prod.splits if_splits)

lemma FileBuf_New_answer:
  assumes "pm_State m = Running" "pm_reply m (getProfile p) = Inr rc" "\<And>n. pm_temp m = Inr n \<Longrightarrow> fs n = None"
  obtains e where "answer p m = None" "FileBuf_New (pm_temp m) (pm_seek m) rc fs = (Inl e, fs)"
  | n b where "answer p m = Some \<lparr>fb_name = n, fb_rest = b, fb_open = True\<rparr>" "pm_temp m = Inr n"
      "FileBuf_New (pm_temp m) (pm_seek m) rc fs = (Inr \<lparr>fb_name = n, fb_rest = b, fb_open = True\<rparr>, fs(n \<mapsto> b))"
proof (cases "pm_temp m")
  case (Inr n)
  then have gone: "fs(n := None) = fs" using assms(3) by (simp add: fun_upd_idem)
  obtain b e where "ReadAll rc = (b, e)" by fastforce
  then show thesis using that assms(1,2) Inr gone by (cases e; cases "pm_seek m") (auto simp: answer_def FileBuf_New_def)
qed (use that(1) assms(1,2) in \<open>simp add: answer_def FileBuf_New_def\<close>)

lemma collect_profiles_eq:
  assumes "distinct (temps ms)" "\<forall>n \<in> set (temps ms). fs n = None" "collect_profiles p ms fs = (profs, fs')"
  shows "profs = answers p ms \<and> without fs' (names profs) = fs"
  using assms
proof (induction ms arbitrary: fs profs fs')
  case (Cons m ms)
  have t: "distinct (temps ms)" "\<forall>n \<in> set (temps ms). fs n = None" "\<And>n. pm_temp m = Inr n \<Longrightarrow> fs n = None \<and> n \<notin> set (temps ms)"
    using Cons.prems(1,2) by (auto simp: temps_def split: sum.splits)
  have ans: "answers p (m # ms) = (case answer p m of None \<Rightarrow> [] | Some f \<Rightarrow> [(pm_Addr m, f)]) @ answers p ms"
    by (simp add: answers_def)
  show ?case
  proof (cases "pm_State m = Running \<and> (\<exists>rc. pm_reply m (getProfile p) = Inr rc)")
    case True
    then obtain rc where rc: "pm_State m = Running" "pm_reply m (getProfile p) = Inr rc" by blast
    show ?thesis
    proof (cases rule: FileBuf_New_answer [OF rc, of fs])
      case (2 e)
      then have "collect_profiles p ms fs = (profs, fs')" using Cons.prems(3) rc by simp
      from Cons.IH [OF t(1,2) this] show ?thesis using 2(1) ans by auto
    next
      case (3 n b)
      obtain profs1 where c: "collect_profiles p ms (fs(n \<mapsto> b)) = (profs1, fs')"
        "profs = (pm_Addr m, \<lparr>fb_name = n, fb_rest = b, fb_open = True\<rparr>) # profs1"
        using Cons.prems(3) rc 3(3) by (auto split: prod.splits)
      have "\<forall>n' \<in> set (temps ms). (fs(n \<mapsto> b)) n' = None" using t 3(2) by auto
      then have IH: "profs1 = answers p ms" "without fs' (names profs1) = fs(n \<mapsto> b)" using Cons.IH [OF t(1) _ c(1)] by blast+
      have "without fs' (names profs) = without (without fs' (names profs1)) {n}" by (simp add: c(2) Un_commute)
      also have "\<dots> = fs" using t(3) [OF 3(2)] unfolding IH(2) by (simp add: without_def fun_eq_iff)
      finally show ?thesis using IH(1) c(2) ans 3(1) by simp
    qed (use t(3) in blast)
  next
    case False
    then have "answer p m = None" "collect_profiles p ms fs = (profs, fs')"
      using Cons.prems(3) by (auto simp: answer_def split: sum.splits if_splits)
    with Cons.IH [OF t(1,2) this(2)] show ?thesis using ans by auto
  qed
qed (simp add: answers_def)

text \<open>C32. Writing a profile leaves no temporary file behind, however it ends: with a failure to read, parse, merge or write, or with
  success, the files are those there were before.\<close>

theorem Marshal_no_temp_files:
  assumes "distinct (temps ms)" "\<forall>n \<in> set (temps ms). fs n = None"
  shows "snd (snd (profiler_Marshal lib dialed ms p w fs)) = fs"
proof (cases "p_addr p = ''''")
  case True
  obtain profs fs1 where c: "collect_profiles p ms fs = (profs, fs1)" by fastforce
  have e: "profs = answers p ms" "without fs1 (names profs) = fs" using collect_profiles_eq [OF assms c] by blast+
  have o: "all_open profs" "all_open (sort_key fst profs)" using answers_open e(1) by auto
  have n: "names (sort_key fst profs) = names profs" by simp
  show ?thesis using True c e(2) debug_profiles_files [OF o(2), of w fs1] merge_profiles_files [OF o(1), of lib w fs1] n
    by (auto simp: profiler_Marshal_def)
qed (simp add: profiler_Marshal_def split: prod.splits)

definition demo_pmach :: "string \<Rightarrow> bytes \<Rightarrow> pmach" where
  "demo_pmach addr b = \<lparr>pm_Addr = addr, pm_State = Running, pm_reply = (\<lambda>c. Inr [(b, None)]), pm_temp = Inr (''/tmp/'' @ addr), pm_seek = None\<rparr>"

definition demo_lib :: "bytes pproflib" where
  "demo_lib = \<lparr>profile_Parse = (\<lambda>b. if b = ''bad'' then Inl (Opaque ''parse'') else Inr b), profile_Merge = (\<lambda>bs. Inr (concat bs)), profile_Write = (\<lambda>b. b)\<rparr>"

theorem Marshal_no_temp_files_witness:
  "snd (snd (profiler_Marshal demo_lib (\<lambda>a. Inl Canceled) [demo_pmach ''b'' ''x'', demo_pmach ''a'' ''bad''] (dump_profiler ''heap'' 0)
      \<lparr>wr_out = [], wr_cap = None\<rparr> Map.empty)) = Map.empty"
  by (rule Marshal_no_temp_files) (simp_all add: temps_def demo_pmach_def)

lemma debug_profiles_output:
  "\<exists>fs'. debug_profiles profs \<lparr>wr_out = o1, wr_cap = None\<rparr> fs = (None, \<lparr>wr_out =
      o1 @ concat (map (\<lambda>(addr, f). addr @ '':'' @ [CHR 0x0A] @ fb_rest f @ [CHR 0x0A]) profs), wr_cap = None\<rparr>, fs')"
proof (induction profs arbitrary: o1 fs)
  case (Cons x profs)
  obtain addr f where x: "x = (addr, f)" by fastforce
  from Cons.IH [of "o1 @ addr @ '':'' @ [CHR 0x0A] @ fb_rest f @ [CHR 0x0A]" "close_prof f fs"] show ?case
    by (simp add: x write_bytes_def)
qed simp

lemma debug_Marshal:
  assumes "distinct (temps ms)" "\<forall>n \<in> set (temps ms). fs n = None"
    and "p_addr p = ''''" "p_debug p > 0" "p_which p \<noteq> ''profiles''" "answers p ms \<noteq> []"
  shows "\<exists>w fs'. profiler_Marshal lib dialed ms p \<lparr>wr_out = [], wr_cap = None\<rparr> fs = (None, w, fs') \<and>
    wr_out w = concat (map (\<lambda>(addr, f). addr @ '':'' @ [CHR 0x0A] @ fb_rest f @ [CHR 0x0A]) (sort_key fst (answers p ms)))"
proof -
  obtain profs fs1 where c: "collect_profiles p ms fs = (profs, fs1)" by fastforce
  have "profs = answers p ms" using collect_profiles_eq [OF assms(1,2) c] by blast
  then show ?thesis using assms(3-6) c debug_profiles_output [of "sort_key fst profs" "[]" fs1] by (auto simp: profiler_Marshal_def)
qed

text \<open>The readable form of a profile has one section for each running machine that answered, in the order of the addresses,
  with the whole of the answer.\<close>

theorem debug_profile_output:
  assumes "distinct (temps ms)" "\<forall>n \<in> set (temps ms). fs n = None"
    and "p_addr p = ''''" "p_debug p > 0" "p_which p \<noteq> ''profiles''" "answers p ms \<noteq> []"
  shows "\<exists>w fs'. profiler_Marshal lib dialed ms p \<lparr>wr_out = [], wr_cap = None\<rparr> fs = (None, w, fs') \<and>
    wr_out w = concat (map (\<lambda>(addr, f). addr @ '':'' @ [CHR 0x0A] @ fb_rest f @ [CHR 0x0A]) (sort_key fst (answers p ms)))"
  by (rule debug_Marshal [OF assms])

theorem debug_profile_output_witness:
  "\<exists>w fs'. profiler_Marshal demo_lib (\<lambda>a. Inl Canceled) [demo_pmach ''b'' ''x'', demo_pmach ''a'' ''y''] (dump_profiler ''heap'' 1)
      \<lparr>wr_out = [], wr_cap = None\<rparr> Map.empty = (None, w, fs') \<and> wr_out w = ''a:'' @ [CHR 0x0A] @ ''y'' @ [CHR 0x0A] @ ''b:'' @ [CHR 0x0A] @ ''x'' @ [CHR 0x0A]"
proof -
  let ?p = "dump_profiler ''heap'' 1"
  have a: "answers ?p [demo_pmach ''b'' ''x'', demo_pmach ''a'' ''y''] = [(''b'', \<lparr>fb_name = ''/tmp/b'', fb_rest = ''x'', fb_open = True\<rparr>),
      (''a'', \<lparr>fb_name = ''/tmp/a'', fb_rest = ''y'', fb_open = True\<rparr>)]"
    by (simp add: answers_def answer_def demo_pmach_def)
  have "sort_key fst (answers ?p [demo_pmach ''b'' ''x'', demo_pmach ''a'' ''y'']) = [(''a'', \<lparr>fb_name = ''/tmp/a'', fb_rest = ''y'', fb_open = True\<rparr>),
      (''b'', \<lparr>fb_name = ''/tmp/b'', fb_rest = ''x'', fb_open = True\<rparr>)]"
    unfolding a by code_simp
  with debug_profile_output [of "[demo_pmach ''b'' ''x'', demo_pmach ''a'' ''y'']" Map.empty ?p] a show ?thesis
    by (simp add: temps_def demo_pmach_def dump_profiler_def)
qed

text \<open>The handler answers 404 exactly if the profile is asked of the whole cluster and no machine contributes one.\<close>

theorem profile_not_found_iff:
  assumes "distinct (temps ms)" "\<forall>n \<in> set (temps ms). fs n = None"
  shows "ps_Status (fst (profile_ServeHTTP lib dialed printed ms which form cap fs)) = 404 \<longleftrightarrow>
    form ''machine'' = '''' \<and> answers (request_profiler which form) ms = []"
proof -
  let ?p = "request_profiler which form"
  let ?w = "\<lparr>wr_out = [], wr_cap = cap\<rparr>"
  obtain profs fs1 where c: "collect_profiles ?p ms fs = (profs, fs1)" by fastforce
  have p: "profs = answers ?p ms" using collect_profiles_eq [OF assms c] by blast
  have one: "fst (marshal_one ?p r w) \<noteq> Some (NoProfiles s)" for r w s
    by (auto simp: marshal_one_def split: sum.splits prod.splits option.splits)
  have dbg: "fst (debug_profiles ps w fs) \<noteq> Some (NoProfiles s)" for ps w fs s
    by (induction ps w fs rule: debug_profiles.induct) (auto simp: Let_def split: prod.splits option.splits)
  have mrg: "fst (merge_profiles lib ps w fs) \<noteq> Some (NoProfiles s)" for ps w fs s
    by (auto simp: merge_profiles_def split: sum.splits prod.splits option.splits)
  have f: "p_addr ?p = form ''machine''" by (simp add: request_profiler_def)
  have m: "(\<exists>s. fst (profiler_Marshal lib dialed ms ?p ?w fs) = Some (NoProfiles s)) \<longleftrightarrow> form ''machine'' = '''' \<and> answers ?p ms = []"
  proof (cases "form ''machine'' = ''''")
    case True
    then show ?thesis using c p dbg mrg f by (simp add: profiler_Marshal_def)
  next
    case False
    then show ?thesis using one [of dialed ?w] f
      by (cases "marshal_one ?p dialed ?w") (simp add: profiler_Marshal_def)
  qed
  have none: "wr_out (fst (snd (profiler_Marshal lib dialed ms ?p ?w fs))) = []" if "form ''machine'' = '''' \<and> answers ?p ms = []"
    using c p that f by (simp add: profiler_Marshal_def)
  obtain e w' fs' where r: "profiler_Marshal lib dialed ms ?p ?w fs = (e, w', fs')" by (metis surj_pair)
  show ?thesis using m none r by (auto simp: profile_ServeHTTP_def Let_def split: option.splits prof_err.splits)
qed


theorem profile_not_found_iff_witness:
  "ps_Status (fst (profile_ServeHTTP demo_lib (\<lambda>a. Inl Canceled) (\<lambda>e. ''none'') [(demo_pmach ''b'' ''x'')\<lparr>pm_State := Stopped\<rparr>] ''heap''
      (\<lambda>k. '''') None Map.empty)) = 404"
  using profile_not_found_iff [of "[(demo_pmach ''b'' ''x'')\<lparr>pm_State := Stopped\<rparr>]" Map.empty demo_lib "\<lambda>a. Inl Canceled" "\<lambda>e. ''none''" "''heap''" "\<lambda>k. ''''" None]
  by (simp add: temps_def demo_pmach_def answers_def answer_def)

text \<open>The readable form of the CPU profile (\<open>debug\<close> above zero) is sent as binary data: the output is chosen by comparing the name with
  \<open>profiles\<close>, the content type by comparing it with \<open>profile\<close>, so the samples of the machines, which are binary, are written one after the
  other with headings between them and not merged.\<close>

theorem cpu_debug_mislabelled:
  assumes "distinct (temps ms)" "\<forall>n \<in> set (temps ms). fs n = None"
    and "form ''machine'' = ''''" "ParseInt (form ''debug'') > 0" "answers (request_profiler ''profile'' form) ms \<noteq> []"
  shows "fst (profile_ServeHTTP lib dialed printed ms ''profile'' form None fs) =
    \<lparr>ps_ContentType = ''application/octet-stream'', ps_Status = 200,
     ps_Body = concat (map (\<lambda>(addr, f). addr @ '':'' @ [CHR 0x0A] @ fb_rest f @ [CHR 0x0A])
                 (sort_key fst (answers (request_profiler ''profile'' form) ms)))\<rparr>"
proof -
  let ?p = "request_profiler ''profile'' form"
  have "p_addr ?p = ''''" "p_debug ?p > 0" "p_which ?p \<noteq> ''profiles''" "p_which ?p = ''profile''"
    using assms(3,4) by (simp_all add: request_profiler_def)
  note p = this
  show ?thesis using debug_Marshal [OF assms(1,2) p(1-3) assms(5), of lib dialed] p(4)
    by (auto simp: profile_ServeHTTP_def profiler_ContentType_def)
qed

theorem cpu_debug_mislabelled_witness:
  "ps_ContentType (fst (profile_ServeHTTP demo_lib (\<lambda>a. Inl Canceled) (\<lambda>e. ''none'') [demo_pmach ''b'' ''x''] ''profile''
      ((\<lambda>k. '''')(''debug'' := ''1'')) None Map.empty)) = ''application/octet-stream''"
  using cpu_debug_mislabelled [of "[demo_pmach ''b'' ''x'']" Map.empty "(\<lambda>k. '''')(''debug'' := ''1'')" demo_lib "\<lambda>a. Inl Canceled" "\<lambda>e. ''none''"]
  by (simp add: temps_def demo_pmach_def answers_def answer_def ParseInt_def decimal_def digit_value_def)

text \<open>The length of a CPU profile asked of the supervisor is the number of seconds of the request in nanoseconds, up to 9223372036
  seconds; for one second more the product wraps around and the length is negative.\<close>

theorem cpu_seconds:
  assumes "p_which p = ''profile''" "0 \<le> p_sec p" "p_sec p \<le> 9223372037"
  shows "getProfile p = CallCPUProfile (if p_sec p \<le> 9223372036 then p_sec p * Second else p_sec p * Second - 2 ^ 64)"
proof -
  have w: "sint (word_of_int x :: 64 word) = (x + 2 ^ 63) mod 2 ^ 64 - 2 ^ 63" for x
    by (simp add: int_word_sint)
  have "getProfile p = CallCPUProfile ((p_sec p * Second + 2 ^ 63) mod 2 ^ 64 - 2 ^ 63)"
    unfolding getProfile_def w using assms(1) by simp
  moreover have "(p_sec p * Second + 2 ^ 63) mod 2 ^ 64 = p_sec p * Second + 2 ^ 63" if "p_sec p \<le> 9223372036"
    using that assms(2) by (intro mod_pos_pos_trivial) (simp_all add: duration_defs)
  moreover have "p_sec p = 9223372037" if "\<not> p_sec p \<le> 9223372036" using that assms(3) by simp
  ultimately show ?thesis by (auto simp: duration_defs)
qed

theorem cpu_seconds_witness:
  "getProfile ((dump_profiler ''profile'' 0)\<lparr>p_sec := 9223372037\<rparr>) = CallCPUProfile (- 9223372036709551616)"
  using cpu_seconds [of "(dump_profiler ''profile'' 0)\<lparr>p_sec := 9223372037\<rparr>"] by (simp add: dump_profiler_def duration_defs)

end
