(* ===== verification/Authority.thy ===== *)
theory Authority
  imports Go_Base
begin

text \<open>
  The certificate authority of a session (\<open>internal/authority/authority.go\<close>): its creation or reading from
  a file, and the certificates it issues. Keys (\<open>'k\<close>), certificates (\<open>'c\<close>) and the packages \<open>rsa\<close>, \<open>x509\<close>,
  \<open>pem\<close> and \<open>tls\<close> are the parameter \<open>x509lib\<close>; the random source is a number handed to it. The
  file system is a map from names to contents, with the errors reading and writing may give.
\<close>

definition DriftMargin :: duration where "DriftMargin = Minute"

definition certDuration :: duration where "certDuration = 7 * 24 * Hour"

datatype key_usage = KeyEncipherment | DigitalSignature | CertSign | ClientAuth | ServerAuth

record template =
  SerialNumber :: int
  CommonName :: string
  NotBefore :: time
  NotAfter :: time
  KeyUsage :: "key_usage list"
  ExtKeyUsage :: "key_usage list"
  BasicConstraintsValid :: bool
  IsCA :: bool
  IPAddresses :: "string list"
  DNSNames :: "string list"

record ('k, 'c) x509lib =
  GenerateKey :: "nat \<Rightarrow> err + 'k"
  rand_Int :: "nat \<Rightarrow> int \<Rightarrow> err + int"
  CreateCertificate :: "nat \<Rightarrow> template \<Rightarrow> ('c option) \<Rightarrow> 'k \<Rightarrow> 'k \<Rightarrow> err + bytes"
    \<comment> \<open>randomness, template, parent (None: the template itself), the subject's key, the signing key\<close>
  ParseCertificate :: "bytes \<Rightarrow> err + 'c"
  ParseKey :: "bytes \<Rightarrow> err + 'k"
  MarshalKey :: "'k \<Rightarrow> bytes"
  pem_Encode :: "string \<times> bytes \<Rightarrow> err + bytes"
  pem_Decode :: "bytes \<Rightarrow> (string \<times> bytes) option \<times> bytes"
  X509KeyPair :: "bytes \<Rightarrow> bytes \<Rightarrow> err + bytes"

record ('k, 'c) authority =
  a_key :: 'k
  a_cert :: 'c
  certPEM :: bytes
  keyPEM :: bytes

text \<open>The year 2060 and the certificate of the authority itself.\<close>

definition ca_template :: "time \<Rightarrow> time \<Rightarrow> template" where
  "ca_template now y2060 =
     \<lparr>SerialNumber = 1, CommonName = ''bigmachine'', NotBefore = now - DriftMargin, NotAfter = y2060,
      KeyUsage = [KeyEncipherment, DigitalSignature, CertSign], ExtKeyUsage = [ClientAuth, ServerAuth],
      BasicConstraintsValid = True, IsCA = True, IPAddresses = [], DNSNames = []\<rparr>"

definition encodePEM :: "('k, 'c) x509lib \<Rightarrow> string \<Rightarrow> bytes \<Rightarrow> err + bytes" where
  "encodePEM X typ b = pem_Encode X (typ, b)"

text \<open>The function \<open>New\<close> passes to \<open>cached\<close>.\<close>

definition gen_ca :: "('k, 'c) x509lib \<Rightarrow> nat \<Rightarrow> time \<Rightarrow> time \<Rightarrow> err + bytes" where
  "gen_ca X rnd now y2060 =
     (case GenerateKey X rnd of
        Inl e \<Rightarrow> Inl e
      | Inr key \<Rightarrow>
          (case CreateCertificate X rnd (ca_template now y2060) None key key of
             Inl e \<Rightarrow> Inl e
           | Inr cert \<Rightarrow>
               (case pem_Encode X (''CERTIFICATE'', cert) of
                  Inl e \<Rightarrow> Inl e
                | Inr b1 \<Rightarrow>
                    (case pem_Encode X (''RSA PRIVATE KEY'', MarshalKey X key) of
                       Inl e \<Rightarrow> Inl e
                     | Inr b2 \<Rightarrow> Inr (b1 @ b2)))))"

text \<open>A file system: the contents, the error reading an existing file gives with the bytes read before it, and the
  error writing gives with what it leaves in the file.\<close>

record afs =
  a_files :: "string \<rightharpoonup> bytes"
  a_read_err :: "string \<Rightarrow> (err \<times> bytes) option"
  a_write_err :: "string \<Rightarrow> (err \<times> bytes option) option"

definition cached_pem :: "string \<Rightarrow> err + bytes \<Rightarrow> afs \<Rightarrow> (err + bytes) \<times> afs" where
  "cached_pem filename gen fs =
     (if filename = '''' then (gen, fs)
      else case a_files fs filename of
        Some p \<Rightarrow> (case a_read_err fs filename of None \<Rightarrow> (Inr p, fs) | Some (e, q) \<Rightarrow> (Inr q, fs))
      | None \<Rightarrow>
          (case gen of
             Inl e \<Rightarrow> (Inl e, fs)
           | Inr p \<Rightarrow>
               (case a_write_err fs filename of
                  Some (e, left) \<Rightarrow> (Inl e, fs\<lparr>a_files := (a_files fs)(filename := left)\<rparr>)
                | None \<Rightarrow> (Inr p, fs\<lparr>a_files := (a_files fs)(filename \<mapsto> p)\<rparr>))))"

text \<open>The loop over the PEM blocks: the last certificate and the last key.\<close>

partial_function (option) pem_loop :: "('k, 'c) x509lib \<Rightarrow> bytes \<Rightarrow> bytes option \<Rightarrow> bytes option
    \<Rightarrow> (bytes option \<times> bytes option) option" where
  "pem_loop X pemBlock certBlock keyBlock =
     (case pem_Decode X pemBlock of
        (None, rest) \<Rightarrow> Some (certBlock, keyBlock)
      | (Some (typ, b), rest) \<Rightarrow>
          pem_loop X rest
            (if typ = ''CERTIFICATE'' then Some b else certBlock)
            (if typ \<noteq> ''CERTIFICATE'' \<and> typ = ''RSA PRIVATE KEY'' then Some b else keyBlock))"

definition parse_ca :: "('k, 'c) x509lib \<Rightarrow> bytes option \<Rightarrow> bytes option \<Rightarrow> err + ('k, 'c) authority" where
  "parse_ca X certBlock keyBlock =
     (case (certBlock, keyBlock) of
        (Some cb, Some kb) \<Rightarrow>
          (case ParseCertificate X cb of
             Inl e \<Rightarrow> Inl e
           | Inr cert \<Rightarrow>
          (case ParseKey X kb of
             Inl e \<Rightarrow> Inl e
           | Inr key \<Rightarrow>
          (case encodePEM X ''CERTIFICATE'' cb of
             Inl e \<Rightarrow> Inl e
           | Inr cp \<Rightarrow>
          (case encodePEM X ''RSA PRIVATE KEY'' (MarshalKey X key) of
             Inl e \<Rightarrow> Inl e
           | Inr kp \<Rightarrow> Inr \<lparr>a_key = key, a_cert = cert, certPEM = cp, keyPEM = kp\<rparr>))))
      | _ \<Rightarrow> Inl (Errorf ''httpsca: incomplete certificate'' []))"

text \<open>\<open>New\<close>; None when the loop over the blocks does not end.\<close>

definition authority_New :: "('k, 'c) x509lib \<Rightarrow> string \<Rightarrow> nat \<Rightarrow> time \<Rightarrow> time \<Rightarrow> afs
    \<Rightarrow> ((err + ('k, 'c) authority) \<times> afs) option" where
  "authority_New X filename rnd now y2060 fs =
     (case cached_pem filename (gen_ca X rnd now y2060) fs of
        (Inl e, fs) \<Rightarrow> Some (Inl (Errorf ''could not build CA: %v'' [Err e]), fs)
      | (Inr pemBlock, fs) \<Rightarrow>
          (case pem_loop X pemBlock None None of
             None \<Rightarrow> None
           | Some (certBlock, keyBlock) \<Rightarrow> Some (parse_ca X certBlock keyBlock, fs)))"

definition Contents :: "('k, 'c) authority \<Rightarrow> bytes" where
  "Contents c = certPEM c @ keyPEM c"

definition issue_template :: "int \<Rightarrow> string \<Rightarrow> duration \<Rightarrow> string list \<Rightarrow> string list \<Rightarrow> time \<Rightarrow> template" where
  "issue_template serial cn ttl ips dnss now =
     (let now = now - DriftMargin
      in \<lparr>SerialNumber = serial, CommonName = cn, NotBefore = now, NotAfter = now + (DriftMargin + ttl),
          KeyUsage = [KeyEncipherment, DigitalSignature], ExtKeyUsage = [ServerAuth, ClientAuth],
          BasicConstraintsValid = True, IsCA = False, IPAddresses = ips, DNSNames = dnss\<rparr>)"

definition Issue :: "('k, 'c) x509lib \<Rightarrow> ('k, 'c) authority \<Rightarrow> string \<Rightarrow> duration \<Rightarrow> string list \<Rightarrow> string list \<Rightarrow> nat \<Rightarrow> time
    \<Rightarrow> err + (template \<times> bytes \<times> 'k)" where
  "Issue X c cn ttl ips dnss rnd now =
     (case rand_Int X rnd (2 ^ 128) of
        Inl e \<Rightarrow> Inl e
      | Inr serial \<Rightarrow>
          (let tmpl = issue_template serial cn ttl ips dnss now
           in case GenerateKey X rnd of
                Inl e \<Rightarrow> Inl e
              | Inr key \<Rightarrow>
                  (case CreateCertificate X rnd tmpl (Some (a_cert c)) key (a_key c) of
                     Inl e \<Rightarrow> Inl e
                   | Inr cert \<Rightarrow> Inr (tmpl, cert, key))))"

record tls_config =
  RootCAs :: "bytes option"
  ClientCAs :: "bytes option"
  InsecureSkipVerify :: bool
  Certificates :: "bytes list"
  RequireClientCert :: bool

definition HTTPSConfig :: "('k, 'c) x509lib \<Rightarrow> ('k, 'c) authority \<Rightarrow> nat \<Rightarrow> time \<Rightarrow> err + (tls_config \<times> tls_config)" where
  "HTTPSConfig X c rnd now =
     (case Issue X c ''bigmachine'' certDuration [] [] rnd now of
        Inl e \<Rightarrow> Inl e
      | Inr (tmpl, cert, key) \<Rightarrow>
     (case encodePEM X ''CERTIFICATE'' cert of
        Inl e \<Rightarrow> Inl e
      | Inr cp \<Rightarrow>
     (case encodePEM X ''RSA PRIVATE KEY'' (MarshalKey X key) of
        Inl e \<Rightarrow> Inl e
      | Inr kp \<Rightarrow>
     (case X509KeyPair X cp kp of
        Inl e \<Rightarrow> Inl e
      | Inr tlscert \<Rightarrow>
          Inr (\<lparr>RootCAs = Some (certPEM c), ClientCAs = None, InsecureSkipVerify = True, Certificates = [tlscert],
                RequireClientCert = False\<rparr>,
               \<lparr>RootCAs = None, ClientCAs = Some (certPEM c), InsecureSkipVerify = False, Certificates = [tlscert],
                RequireClientCert = False\<rparr>)))))"

subsection \<open>Reading the authority back\<close>

text \<open>What the packages document: an encoded block is the first one decoded; nothing is decoded from no bytes; keys
  survive marshalling; decoding a block consumes bytes.\<close>

definition pem_laws :: "('k, 'c) x509lib \<Rightarrow> bool" where
  "pem_laws X \<longleftrightarrow>
     (\<forall>blk p rest. pem_Encode X blk = Inr p \<longrightarrow> pem_Decode X (p @ rest) = (Some blk, rest)) \<and>
     pem_Decode X [] = (None, []) \<and>
     (\<forall>k. ParseKey X (MarshalKey X k) = Inr k)"

definition pem_consumes :: "('k, 'c) x509lib \<Rightarrow> bool" where
  "pem_consumes X \<longleftrightarrow> (\<forall>b blk rest. pem_Decode X b = (Some blk, rest) \<longrightarrow> length rest < length b)"

lemmas pem_loop_unfold = pem_loop.simps [of X b c k for X b c k]

lemma pem_loop_ends:
  assumes "pem_consumes X"
  shows "\<exists>r. pem_loop X b c k = Some r"
proof (induction b arbitrary: c k rule: length_induct)
  case (1 b)
  obtain d rest where d: "pem_Decode X b = (d, rest)" by fastforce
  show ?case
  proof (cases d)
    case (Some blk)
    then have "length rest < length b" using assms d unfolding pem_consumes_def by blast
    with 1 have "\<exists>r. pem_loop X rest c' k' = Some r" for c' k' by blast
    then show ?thesis using d Some by (simp add: pem_loop_unfold [of X b] split: prod.splits)
  qed (use d in \<open>simp add: pem_loop_unfold [of X b]\<close>)
qed

lemma pem_loop_two:
  assumes laws: "pem_laws X" and "pem_Encode X (''CERTIFICATE'', cb) = Inr p" "pem_Encode X (''RSA PRIVATE KEY'', kb) = Inr q"
  shows "pem_loop X (p @ q) None None = Some (Some cb, Some kb)"
proof -
  have "pem_Decode X (p @ q) = (Some (''CERTIFICATE'', cb), q)" "pem_Decode X q = (Some (''RSA PRIVATE KEY'', kb), [])"
    "pem_Decode X [] = (None, [])"
    using assms unfolding pem_laws_def by (blast, metis append_Nil2, blast)
  then show ?thesis by (simp add: pem_loop_unfold [of X "p @ q"] pem_loop_unfold [of X q] pem_loop_unfold [of X "[]"])
qed

lemma parse_caE:
  assumes "parse_ca X certBlock keyBlock = Inr ca"
  obtains cb kb where "certBlock = Some cb" "keyBlock = Some kb"
    "ParseCertificate X cb = Inr (a_cert ca)" "ParseKey X kb = Inr (a_key ca)"
    "pem_Encode X (''CERTIFICATE'', cb) = Inr (certPEM ca)"
    "pem_Encode X (''RSA PRIVATE KEY'', MarshalKey X (a_key ca)) = Inr (keyPEM ca)"
  using assms by (auto simp: parse_ca_def encodePEM_def split: option.splits sum.splits)

lemma authority_NewE:
  assumes "authority_New X filename rnd now y fs = Some (Inr ca, fs')"
  obtains p c k where "cached_pem filename (gen_ca X rnd now y) fs = (Inr p, fs')"
    "pem_loop X p None None = Some (c, k)" "parse_ca X c k = Inr ca"
  using assms by (auto simp: authority_New_def split: prod.splits sum.splits option.splits)

lemma authority_New_Contents:
  assumes "pem_laws X" and "authority_New X filename rnd now y fs = Some (Inr ca, fs')"
    and "file \<noteq> ''''" "a_files gs file = Some (Contents ca)" "a_read_err gs file = None"
  shows "authority_New X file rnd' now' y' gs = Some (Inr ca, gs)"
proof -
  obtain c k where "parse_ca X c k = Inr ca" using assms(2) by (rule authority_NewE)
  then obtain cb where ca: "ParseCertificate X cb = Inr (a_cert ca)"
    "pem_Encode X (''CERTIFICATE'', cb) = Inr (certPEM ca)"
    "pem_Encode X (''RSA PRIVATE KEY'', MarshalKey X (a_key ca)) = Inr (keyPEM ca)"
    by (rule parse_caE)
  have "pem_loop X (Contents ca) None None = Some (Some cb, Some (MarshalKey X (a_key ca)))"
    unfolding Contents_def by (rule pem_loop_two [OF assms(1) ca(2,3)])
  moreover have "ParseKey X (MarshalKey X (a_key ca)) = Inr (a_key ca)" using assms(1) by (simp add: pem_laws_def)
  ultimately show ?thesis
    using assms(3-5) ca by (simp add: authority_New_def cached_pem_def parse_ca_def encodePEM_def)
qed

text \<open>A toy instance of the packages: a block is its type's first letter, a length in unary and the bytes.\<close>

fun toy_take :: "nat \<Rightarrow> bytes \<Rightarrow> (nat \<times> bytes)" where
  "toy_take n [] = (n, [])"
| "toy_take n (c # b) = (if c = CHR ''.'' then toy_take (Suc n) b else (n, b))"

definition toy_type :: "char \<Rightarrow> string" where
  "toy_type c = (if c = CHR ''C'' then ''CERTIFICATE'' else ''RSA PRIVATE KEY'')"

definition toy_x509 :: "(nat, bytes) x509lib" where
  "toy_x509 = \<lparr>GenerateKey = Inr, rand_Int = (\<lambda>r n. Inr (int r mod n)),
     CreateCertificate = (\<lambda>r t parent k sk. Inr (CommonName t)), ParseCertificate = Inr,
     ParseKey = (\<lambda>b. Inr (length b)), MarshalKey = (\<lambda>k. replicate k (CHR ''k'')),
     pem_Encode = (\<lambda>(typ, b). if typ = ''CERTIFICATE'' then Inr (CHR ''C'' # replicate (length b) (CHR ''.'') @ CHR ''|'' # b)
        else if typ = ''RSA PRIVATE KEY'' then Inr (CHR ''K'' # replicate (length b) (CHR ''.'') @ CHR ''|'' # b)
        else Inl (Errorf ''bad type'' [])),
     pem_Decode = (\<lambda>b. case b of [] \<Rightarrow> (None, [])
        | c # b \<Rightarrow> (case toy_take 0 b of (n, r) \<Rightarrow> (Some (toy_type c, take n r), drop n r))),
     X509KeyPair = (\<lambda>c k. Inr (c @ k))\<rparr>"

lemma toy_take_encoded: "toy_take m (replicate n (CHR ''.'') @ CHR ''|'' # r) = (m + n, r)"
  by (induction n arbitrary: m) auto

lemma toy_take_length: "length (snd (toy_take n b)) \<le> length b"
  by (induction n b rule: toy_take.induct) auto

lemma toy_pem_laws: "pem_laws toy_x509"
  by (auto simp: pem_laws_def toy_x509_def toy_take_encoded toy_type_def split: if_splits)

lemma toy_pem_consumes: "pem_consumes toy_x509"
  unfolding pem_consumes_def toy_x509_def
  using toy_take_length [of 0] by (auto split: list.splits prod.splits) (metis le_imp_less_Suc less_imp_diff_less snd_conv)

definition toy_fs :: afs where
  "toy_fs = \<lparr>a_files = Map.empty, a_read_err = (\<lambda>f. None), a_write_err = (\<lambda>f. None)\<rparr>"

definition toy_ca :: "(nat, bytes) authority" where
  "toy_ca = \<lparr>a_key = 3, a_cert = ''bigmachine'', certPEM = ''C..........|bigmachine'', keyPEM = ''K...|kkk''\<rparr>"

lemma toy_New_beside:
  assumes "f = '''' \<or> a_files fs f = None \<and> a_write_err fs f = None"
  shows "authority_New toy_x509 f 3 now y fs = Some (Inr toy_ca, if f = '''' then fs else fs\<lparr>a_files := (a_files fs)(f \<mapsto> Contents toy_ca)\<rparr>)"
proof -
  have g: "gen_ca toy_x509 3 now y = Inr (Contents toy_ca)"
    by (simp add: gen_ca_def toy_x509_def ca_template_def toy_ca_def Contents_def eval_nat_numeral)
  have e: "pem_Encode toy_x509 (''CERTIFICATE'', ''bigmachine'') = Inr (certPEM toy_ca)"
    "pem_Encode toy_x509 (''RSA PRIVATE KEY'', ''kkk'') = Inr (keyPEM toy_ca)"
    by (simp_all add: toy_x509_def toy_ca_def)
  have l: "pem_loop toy_x509 (Contents toy_ca) None None = Some (Some ''bigmachine'', Some ''kkk'')"
    unfolding Contents_def by (rule pem_loop_two [OF toy_pem_laws e])
  have p: "parse_ca toy_x509 (Some ''bigmachine'') (Some ''kkk'') = Inr toy_ca"
    by (simp add: parse_ca_def encodePEM_def toy_x509_def toy_ca_def eval_nat_numeral)
  show ?thesis using g l p assms by (auto simp: authority_New_def cached_pem_def)
qed

lemma toy_New:
  "authority_New toy_x509 f 3 now y toy_fs =
     Some (Inr toy_ca, if f = '''' then toy_fs else toy_fs\<lparr>a_files := [f \<mapsto> Contents toy_ca]\<rparr>)"
  using toy_New_beside [of f toy_fs now y] by (simp add: toy_fs_def)

text \<open>C23. Reading back what \<open>Contents\<close> returns gives the same authority, whatever the clock and the random source:
  the authority that a system ships to its machines is the driver's.\<close>

theorem Contents_roundtrip:
  assumes "pem_laws X" and "authority_New X filename rnd now y fs = Some (Inr ca, fs')"
    and "file \<noteq> ''''" "a_files gs file = Some (Contents ca)" "a_read_err gs file = None"
  shows "authority_New X file rnd' now' y' gs = Some (Inr ca, gs)"
  using assms by (rule authority_New_Contents)

theorem Contents_roundtrip_witness:
  "authority_New toy_x509 ''ca.pem'' 8 5 9 (toy_fs\<lparr>a_files := [''ca.pem'' \<mapsto> Contents toy_ca]\<rparr>) =
     Some (Inr toy_ca, toy_fs\<lparr>a_files := [''ca.pem'' \<mapsto> Contents toy_ca]\<rparr>)"
  by (rule Contents_roundtrip [OF toy_pem_laws toy_New]) (simp_all add: toy_fs_def)

lemma authority_New_read_err: "authority_New X f rnd now y fs = Some (r, fs') \<Longrightarrow> a_read_err fs' = a_read_err fs"
  by (auto simp: authority_New_def cached_pem_def split: if_splits option.splits sum.splits prod.splits)

lemma authority_New_again:
  assumes "f \<noteq> ''''" "a_read_err fs f = None" "authority_New X f rnd now y fs = Some (Inr ca, fs')"
  shows "authority_New X f rnd' now' y' fs' = Some (Inr ca, fs')"
  using assms authority_New_read_err [OF assms(3)]
  by (auto elim!: authority_NewE simp: authority_New_def cached_pem_def split: option.splits sum.splits)

text \<open>The same holds in any file system that has the file as it was left; and the file of another authority is not touched.\<close>

lemma authority_New_file:
  assumes "f \<noteq> ''''" "authority_New X f rnd now y fs = Some (Inr ca, fs')"
  shows "a_files fs' f \<noteq> None"
  using assms by (auto elim!: authority_NewE simp: cached_pem_def split: option.splits sum.splits prod.splits)

lemma authority_New_reads:
  assumes "f \<noteq> ''''" "a_read_err fs f = None" "authority_New X f rnd now y fs = Some (Inr ca, fs')"
    and "a_files gs f = a_files fs' f" "a_read_err gs f = None"
  shows "authority_New X f rnd' now' y' gs = Some (Inr ca, gs)"
  using assms authority_New_read_err [OF assms(3)] authority_New_file [OF assms(1,3)]
  by (auto elim!: authority_NewE simp: authority_New_def cached_pem_def split: option.splits sum.splits)

lemma authority_New_other: "authority_New X f rnd now y fs = Some (r, fs') \<Longrightarrow> g \<noteq> f \<Longrightarrow> a_files fs' g = a_files fs g"
  by (auto simp: authority_New_def cached_pem_def split: if_splits option.splits sum.splits prod.splits)

text \<open>A named authority is made once: after the call that creates the file, every later one reads the same
  authority from it and writes nothing.\<close>

theorem New_creates_once:
  assumes "filename \<noteq> ''''" "a_read_err fs filename = None"
    and "authority_New X filename rnd now y fs = Some (Inr ca, fs')"
  shows "authority_New X filename rnd' now' y' fs' = Some (Inr ca, fs')"
  using assms by (rule authority_New_again)

theorem New_creates_once_witness:
  "authority_New toy_x509 ''ca.pem'' 7 5 9 (toy_fs\<lparr>a_files := [''ca.pem'' \<mapsto> Contents toy_ca]\<rparr>) =
     Some (Inr toy_ca, toy_fs\<lparr>a_files := [''ca.pem'' \<mapsto> Contents toy_ca]\<rparr>)"
  using New_creates_once [of "''ca.pem''" toy_fs toy_x509 3 0 9 toy_ca] toy_New [of "''ca.pem''" 0 9]
  by (simp add: toy_fs_def)

text \<open>\<open>New\<close> returns when decoding a block consumes bytes; a file that cannot be read is not reported as such:
  whatever was read is parsed, and with nothing read the error is that the certificate is incomplete.\<close>

theorem New_unreadable:
  assumes "pem_consumes X" and "filename \<noteq> ''''" "a_files fs filename = Some p" "a_read_err fs filename = Some (e, [])"
  shows "authority_New X filename rnd now y fs = Some (Inl (Errorf ''httpsca: incomplete certificate'' []), fs)"
proof -
  obtain d rest where d: "pem_Decode X [] = (d, rest)" by fastforce
  have "pem_Decode X [] \<noteq> (Some blk, rest)" for blk using assms(1) unfolding pem_consumes_def by (metis list.size(3) not_less_zero)
  then have "d = None" using d by (cases d) auto
  then have "pem_loop X [] None None = Some (None, None)" using d by (simp add: pem_loop_unfold [of X "[]"])
  then show ?thesis using assms(2-4) by (simp add: authority_New_def cached_pem_def parse_ca_def)
qed

theorem New_unreadable_witness:
  "authority_New toy_x509 ''ca.pem'' 3 0 9 (toy_fs\<lparr>a_files := [''ca.pem'' \<mapsto> ''x''], a_read_err := \<lambda>f. Some (Canceled, [])\<rparr>) =
   Some (Inl (Errorf ''httpsca: incomplete certificate'' []),
     toy_fs\<lparr>a_files := [''ca.pem'' \<mapsto> ''x''], a_read_err := \<lambda>f. Some (Canceled, [])\<rparr>)"
  by (rule New_unreadable [OF toy_pem_consumes]) simp_all

lemma New_returns:
  assumes "pem_consumes X"
  shows "\<exists>r. authority_New X filename rnd now y fs = Some r"
  using pem_loop_ends [OF assms] by (simp add: authority_New_def split: prod.splits sum.splits option.splits) (metis option.distinct(1))

subsection \<open>Issuing\<close>

definition valid_at :: "template \<Rightarrow> time \<Rightarrow> bool" where
  "valid_at c t \<longleftrightarrow> NotBefore c \<le> t \<and> t \<le> NotAfter c"

text \<open>A certificate issued by the authority is valid from a minute before its issue until its time to live has
  passed, carries a serial number of at most 128 bits, cannot itself sign certificates, and is signed by the
  authority's key under the authority's certificate.\<close>

theorem Issue_window:
  assumes "\<And>r n i. rand_Int X r n = Inr i \<Longrightarrow> 0 \<le> i \<and> i < n"
    and "Issue X c cn ttl ips dnss rnd now = Inr (tmpl, cert, key)"
  shows "(valid_at tmpl t \<longleftrightarrow> now - Minute \<le> t \<and> t \<le> now + ttl) \<and> 0 \<le> SerialNumber tmpl \<and> SerialNumber tmpl < 2 ^ 128 \<and>
    \<not> IsCA tmpl \<and> CertSign \<notin> set (KeyUsage tmpl) \<and>
    CreateCertificate X rnd tmpl (Some (a_cert c)) key (a_key c) = Inr cert"
proof -
  obtain serial where s: "rand_Int X rnd (2 ^ 128) = Inr serial" "tmpl = issue_template serial cn ttl ips dnss now"
    and c: "CreateCertificate X rnd tmpl (Some (a_cert c)) key (a_key c) = Inr cert"
    using assms(2) by (auto simp: Issue_def Let_def split: sum.splits)
  show ?thesis using assms(1) [OF s(1)] c by (auto simp: s(2) issue_template_def Let_def valid_at_def DriftMargin_def)
qed

theorem Issue_window_witness:
  "valid_at (issue_template 5 ''m'' Hour [] [] 0) Hour \<and> \<not> valid_at (issue_template 5 ''m'' Hour [] [] 0) (Hour + 1)"
proof -
  let ?X = "toy_x509\<lparr>rand_Int := \<lambda>r n. if 5 < n then Inr 5 else Inl Canceled\<rparr>"
  have l: "\<And>r n i. rand_Int ?X r n = Inr i \<Longrightarrow> 0 \<le> i \<and> i < n" by (auto split: if_splits)
  have i: "Issue ?X toy_ca ''m'' Hour [] [] 4 0 = Inr (issue_template 5 ''m'' Hour [] [] 0, ''m'', 4)"
    by (simp add: Issue_def Let_def toy_x509_def issue_template_def)
  show ?thesis using Issue_window [OF l i, where t = Hour] Issue_window [OF l i, where t = "Hour + 1"] by (simp add: duration_defs)
qed

end
