(* ===== verification/Cloud_Config.thy ===== *)
theory Cloud_Config
  imports Go_Strings
begin

text \<open>
  The cloud-init configuration of an EC2 instance (\<open>ec2system/cloudconfig.go\<close>): files, systemd units, run commands and
  mounts, gathered piece by piece and rendered for the flavor of the image. The YAML encoder is a parameter of \<open>Marshal\<close>.
\<close>

datatype Flavor = Flatcar | Ubuntu | FlavorValue int

record CloudFile =
  cf_Path :: string
  cf_Permissions :: string
  cf_Owner :: string
  cf_Content :: string

record CloudUnit =
  cu_Name :: string
  cu_Command :: string
  cu_Enable :: bool
  cu_Content :: string
  cu_Sync :: bool

record cloudConfig =
  cc_Flavor :: Flavor
  WriteFiles :: "CloudFile list"
  RebootStrategy :: string
  CoreUnits :: "CloudUnit list"
  SshAuthorizedKeys :: "string list"
  RunCmd :: "string list"
  Mounts :: "string list list"
  units :: "CloudUnit list"

definition new_cloudConfig :: cloudConfig where
  "new_cloudConfig = \<lparr>cc_Flavor = Flatcar, WriteFiles = [], RebootStrategy = '''', CoreUnits = [], SshAuthorizedKeys = [],
     RunCmd = [], Mounts = [], units = []\<rparr>"

definition Merge :: "cloudConfig \<Rightarrow> cloudConfig \<Rightarrow> cloudConfig" where
  "Merge d c =
     (let c = c\<lparr>WriteFiles := WriteFiles c @ WriteFiles d\<rparr>;
          c = (if RebootStrategy d \<noteq> '''' then c\<lparr>RebootStrategy := RebootStrategy d\<rparr> else c);
          c = c\<lparr>units := units c @ units d\<rparr>
      in c\<lparr>SshAuthorizedKeys := SshAuthorizedKeys c @ SshAuthorizedKeys d\<rparr>)"

definition AppendFile :: "CloudFile \<Rightarrow> cloudConfig \<Rightarrow> cloudConfig" where
  "AppendFile f c = c\<lparr>WriteFiles := WriteFiles c @ [f]\<rparr>"

definition AppendUnit :: "CloudUnit \<Rightarrow> cloudConfig \<Rightarrow> cloudConfig" where
  "AppendUnit u c = c\<lparr>units := units c @ [u]\<rparr>"

definition AppendRunCmd :: "string \<Rightarrow> cloudConfig \<Rightarrow> cloudConfig" where
  "AppendRunCmd cmd c = c\<lparr>RunCmd := RunCmd c @ [cmd]\<rparr>"

definition AppendMount :: "string list \<Rightarrow> cloudConfig \<Rightarrow> cloudConfig" where
  "AppendMount mount c = c\<lparr>Mounts := Mounts c @ [mount]\<rparr>"

text \<open>The step of \<open>Marshal\<close>'s loop over the units, and the copy it renders.\<close>

definition marshal_unit :: "CloudUnit \<Rightarrow> cloudConfig \<Rightarrow> cloudConfig" where
  "marshal_unit u copy =
     (let copy = (if cu_Content u \<noteq> ''''
                  then AppendFile \<lparr>cf_Path = path_Join_rooted ''/etc/systemd/system'' (cu_Name u), cf_Permissions = ''0644'',
                         cf_Owner = '''', cf_Content = cu_Content u\<rparr> copy
                  else copy)
      in if cu_Sync u then copy\<lparr>RunCmd := RunCmd copy @ [''systemctl '' @ cu_Command u @ '' '' @ cu_Name u]\<rparr>
         else copy\<lparr>RunCmd := RunCmd copy @ [''systemctl --no-block '' @ cu_Command u @ '' '' @ cu_Name u]\<rparr>)"

definition marshal_copy :: "cloudConfig \<Rightarrow> cloudConfig" where
  "marshal_copy c =
     (if cc_Flavor c = Flatcar then c\<lparr>CoreUnits := units c\<rparr>
      else
        (let copy = (if units c \<noteq> [] then c\<lparr>RunCmd := RunCmd c @ [''systemctl daemon-reload'']\<rparr> else c)
         in fold marshal_unit (units c) copy))"

definition Marshal :: "(cloudConfig \<Rightarrow> err + bytes) \<Rightarrow> cloudConfig \<Rightarrow> err + bytes" where
  "Marshal yaml c =
     (case yaml (marshal_copy c) of
        Inl e \<Rightarrow> Inl e
      | Inr b \<Rightarrow> Inr (''#cloud-config'' @ [CHR 0x0A] @ b))"

subsection \<open>Rendering\<close>

definition unit_file :: "CloudUnit \<Rightarrow> CloudFile" where
  "unit_file u = \<lparr>cf_Path = path_Join_rooted ''/etc/systemd/system'' (cu_Name u), cf_Permissions = ''0644'',
     cf_Owner = '''', cf_Content = cu_Content u\<rparr>"

definition unit_cmd :: "CloudUnit \<Rightarrow> string" where
  "unit_cmd u = ''systemctl '' @ (if cu_Sync u then [] else ''--no-block '') @ cu_Command u @ '' '' @ cu_Name u"

lemma marshal_units:
  "WriteFiles (fold marshal_unit us c) = WriteFiles c @ map unit_file (filter (\<lambda>u. cu_Content u \<noteq> '''') us)"
  "RunCmd (fold marshal_unit us c) = RunCmd c @ map unit_cmd us"
  "CoreUnits (fold marshal_unit us c) = CoreUnits c" "Mounts (fold marshal_unit us c) = Mounts c"
  "SshAuthorizedKeys (fold marshal_unit us c) = SshAuthorizedKeys c"
  by (induction us arbitrary: c) (simp_all add: marshal_unit_def AppendFile_def unit_file_def unit_cmd_def Let_def)

text \<open>Outside Flatcar the units are carried by files and commands: the daemon is reloaded once, before the first unit
  is started; every unit is started exactly once, in the order it was appended; the files of the units follow the
  configuration's own, and nothing is left for the \<open>coreos\<close> section. The flag \<open>Enable\<close> has no effect on any of it.\<close>

theorem Marshal_units_started:
  assumes "cc_Flavor c \<noteq> Flatcar" and "units c \<noteq> []" "CoreUnits c = []"
  shows "RunCmd (marshal_copy c) = RunCmd c @ ''systemctl daemon-reload'' # map unit_cmd (units c) \<and>
    WriteFiles (marshal_copy c) = WriteFiles c @ map unit_file (filter (\<lambda>u. cu_Content u \<noteq> '''') (units c)) \<and>
    CoreUnits (marshal_copy c) = [] \<and>
    RunCmd (marshal_copy (c\<lparr>units := map (\<lambda>u. u\<lparr>cu_Enable := b\<rparr>) (units c)\<rparr>)) = RunCmd (marshal_copy c)"
proof -
  have "map (unit_cmd \<circ> (\<lambda>u. u\<lparr>cu_Enable := b\<rparr>)) (units c) = map unit_cmd (units c)" by (simp add: unit_cmd_def)
  then show ?thesis using assms by (simp add: marshal_copy_def marshal_units Let_def)
qed

theorem Marshal_units_started_witness:
  "RunCmd (marshal_copy (new_cloudConfig\<lparr>cc_Flavor := Ubuntu, units :=
       [\<lparr>cu_Name = ''a.service'', cu_Command = ''start'', cu_Enable = True, cu_Content = ''x'', cu_Sync = False\<rparr>]\<rparr>)) =
     [''systemctl daemon-reload'', ''systemctl --no-block start a.service'']"
  using Marshal_units_started [of "new_cloudConfig\<lparr>cc_Flavor := Ubuntu, units :=
       [\<lparr>cu_Name = ''a.service'', cu_Command = ''start'', cu_Enable = True, cu_Content = ''x'', cu_Sync = False\<rparr>]\<rparr>" False]
  by (simp add: new_cloudConfig_def unit_cmd_def)

text \<open>Merging is associative, and merging then rendering for Flatcar lists the units of both.\<close>

lemma Merge_assoc: "Merge e (Merge d c) = Merge (Merge e d) c"
  by (simp add: Merge_def Let_def)

text \<open>\<open>Merge\<close> leaves the run commands and the mounts of the merged configuration out, so merging and appending do not
  commute: a command appended before merging is lost, one appended after is kept.\<close>

theorem Merge_drops_commands:
  "RunCmd (Merge (AppendRunCmd cmd d) c) = RunCmd c \<and> Mounts (Merge (AppendMount m d) c) = Mounts c \<and>
   RunCmd (AppendRunCmd cmd (Merge d c)) = RunCmd c @ [cmd] \<and>
   WriteFiles (Merge (AppendFile f d) c) = WriteFiles (AppendFile f (Merge d c)) \<and>
   units (Merge (AppendUnit u d) c) = units (AppendUnit u (Merge d c))"
  by (simp add: Merge_def AppendRunCmd_def AppendMount_def AppendFile_def AppendUnit_def Let_def)

end
