(* ===== verification/Go_Template.thy ===== *)
theory Go_Template
  imports Go_Strings
begin

text \<open>
  Go's \<open>html/template\<close>, which \<open>ec2system/ec2machine.go\<close> imports, as far as the cloud configuration uses it (fields, range
  variables, \<open>if\<close>, \<open>range\<close>, \<open>len\<close> and number literals, in templates whose text has no \<open><\<close> and thus is plain text to the
  package), and \<open>tmpl\<close>, which strips the common indentation of a template before it is rendered. A value that is
  inserted is escaped as text of an HTML page.
\<close>

definition newline :: char where "newline = CHR 0x0A"
definition tab :: char where "tab = CHR 0x09"

subsection \<open>Templates\<close>

datatype tok = TText string | TAct string

text \<open>The text and the actions between double braces; None when an action is not closed.\<close>

fun lex_text :: "string \<Rightarrow> string \<Rightarrow> tok list option" and lex_act :: "string \<Rightarrow> string \<Rightarrow> tok list option" where
  "lex_text acc [] = Some [TText (rev acc)]"
| "lex_text acc [c] = Some [TText (rev (c # acc))]"
| "lex_text acc (c # d # s) =
     (if c = CHR ''{'' \<and> d = CHR ''{'' then map_option ((#) (TText (rev acc))) (lex_act [] s)
      else lex_text (c # acc) (d # s))"
| "lex_act acc [] = None"
| "lex_act acc [c] = None"
| "lex_act acc (c # d # s) =
     (if c = CHR ''}'' \<and> d = CHR ''}'' then map_option ((#) (TAct (rev acc))) (lex_text [] s)
      else lex_act (c # acc) (d # s))"

datatype node = NText string | NField string | NVar string | NLen string | NNum string
  | NIf string "node list" | NRange string string "node list"

datatype opener = OIf string | ORange string string

datatype action = AOpen opener | ANode node | AEnd | ABad

fun words_aux :: "string \<Rightarrow> string \<Rightarrow> string list" where
  "words_aux acc [] = (if acc = [] then [] else [rev acc])"
| "words_aux acc (c # s) =
     (if isSpace c then (if acc = [] then [] else [rev acc]) @ words_aux [] s else words_aux (c # acc) s)"

fun field_of :: "string \<Rightarrow> string option" where
  "field_of (c # s) = (if c = CHR ''.'' then Some s else None)"
| "field_of [] = None"

definition is_digit :: "char \<Rightarrow> bool" where "is_digit c \<longleftrightarrow> c \<in> set ''0123456789''"

definition read_operand :: "string \<Rightarrow> action" where
  "read_operand w =
     (case Split w CHR ''|'' of
        [f, fn] \<Rightarrow> (case field_of f of Some x \<Rightarrow> if fn = ''len'' then ANode (NLen x) else ABad | None \<Rightarrow> ABad)
      | _ \<Rightarrow>
          (case field_of w of
             Some x \<Rightarrow> ANode (NField x)
           | None \<Rightarrow>
               if w \<noteq> [] \<and> hd w = CHR ''$'' then ANode (NVar w)
               else if w \<noteq> [] \<and> list_all is_digit w then ANode (NNum w) else ABad))"

definition read_action :: "string \<Rightarrow> action" where
  "read_action s =
     (let ws = words_aux [] s
      in if ws = [''end''] then AEnd
         else if length ws = 2 \<and> ws ! 0 = ''if'' then
           (case field_of (ws ! 1) of Some x \<Rightarrow> AOpen (OIf x) | None \<Rightarrow> ABad)
         else if length ws = 5 \<and> ws ! 0 = ''range'' \<and> ws ! 1 = ''$_,'' \<and> ws ! 3 = '':='' then
           (case field_of (ws ! 4) of Some x \<Rightarrow> AOpen (ORange (ws ! 2) x) | None \<Rightarrow> ABad)
         else if length ws = 1 then read_operand (ws ! 0)
         else ABad)"

fun open_node :: "opener \<Rightarrow> node list \<Rightarrow> node" where
  "open_node (OIf x) body = NIf x body"
| "open_node (ORange v x) body = NRange v x body"

fun parse_nodes :: "tok list \<Rightarrow> (opener \<times> node list) list \<Rightarrow> node list \<Rightarrow> node list option" where
  "parse_nodes [] [] acc = Some (rev acc)"
| "parse_nodes [] (f # fs) acc = None"
| "parse_nodes (TText s # ts) st acc = parse_nodes ts st (NText s # acc)"
| "parse_nodes (TAct a # ts) st acc =
     (case read_action a of
        AOpen op \<Rightarrow> parse_nodes ts ((op, acc) # st) []
      | ANode n \<Rightarrow> parse_nodes ts st (n # acc)
      | AEnd \<Rightarrow> (case st of [] \<Rightarrow> None | (op, acc') # st' \<Rightarrow> parse_nodes ts st' (open_node op (rev acc) # acc'))
      | ABad \<Rightarrow> None)"

definition parse_template :: "string \<Rightarrow> node list option" where
  "parse_template s = (case lex_text [] s of None \<Rightarrow> None | Some ts \<Rightarrow> parse_nodes ts [] [])"

datatype tval = TVStr string | TVInt int | TVBool bool | TVList "string list"

type_synonym targs = "string \<rightharpoonup> tval"

text \<open>The replacements of \<open>htmlReplacementTable\<close>.\<close>

definition html_char :: "char \<Rightarrow> string" where
  "html_char c =
     (if c = CHR 0x00 then [CHR 0xEF, CHR 0xBF, CHR 0xBD]
      else if c = CHR 0x22 then ''&#34;''
      else if c = CHR 0x26 then ''&amp;''
      else if c = CHR 0x27 then ''&#39;''
      else if c = CHR ''+'' then ''&#43;''
      else if c = CHR ''<'' then ''&lt;''
      else if c = CHR ''>'' then ''&gt;''
      else [c])"

definition html_escape :: "string \<Rightarrow> string" where
  "html_escape s = concat (map html_char s)"

fun tval_print :: "tval option \<Rightarrow> string" where
  "tval_print None = ''''"
| "tval_print (Some (TVStr s)) = s"
| "tval_print (Some (TVInt i)) = show_int i"
| "tval_print (Some (TVBool b)) = (if b then ''true'' else ''false'')"
| "tval_print (Some (TVList l)) = ''['' @ Join l '' '' @ '']''"

fun tval_true :: "tval option \<Rightarrow> bool" where
  "tval_true None = False"
| "tval_true (Some (TVStr s)) = (s \<noteq> [])"
| "tval_true (Some (TVInt i)) = (i \<noteq> 0)"
| "tval_true (Some (TVBool b)) = b"
| "tval_true (Some (TVList l)) = (l \<noteq> [])"

text \<open>Execution; a variable that is not in scope and \<open>len\<close> or \<open>range\<close> of a value without elements fail.\<close>

fun concat_outcome :: "string outcome list \<Rightarrow> string outcome" where
  "concat_outcome [] = Ok []"
| "concat_outcome (r # rs) = bind_outcome r (\<lambda>x. bind_outcome (concat_outcome rs) (\<lambda>y. Ok (x @ y)))"

fun exec_node :: "targs \<Rightarrow> (string \<rightharpoonup> string) \<Rightarrow> node \<Rightarrow> string outcome" where
  "exec_node args vs (NText s) = Ok s"
| "exec_node args vs (NField x) = Ok (html_escape (tval_print (args x)))"
| "exec_node args vs (NVar v) = (case vs v of None \<Rightarrow> Panic ''undefined variable'' | Some s \<Rightarrow> Ok (html_escape s))"
| "exec_node args vs (NLen x) =
     (case args x of
        Some (TVList l) \<Rightarrow> Ok (show_nat (length l))
      | Some (TVStr s) \<Rightarrow> Ok (show_nat (length s))
      | _ \<Rightarrow> Panic ''error calling len'')"
| "exec_node args vs (NNum s) = Ok s"
| "exec_node args vs (NIf x body) = (if tval_true (args x) then concat_outcome (map (exec_node args vs) body) else Ok [])"
| "exec_node args vs (NRange v x body) =
     (case args x of
        None \<Rightarrow> Ok []
      | Some (TVList l) \<Rightarrow> concat_outcome (map (\<lambda>e. concat_outcome (map (exec_node args (vs(v \<mapsto> e))) body)) l)
      | Some t \<Rightarrow> Panic ''range cannot iterate'')"

definition render :: "string \<Rightarrow> targs \<Rightarrow> string outcome" where
  "render s args =
     (case parse_template s of
        None \<Rightarrow> Panic ''template parse error''
      | Some ns \<Rightarrow> concat_outcome (map (exec_node args Map.empty) ns))"

definition html_plain :: "string \<Rightarrow> bool" where
  "html_plain s \<longleftrightarrow> list_all (\<lambda>c. html_char c = [c]) s"

lemma html_escape_plain: "html_plain s \<Longrightarrow> html_escape s = s"
  by (induction s) (simp_all add: html_plain_def html_escape_def)

lemma length_html_char: "length (html_char c) = 1 \<longleftrightarrow> html_char c = [c]" "0 < length (html_char c)"
  by (simp_all add: html_char_def)

lemma length_html_escape: "length s \<le> length (html_escape s)"
proof (induction s)
  case (Cons c s)
  have "0 < length (html_char c)" by (rule length_html_char)
  then show ?case using Cons by (simp add: html_escape_def del: length_greater_0_conv)
qed (simp add: html_escape_def)

text \<open>Escaping keeps exactly the strings without a special character.\<close>

lemma html_escape_eq_iff: "html_escape s = s \<longleftrightarrow> html_plain s"
proof
  show "html_escape s = s \<Longrightarrow> html_plain s"
  proof (induction s)
    case (Cons c s)
    have "length (html_char c) + length (html_escape s) = Suc (length s)" using Cons.prems by (metis concat.simps(2) html_escape_def length_Cons length_append list.simps(9))
    then have "length (html_char c) = 1" using length_html_escape [of s] length_html_char(2) [of c] by linarith
    then have c: "html_char c = [c]" using length_html_char(1) by simp
    then have "html_escape s = s" using Cons.prems by (simp add: html_escape_def)
    then show ?case using Cons.IH c by (simp add: html_plain_def)
  qed (simp add: html_plain_def)
qed (rule html_escape_plain)

subsection \<open>tmpl\<close>

fun strip_lines :: "nat \<Rightarrow> string list \<Rightarrow> string list outcome" where
  "strip_lines p [] = Ok []"
| "strip_lines p (line # lines) =
     (if length line < p then Panic ''slice bounds out of range''
      else if TrimSpace (take p line) \<noteq> [] then Panic (''nonspace prefix in '' @ line)
      else bind_outcome (strip_lines p lines) (\<lambda>ls. Ok (drop p line # ls)))"

definition blank :: "string \<Rightarrow> bool" where "blank s \<longleftrightarrow> TrimSpace s = []"

definition tmpl_lines :: "string \<Rightarrow> string list" where
  "tmpl_lines s = rev (dropWhile blank (rev (dropWhile blank (Split s newline))))"

definition tmpl_indent :: "string list \<Rightarrow> nat" where
  "tmpl_indent lines =
     (case lines of
        [] \<Rightarrow> 0
      | l # _ \<Rightarrow> if list_all isSpace l then 0 else length (takeWhile isSpace l))"

definition tmpl :: "string \<Rightarrow> targs \<Rightarrow> string outcome" where
  "tmpl txt args =
     (let lines = tmpl_lines txt
      in bind_outcome (strip_lines (tmpl_indent lines) lines) (\<lambda>ls. render (Join ls [newline]) args))"

subsection \<open>Indented blocks\<close>

text \<open>A template as the source writes it: a line break, the lines each indented by \<open>d\<close> tabs, and the indentation of the
  closing quote.\<close>

definition tpl :: "nat \<Rightarrow> string list \<Rightarrow> string" where
  "tpl d ls = newline # concat (map (\<lambda>l. replicate d tab @ l @ [newline]) ls) @ replicate (d - 1) tab"

lemma isSpace_tab [simp]: "isSpace tab" "tab \<noteq> newline" "newline \<noteq> tab"
  by (simp_all add: isSpace_def tab_def newline_def)

lemma blank_iff: "blank s \<longleftrightarrow> list_all isSpace s"
proof -
  have "TrimSpace s = [] \<longleftrightarrow> dropWhile isSpace s = []"
  proof (cases "dropWhile isSpace s")
    case (Cons c r)
    then have "\<not> isSpace c" by (metis hd_dropWhile list.distinct(1) list.sel(1))
    then have "dropWhile isSpace (rev (c # r)) \<noteq> []" by simp
    then show ?thesis using Cons by (simp add: TrimSpace_def)
  qed (simp add: TrimSpace_def del: dropWhile_eq_Nil_conv)
  then show ?thesis by (simp add: blank_def list_all_iff)
qed

lemma blank_Nil [simp]: "blank []"
  by (simp add: blank_iff)

lemma Split_append: "c \<notin> set a \<Longrightarrow> Split (a @ c # s) c = a # Split s c"
  by (induction a) auto

lemma Split_absent: "c \<notin> set a \<Longrightarrow> Split a c = [a]"
  by (induction a) auto

lemma Split_tpl:
  assumes "\<forall>l \<in> set ls. newline \<notin> set l"
  shows "Split (tpl d ls) newline = [] # map (\<lambda>l. replicate d tab @ l) ls @ [replicate (d - 1) tab]"
proof -
  have "Split (concat (map (\<lambda>l. replicate d tab @ l @ [newline]) ls) @ replicate (d - 1) tab) newline =
      map (\<lambda>l. replicate d tab @ l) ls @ [replicate (d - 1) tab]"
    using assms
  proof (induction ls)
    case (Cons l ls)
    then have "newline \<notin> set (replicate d tab @ l)" by simp
    then show ?case using Cons
        Split_append [of newline "replicate d tab @ l" "concat (map (\<lambda>l. replicate d tab @ l @ [newline]) ls) @ replicate (d - 1) tab"]
      by simp
  qed (simp add: Split_absent)
  then show ?thesis by (simp add: tpl_def)
qed

lemma strip_lines_indented: "strip_lines d (map (\<lambda>l. replicate d tab @ l) ls) = Ok ls"
proof (induction ls)
  case (Cons l ls)
  have "blank (replicate d tab)" by (simp add: blank_iff list_all_iff)
  then show ?case using Cons by (simp add: blank_def)
qed simp

definition block_ok :: "string list \<Rightarrow> bool" where
  "block_ok ls \<longleftrightarrow> ls \<noteq> [] \<and> hd ls \<noteq> [] \<and> \<not> isSpace (hd (hd ls)) \<and> \<not> list_all isSpace (last ls) \<and>
     list_all (\<lambda>l. newline \<notin> set l) ls"

lemma tmpl_indented:
  assumes "block_ok ls"
  shows "tmpl (tpl d ls) args = render (Join ls [newline]) args"
proof -
  let ?ind = "\<lambda>l. replicate d tab @ l"
  have ls: "ls \<noteq> []" "hd ls \<noteq> []" "\<not> isSpace (hd (hd ls))" "\<not> blank (last ls)" "\<forall>l \<in> set ls. newline \<notin> set l"
    using assms by (auto simp: block_ok_def blank_iff list_all_iff)
  obtain l ls' where l: "ls = l # ls'" using ls(1) by (cases ls) auto
  have nb: "blank (?ind x) \<longleftrightarrow> blank x" for x by (auto simp: blank_iff list_all_iff)
  have "\<not> blank l" using ls(2,3) l by (cases l) (simp_all add: blank_iff)
  then have 1: "dropWhile blank (Split (tpl d ls) newline) = map ?ind ls @ [replicate (d - 1) tab]"
    by (subst Split_tpl [OF ls(5)]) (simp add: l nb)
  have "blank (replicate (d - 1) tab)" by (simp add: blank_iff list_all_iff)
  moreover have "rev (map ?ind ls) \<noteq> []" "\<not> blank (hd (rev (map ?ind ls)))"
    using ls(1,4) by (simp_all add: hd_rev last_map nb)
  then have "dropWhile blank (rev (map ?ind ls)) = rev (map ?ind ls)"
    by (cases "rev (map ?ind ls)") simp_all
  ultimately have lines: "tmpl_lines (tpl d ls) = map ?ind ls" by (simp add: tmpl_lines_def 1)
  have "tmpl_indent (map ?ind ls) = d"
    using ls(2,3) l by (cases l) (simp_all add: tmpl_indent_def list_all_iff takeWhile_append)
  then show ?thesis by (simp add: tmpl_def lines strip_lines_indented)
qed

text \<open>An indented block of lines is rendered as the same lines without their indentation.\<close>

theorem tmpl_strips:
  assumes "block_ok ls"
  shows "tmpl (tpl d ls) args = render (Join ls [newline]) args"
  using assms by (rule tmpl_indented)

theorem tmpl_strips_witness:
  "tmpl (tpl 2 [''x, y, {{.z}}'', tab # ''blah'', ''bloop'']) [''z'' \<mapsto> TVInt 1] =
     Ok (Join [''x, y, 1'', tab # ''blah'', ''bloop''] [newline])"
proof -
  have "block_ok [''x, y, {{.z}}'', tab # ''blah'', ''bloop'']" by code_simp
  moreover have "parse_template (Join [''x, y, {{.z}}'', tab # ''blah'', ''bloop''] [newline]) =
      Some [NText ''x, y, '', NField ''z'', NText (newline # tab # ''blah'' @ newline # ''bloop'')]" by code_simp
  ultimately show ?thesis using tmpl_strips by (simp add: render_def show_int_def show_nat.simps digit_def html_escape_def html_char_def)
qed

text \<open>A template with a line that is shorter than the indentation of its first line panics, so an empty line inside
  an indented block does: templates cannot be spaced out with blank lines.\<close>

theorem tmpl_blank_line_panics:
  assumes "block_ok [a, b]" and "0 < d"
  shows "tmpl (replicate d tab @ a @ newline # newline # replicate d tab @ b) args = Panic ''slice bounds out of range''"
proof -
  have ab: "newline \<notin> set a" "newline \<notin> set b" "a \<noteq> []" "\<not> isSpace (hd a)" "\<not> list_all isSpace b"
    using assms(1) by (auto simp: block_ok_def)
  have na: "newline \<notin> set (replicate d tab @ a)" "newline \<notin> set (replicate d tab @ b)" using ab by auto
  have s: "Split (replicate d tab @ a @ newline # newline # replicate d tab @ b) newline = [replicate d tab @ a, [], replicate d tab @ b]"
    using Split_append [OF na(1), of "newline # replicate d tab @ b"] Split_absent [OF na(2)] by simp
  have nb: "\<not> blank (replicate d tab @ a)" "\<not> blank (replicate d tab @ b)"
    using ab by (auto simp: blank_iff list_all_iff neq_Nil_conv)
  then have lines: "tmpl_lines (replicate d tab @ a @ newline # newline # replicate d tab @ b) = [replicate d tab @ a, [], replicate d tab @ b]"
    by (simp add: tmpl_lines_def s)
  have ind: "tmpl_indent [replicate d tab @ a, [], replicate d tab @ b] = d"
    using ab(3,4) by (cases a) (simp_all add: tmpl_indent_def list_all_iff takeWhile_append)
  have "blank (replicate d tab)" by (simp add: blank_iff list_all_iff)
  then show ?thesis using assms(2) by (simp add: tmpl_def lines ind blank_def)
qed

theorem tmpl_blank_line_panics_witness:
  "tmpl (tab # ''a'' @ newline # newline # tab # ''b'') Map.empty = Panic ''slice bounds out of range''"
proof -
  have "block_ok [''a'', ''b'']" by code_simp
  then show ?thesis using tmpl_blank_line_panics [of "''a''" "''b''" 1 Map.empty] by simp
qed

end
