(* ===== verification/Ec2_Config.thy ===== *)
theory Ec2_Config
  imports Complex_Main Authority Cloud_Config Go_Template "HOL-Library.Word"
begin

text \<open>
  The configuration of the EC2 system (\<open>ec2system/config.go\<close> and the first half of \<open>ec2system/ec2machine.go\<close>): the \<open>System\<close>
  struct, its construction from a profile, \<open>Init\<close> with its defaults and checks, the division of the data space into
  volumes, and the cloud configuration of the instances. Space is kept in 64-bit words. The table of instance
  types is generated code and a parameter; its prices are rational numbers.
\<close>

subsection \<open>Constants and types\<close>

definition authorityPath :: string where "authorityPath = ''/tmp/bigmachine.pem''"
definition minDataVolumeSliceSize :: int where "minDataVolumeSliceSize = 335"
definition maxInstanceDataVolumes :: int where "maxInstanceDataVolumes = 25"

definition defaultEc2BootPrefix :: string where
  "defaultEc2BootPrefix = ''https://grail-public-bin.s3-us-west-2.amazonaws.com/linux/amd64/ec2boot''"
definition defaultEc2BootVersion :: string where "defaultEc2BootVersion = ''0.5''"
definition defaultEc2Boot :: string where "defaultEc2Boot = defaultEc2BootPrefix @ defaultEc2BootVersion"

record itype =
  it_Name :: string
  it_EBSOptimized :: bool
  it_VCPU :: nat
  it_Price :: "string \<Rightarrow> rat"     \<comment> \<open>zero where the region has no entry\<close>
  it_NVMe :: bool

definition zero_itype :: itype where
  "zero_itype = \<lparr>it_Name = '''', it_EBSOptimized = False, it_VCPU = 0, it_Price = (\<lambda>r. 0), it_NVMe = False\<rparr>"

text \<open>The table by name, built from the generated list.\<close>

definition instanceTypes :: "itype list \<Rightarrow> string \<rightharpoonup> itype" where
  "instanceTypes types = fold (\<lambda>typ m. m(it_Name typ \<mapsto> typ)) types Map.empty"

text \<open>\<open>AWSConfig\<close> is nil or has a region that may be nil; \<open>clientOnce\<close> is the result of the one call made. \<open>'k\<close> and \<open>'c\<close>
  are keys and certificates, \<open>'p\<close> the SSH key.\<close>

record ('k, 'c, 'p) ec2sys =
  OnDemand :: bool
  InstanceType :: string
  AMI :: string
  Flavor :: Flavor
  AWSConfig :: "string option option"
  DefaultRegion :: string
  InstanceProfile :: string
  SecurityGroup :: string
  SecurityGroups :: "string list"
  Subnet :: string
  Diskspace :: "64 word"
  Dataspace :: "64 word"
  Binary :: string
  SshKeys :: "string list"
  EC2KeyName :: string
  Username :: string
  AdditionalFiles :: "CloudFile list"
  AdditionalUnits :: "CloudUnit list"
  AdditionalEC2Tags :: "(string \<times> string) list"
  Eventer :: bool
  privateKey :: "'p option"
  ec2_config :: itype
  ec2_authority :: "('k, 'c) authority option"
  clientOnce :: "err option option"
  clientConfig :: "tls_config option"

definition new_ec2sys :: "('k, 'c, 'p) ec2sys" where
  "new_ec2sys = \<lparr>OnDemand = False, InstanceType = '''', AMI = '''', Flavor = Flatcar, AWSConfig = None, DefaultRegion = '''',
     InstanceProfile = '''', SecurityGroup = '''', SecurityGroups = [], Subnet = '''', Diskspace = 0, Dataspace = 0,
     Binary = '''', SshKeys = [], EC2KeyName = '''', Username = '''', AdditionalFiles = [], AdditionalUnits = [],
     AdditionalEC2Tags = [], Eventer = False, privateKey = None, ec2_config = zero_itype, ec2_authority = None,
     clientOnce = None, clientConfig = None\<rparr>"

subsection \<open>Construction from a profile\<close>

text \<open>The parameters of the instance \<open>bigmachine/ec2system\<close> and the defaults they are declared with.\<close>

record ec2_params =
  p_ondemand :: bool
  p_instance :: string
  p_ami :: string
  p_flavor :: string
  p_instance_profile :: string
  p_security_group :: string
  p_default_region :: string
  p_diskspace :: "64 word"    \<comment> \<open>an \<open>int\<close>: its two's complement\<close>
  p_dataspace :: "64 word"
  p_binary :: string
  p_sshkey :: string
  p_eventer :: bool
  p_username :: string

definition default_params :: ec2_params where
  "default_params = \<lparr>p_ondemand = False, p_instance = ''m3.medium'', p_ami = ''ami-0bb54692374ac10a7'', p_flavor = ''flatcar'',
     p_instance_profile = '''', p_security_group = '''', p_default_region = ''us-west-2'', p_diskspace = 200, p_dataspace = 0,
     p_binary = '''', p_sshkey = '''', p_eventer = False, p_username = ''''\<rparr>"

definition config_New :: "ec2_params \<Rightarrow> string option \<Rightarrow> err + ('k, 'c, 'p) ec2sys" where
  "config_New p sess_region =
     (let s = new_ec2sys\<lparr>OnDemand := p_ondemand p, InstanceType := p_instance p, AMI := p_ami p,
                InstanceProfile := p_instance_profile p, SecurityGroup := p_security_group p,
                DefaultRegion := p_default_region p, Binary := p_binary p, Eventer := p_eventer p, Username := p_username p\<rparr>;
          rest = (\<lambda>flavor. s\<lparr>Flavor := flavor, Diskspace := p_diskspace p, Dataspace := p_dataspace p,
                    SshKeys := Split (p_sshkey p) CHR '','', AWSConfig := Some sess_region\<rparr>)
      in if p_flavor p = ''flatcar'' then Inr (rest Flatcar)
         else if p_flavor p = ''ubuntu'' then Inr (rest Ubuntu)
         else Inl (ErrE [Kind Invalid, Str ''flavor must be one of {flatcar, ubuntu}: '', Str (p_flavor p)]))"

subsection \<open>Init\<close>

datatype image_open = ImageOk | NoSuchImage | ImageErr err

definition readSshAgentKeys :: "string \<Rightarrow> err option \<Rightarrow> string list \<times> err option \<Rightarrow> string list" where
  "readSshAgentKeys agentSock dial listed =
     (if agentSock = '''' then []
      else case dial of
        Some e \<Rightarrow> []
      | None \<Rightarrow> fst listed)"

record ('k, 'c, 'p) init_world =
  iw_GOOS :: string
  iw_GOARCH :: string
  iw_Self :: "err option"
  iw_Open :: image_open
  iw_key :: "err + 'p"
  iw_pubkey :: "err + string"
  iw_rsa_pub :: "err + string"
  iw_agent :: "string list"
  iw_session :: "err option"

text \<open>The check that a binary for the instances exists.\<close>

definition check_image :: "('k, 'c, 'p) init_world \<Rightarrow> err option" where
  "check_image w =
     (if iw_GOOS w \<noteq> ''linux'' \<or> iw_GOARCH w \<noteq> ''amd64'' then
        (case iw_Self w of
           Some e \<Rightarrow> Some e
         | None \<Rightarrow>
             (case iw_Open w of
                NoSuchImage \<Rightarrow> Some (ErrE [Kind Precondition, Str ''binary has no linux/amd64 image; consider compiling with gofat or run on linux/amd64''])
              | ImageErr e \<Rightarrow> Some e
              | ImageOk \<Rightarrow> None))
      else None)"

definition default_type :: "('k, 'c, 'p) ec2sys \<Rightarrow> ('k, 'c, 'p) ec2sys" where
  "default_type s = (if InstanceType s = '''' then s\<lparr>InstanceType := ''m3.medium''\<rparr> else s)"

definition default_ami :: "('k, 'c, 'p) ec2sys \<Rightarrow> ('k, 'c, 'p) ec2sys" where
  "default_ami s = (if AMI s = '''' then s\<lparr>AMI := ''ami-0bb54692374ac10a7''\<rparr> else s)"

definition default_region :: "('k, 'c, 'p) ec2sys \<Rightarrow> ('k, 'c, 'p) ec2sys" where
  "default_region s =
     (let s = (if AWSConfig s = None then s\<lparr>AWSConfig := Some None\<rparr> else s)
      in if AWSConfig s = Some None
         then (let region = DefaultRegion s; region = (if region = '''' then ''us-west-2'' else region)
               in s\<lparr>AWSConfig := Some (Some region)\<rparr>)
         else s)"

definition default_disk :: "('k, 'c, 'p) ec2sys \<Rightarrow> ('k, 'c, 'p) ec2sys" where
  "default_disk s = (if Diskspace s = 0 then s\<lparr>Diskspace := 200\<rparr> else s)"

definition default_binary :: "('k, 'c, 'p) ec2sys \<Rightarrow> ('k, 'c, 'p) ec2sys" where
  "default_binary s =
     (if Binary s = '''' then s\<lparr>Binary := defaultEc2Boot\<rparr>
      else if Binary s \<noteq> defaultEc2Boot \<and> HasPrefix (Binary s) defaultEc2BootPrefix then s\<lparr>Binary := defaultEc2Boot\<rparr>
      else s)"

definition init_defaults :: "('k, 'c, 'p) ec2sys \<Rightarrow> ('k, 'c, 'p) ec2sys" where
  "init_defaults s = default_binary (default_disk (default_region (default_ami (default_type s))))"

lemma init_defaults_eq:
  "init_defaults s = s\<lparr>
     InstanceType := (if InstanceType s = '''' then ''m3.medium'' else InstanceType s),
     AMI := (if AMI s = '''' then ''ami-0bb54692374ac10a7'' else AMI s),
     AWSConfig := (if AWSConfig s = None \<or> AWSConfig s = Some None
       then Some (Some (if DefaultRegion s = '''' then ''us-west-2'' else DefaultRegion s)) else AWSConfig s),
     Diskspace := (if Diskspace s = 0 then 200 else Diskspace s),
     Binary := (if Binary s = '''' \<or> HasPrefix (Binary s) defaultEc2BootPrefix then defaultEc2Boot else Binary s)\<rparr>"
proof -
  have "default_type s = s\<lparr>InstanceType := (if InstanceType s = '''' then ''m3.medium'' else InstanceType s)\<rparr>" for s :: "('a, 'b, 'c) ec2sys"
    by (simp add: default_type_def)
  moreover have "default_ami s = s\<lparr>AMI := (if AMI s = '''' then ''ami-0bb54692374ac10a7'' else AMI s)\<rparr>" for s :: "('a, 'b, 'c) ec2sys"
    by (simp add: default_ami_def)
  moreover have "default_region s = s\<lparr>AWSConfig := (if AWSConfig s = None \<or> AWSConfig s = Some None
       then Some (Some (if DefaultRegion s = '''' then ''us-west-2'' else DefaultRegion s)) else AWSConfig s)\<rparr>" for s :: "('a, 'b, 'c) ec2sys"
    by (simp add: default_region_def Let_def)
  moreover have "default_disk s = s\<lparr>Diskspace := (if Diskspace s = 0 then 200 else Diskspace s)\<rparr>" for s :: "('a, 'b, 'c) ec2sys"
    by (simp add: default_disk_def)
  moreover have "default_binary s = s\<lparr>Binary := (if Binary s = '''' \<or> HasPrefix (Binary s) defaultEc2BootPrefix then defaultEc2Boot else Binary s)\<rparr>"
    for s :: "('a, 'b, 'c) ec2sys" by (simp add: default_binary_def)
  ultimately show ?thesis unfolding init_defaults_def by (simp split del: if_split cong: if_cong)
qed

definition ec2_region :: "('k, 'c, 'p) ec2sys \<Rightarrow> string" where
  "ec2_region s = (case AWSConfig s of Some (Some r) \<Rightarrow> r | _ \<Rightarrow> '''')"

definition init_type :: "(string \<rightharpoonup> itype) \<Rightarrow> ('k, 'c, 'p) ec2sys \<Rightarrow> err option \<times> ('k, 'c, 'p) ec2sys" where
  "init_type types s =
     (case types (InstanceType s) of
        None \<Rightarrow> (Some (Errorf ''invalid instance type %q'' [Str (InstanceType s)]), s\<lparr>ec2_config := zero_itype\<rparr>)
      | Some typ \<Rightarrow>
          (let s = s\<lparr>ec2_config := typ\<rparr>
           in if it_Price typ (ec2_region s) = 0
              then (Some (Errorf ''instance type %q not available in region %s'' [Str (InstanceType s), Str (ec2_region s)]), s)
              else (None, s)))"

definition init_keys :: "('k, 'c, 'p) init_world \<Rightarrow> ('k, 'c, 'p) ec2sys \<Rightarrow> err option \<times> ('k, 'c, 'p) ec2sys" where
  "init_keys w s =
     (case iw_key w of
        Inl e \<Rightarrow> (Some e, s\<lparr>privateKey := None\<rparr>)
      | Inr key \<Rightarrow>
          (let s = s\<lparr>privateKey := Some key\<rparr>
           in case iw_pubkey w of
                Inl e \<Rightarrow> (Some e, s)
              | Inr pub \<Rightarrow>
                  (let s = s\<lparr>SshKeys := SshKeys s @ [TrimSpace pub]\<rparr>;
                       userSshKeys = (case iw_rsa_pub w of Inl e \<Rightarrow> [] | Inr k \<Rightarrow> [k]) @ iw_agent w
                   in (None, s\<lparr>SshKeys := SshKeys s @ userSshKeys\<rparr>))))"

text \<open>\<open>Init\<close>; None when \<open>authority.New\<close> does not return.\<close>

definition ec2_Init :: "('k, 'c) x509lib \<Rightarrow> (string \<rightharpoonup> itype) \<Rightarrow> ('k, 'c, 'p) init_world \<Rightarrow> nat \<Rightarrow> time \<Rightarrow> time
    \<Rightarrow> ('k, 'c, 'p) ec2sys \<Rightarrow> afs \<Rightarrow> (err option \<times> ('k, 'c, 'p) ec2sys \<times> afs) option" where
  "ec2_Init X types w rnd now y2060 s fs =
     (case check_image w of
        Some e \<Rightarrow> Some (Some e, s, fs)
      | None \<Rightarrow>
     (case init_type types (init_defaults s) of
        (Some e, s) \<Rightarrow> Some (Some e, s, fs)
      | (None, s) \<Rightarrow>
     (case init_keys w s of
        (Some e, s) \<Rightarrow> Some (Some e, s, fs)
      | (None, s) \<Rightarrow>
     (case iw_session w of
        Some e \<Rightarrow> Some (Some e, s, fs)
      | None \<Rightarrow>
     (case authority_New X authorityPath rnd now y2060 fs of
        None \<Rightarrow> None
      | Some (Inl e, fs) \<Rightarrow> Some (Some e, s\<lparr>ec2_authority := None\<rparr>, fs)
      | Some (Inr ca, fs) \<Rightarrow> Some (None, s\<lparr>ec2_authority := Some ca\<rparr>, fs))))))"

subsection \<open>Volumes\<close>

text \<open>The number and the size of the data volumes, in 64-bit signed arithmetic.\<close>

definition sliceConfig :: "('k, 'c, 'p) ec2sys \<Rightarrow> int \<times> int" where
  "sliceConfig s =
     (let sliceSize = minDataVolumeSliceSize;
          nslice = go_quot (sint (Dataspace s + word_of_int sliceSize - 1)) sliceSize
      in if nslice \<le> maxInstanceDataVolumes then (nslice, sliceSize)
         else
           (let nslice = maxInstanceDataVolumes in (nslice, go_quot (sint (Dataspace s)) nslice)))"

definition xvd_name :: "nat \<Rightarrow> string" where
  "xvd_name i = ''xvd'' @ [char_of (98 + i)]"

record blockDevice =
  bd_DeviceName :: string
  bd_VolumeSize :: int

definition blockDevices :: "string option \<Rightarrow> ('k, 'c, 'p) ec2sys \<Rightarrow> blockDevice list" where
  "blockDevices rootDeviceName s =
     (let root = (case rootDeviceName of None \<Rightarrow> ''/dev/xvda'' | Some d \<Rightarrow> d); (nslice, sliceSize) = sliceConfig s
      in \<lparr>bd_DeviceName = root, bd_VolumeSize = sint (50 + Diskspace s)\<rparr> #
         map (\<lambda>i. \<lparr>bd_DeviceName = ''/dev/'' @ xvd_name i, bd_VolumeSize = sliceSize\<rparr>) [0..<nat nslice])"

subsection \<open>The cloud configuration\<close>

definition command_unit :: "string \<Rightarrow> string \<Rightarrow> CloudUnit" where
  "command_unit name command = \<lparr>cu_Name = name, cu_Command = command, cu_Enable = False, cu_Content = '''', cu_Sync = False\<rparr>"

text \<open>A unit whose content is a rendered template.\<close>

definition append_tmpl_unit :: "string \<Rightarrow> bool \<Rightarrow> string outcome \<Rightarrow> cloudConfig \<Rightarrow> cloudConfig outcome" where
  "append_tmpl_unit name enable content c =
     bind_outcome content (\<lambda>content.
       Ok (AppendUnit \<lparr>cu_Name = name, cu_Command = ''start'', cu_Enable = enable, cu_Content = content, cu_Sync = False\<rparr> c))"

definition format_tpl :: "string list" where
  "format_tpl = [
     ''[Unit]'',
     ''Description=Format /dev/{{.name}}'',
     ''After=dev-{{.name}}.device'',
     ''Requires=dev-{{.name}}.device'',
     ''[Service]'',
     ''Type=oneshot'',
     ''RemainAfterExit=yes'',
     ''ExecStart=/usr/bin/env wipefs -f /dev/{{.name}}'',
     ''ExecStart=/usr/bin/env mkfs.ext4 -F /dev/{{.name}}'']"

definition raid_tpl :: "string list" where
  "raid_tpl = [
     ''[Unit]'',
     ''Description=Format /dev/{{.md}}'',
     ''After={{range $_, $name :=  .devices}}dev-{{$name}}.device {{end}}'',
     ''Requires={{range $_, $name := .devices}}dev-{{$name}}.device {{end}}'',
     ''[Service]'',
     ''Type=oneshot'',
     ''RemainAfterExit=yes'',
     ''ExecStart=/usr/bin/env mdadm --create --run --verbose /dev/{{.md}} --level=0 --chunk=256 --name=bigmachine --raid-devices={{.devices|len}} {{range $_, $name := .devices}}/dev/{{$name}} {{end}}'',
     ''ExecStart=/usr/bin/env mkfs.ext4 -F /dev/{{.md}}'']"

definition data_devices :: "bool \<Rightarrow> nat \<Rightarrow> string list" where
  "data_devices nvme n = map (\<lambda>idx. if nvme then ''nvme'' @ show_nat (idx + 1) @ ''n1'' else xvd_name idx) [0..<n]"

text \<open>The device for the data partition, the devices it is striped over, and the unit that formats it. A negative number
  of slices panics in \<open>make\<close>.\<close>

definition add_format :: "('k, 'c, 'p) ec2sys \<Rightarrow> cloudConfig \<Rightarrow> (string \<times> string list \<times> cloudConfig) outcome" where
  "add_format s c =
     (let (nslice, _) = sliceConfig s; nvme = it_NVMe (ec2_config s)
      in if nslice = 0 then Ok ('''', [], c)
         else if nslice = 1 then
           (let dev = (if nvme then ''nvme1n1'' else ''xvdb'')
            in bind_outcome (append_tmpl_unit (''format-'' @ dev @ ''.service'') False
                  (tmpl (tpl 4 format_tpl) [''name'' \<mapsto> TVStr dev]) c) (\<lambda>c. Ok (dev, [], c)))
         else if nslice < 0 then Panic ''makeslice: len out of range''
         else
           (let dev = ''md0''; devices = data_devices nvme (nat nslice)
            in bind_outcome (append_tmpl_unit (''format-'' @ dev @ ''.service'') False
                  (tmpl (tpl 4 raid_tpl) [''devices'' \<mapsto> TVList devices, ''md'' \<mapsto> TVStr dev]) c) (\<lambda>c. Ok (dev, devices, c))))"

definition mount_tpl :: "string list" where
  "mount_tpl = [
     ''[Unit]'',
     ''After=format-{{.name}}.service'',
     ''Requires=format-{{.name}}.service'',
     ''[Mount]'',
     ''What=/dev/{{.name}}'',
     ''Where=/mnt/data'',
     ''Type=ext4'',
     ''Options=data=writeback'']"

definition add_mount :: "('k, 'c, 'p) ec2sys \<Rightarrow> string \<Rightarrow> string list \<Rightarrow> cloudConfig \<Rightarrow> cloudConfig outcome" where
  "add_mount s dev devices c =
     (if dev \<noteq> '''' then
        bind_outcome (append_tmpl_unit ''mnt-data.mount'' False (tmpl (tpl 4 mount_tpl) [''name'' \<mapsto> TVStr dev]) c)
          (\<lambda>c. Ok (if Flavor s = Ubuntu then fold (\<lambda>d. AppendMount [d]) devices (AppendMount [dev] c) else c))
      else Ok c)"

definition nropen :: int where "nropen = 32 * 2 ^ 20"
definition filemax :: int where "filemax = nropen * 4"

definition sysctl_tpl :: "string list" where
  "sysctl_tpl = [''fs.file-max = {{.filemax}}'', ''fs.nr_open = {{.nropen}}'']"

definition add_sysctl_file :: "cloudConfig \<Rightarrow> cloudConfig outcome" where
  "add_sysctl_file c =
     bind_outcome (tmpl (tpl 3 sysctl_tpl) [''filemax'' \<mapsto> TVInt filemax, ''nropen'' \<mapsto> TVInt nropen])
       (\<lambda>content. Ok (AppendFile \<lparr>cf_Path = ''/etc/sysctl.d/90-bigmachine'', cf_Permissions = ''0644'', cf_Owner = ''root'',
          cf_Content = content\<rparr> c))"

definition boot_tpl :: "string list" where
  "boot_tpl = [
     ''#!/bin/bash'',
     ''set -e'',
     ''systemctl set-default poweroff.target'',
     ''bin=/tmp/ec2boot'',
     ''curl -s {{.binary}} >$bin'',
     ''chmod +x $bin'',
     ''export BIGMACHINE_MODE=machine'',
     ''export BIGMACHINE_SYSTEM=ec2'',
     ''export BIGMACHINE_ADDR=:{{443}}'',
     ''$bin -log=debug || true'',
     ''sleep 30'',
     ''exit 1'']"

definition add_boot_script :: "('k, 'c, 'p) ec2sys \<Rightarrow> cloudConfig \<Rightarrow> cloudConfig outcome" where
  "add_boot_script s c =
     bind_outcome (tmpl (tpl 3 boot_tpl) [''binary'' \<mapsto> TVStr (Binary s)])
       (\<lambda>content. Ok (AppendFile \<lparr>cf_Path = ''/opt/bin/bootmachine'', cf_Permissions = ''0755'', cf_Owner = ''root'',
          cf_Content = content\<rparr> c))"

definition add_authority :: "('k, 'c, 'p) ec2sys \<Rightarrow> cloudConfig \<Rightarrow> cloudConfig outcome" where
  "add_authority s c =
     (case ec2_authority s of
        None \<Rightarrow> Panic ''nil pointer dereference''
      | Some ca \<Rightarrow> Ok (AppendFile \<lparr>cf_Path = authorityPath, cf_Permissions = ''0644'', cf_Owner = '''', cf_Content = Contents ca\<rparr> c))"

definition sysctl_unit_tpl :: "string list" where
  "sysctl_unit_tpl = [
     ''[Unit]'',
     ''Description=Update sysctl'',
     ''[Service]'',
     ''ExecStart={{.sysctlPath}} /etc/sysctl.d/90-bigmachine'']"

definition add_sysctl_unit :: "('k, 'c, 'p) ec2sys \<Rightarrow> cloudConfig \<Rightarrow> cloudConfig outcome" where
  "add_sysctl_unit s c =
     (let sysctlPath = (if Flavor s = Flatcar then ''/usr/lib/systemd/systemd-sysctl'' else ''/lib/systemd/systemd-sysctl'')
      in append_tmpl_unit ''update-sysctl.service'' True (tmpl (tpl 3 sysctl_unit_tpl) [''sysctlPath'' \<mapsto> TVStr sysctlPath]) c)"

definition bootmachine_tpl :: "string list" where
  "bootmachine_tpl = [
     ''[Unit]'',
     ''Description=bootmachine'',
     ''Requires=network.target'',
     ''After=network.target'',
     ''{{if .data}}'',
     ''After=mnt-data.mount'',
     ''Requires=mnt-data.mount'',
     ''{{end}}'',
     ''{{if .mortal}}'',
     ''OnFailure=poweroff.target'',
     ''OnFailureJobMode=replace-irreversibly'',
     ''{{end}}'',
     ''[Service]'',
     ''OOMScoreAdjust=1000'',
     ''Type=oneshot'',
     ''LimitNOFILE={{.nropen}}'',
     ''{{.environ}}'',
     ''ExecStart=/opt/bin/bootmachine'']"

definition add_boot_unit :: "bool \<Rightarrow> string \<Rightarrow> cloudConfig \<Rightarrow> cloudConfig outcome" where
  "add_boot_unit immortal dev c =
     (let environ = (if dev \<noteq> '''' then ''Environment=TMPDIR=/mnt/data'' else '''')
      in append_tmpl_unit ''bootmachine.service'' True
           (tmpl (tpl 3 bootmachine_tpl)
              [''mortal'' \<mapsto> TVBool (\<not> immortal), ''environ'' \<mapsto> TVStr environ, ''nropen'' \<mapsto> TVInt nropen,
               ''data'' \<mapsto> TVBool (dev \<noteq> '''')]) c)"

definition ec2_cloudConfig :: "bool \<Rightarrow> ('k, 'c, 'p) ec2sys \<Rightarrow> cloudConfig outcome" where
  "ec2_cloudConfig immortal s =
     (let c = new_cloudConfig\<lparr>SshAuthorizedKeys := SshKeys s, cc_Flavor := Flavor s\<rparr>;
          c = (if Flavor s = Flatcar
               then AppendUnit (command_unit ''locksmithd.service'' ''stop'')
                      (AppendUnit (command_unit ''update-engine.service'' ''stop'') (c\<lparr>RebootStrategy := ''off''\<rparr>))
               else c)
      in bind_outcome (add_format s c) (\<lambda>(dev, devices, c).
         bind_outcome (add_mount s dev devices c) (\<lambda>c.
         bind_outcome (add_sysctl_file c) (\<lambda>c.
         bind_outcome (add_boot_script s (fold AppendUnit (AdditionalUnits s) (fold AppendFile (AdditionalFiles s) c))) (\<lambda>c.
         bind_outcome (add_authority s c) (\<lambda>c.
         bind_outcome (add_sysctl_unit s c) (\<lambda>c.
         add_boot_unit immortal dev c)))))))"

subsection \<open>Properties of the data volumes\<close>

lemma sint_word_of_int_small: "- (2 ^ 63) \<le> i \<Longrightarrow> i < 2 ^ 63 \<Longrightarrow> sint (word_of_int i :: 64 word) = i"
  by (simp add: sint_sbintrunc' signed_take_bit_int_eq_self)

lemma sint_add_small:
  assumes "- (2 ^ 63) \<le> sint (d :: 64 word) + k" "sint d + k < 2 ^ 63"
  shows "sint (d + word_of_int k) = sint d + k"
proof -
  have "d + word_of_int k = word_of_int (sint d + k)" by simp
  then show ?thesis using sint_word_of_int_small [OF assms] by (simp only:)
qed

lemma sint_nonneg_bound:
  assumes "uint (d :: 64 word) < 2 ^ 63"
  shows "sint d = uint d"
proof -
  have "signed_take_bit 63 (uint d) = uint d"
    by (rule signed_take_bit_int_eq_self) (use assms in \<open>auto intro: order_trans [of _ 0]\<close>)
  then show ?thesis by (simp add: sint_uint)
qed

definition slices_needed :: "('k, 'c, 'p) ec2sys \<Rightarrow> int" where
  "slices_needed s = go_quot (sint (Dataspace s + 334)) 335"

lemma sliceConfig_eq:
  "sliceConfig s = (if slices_needed s \<le> 25 then (slices_needed s, 335) else (25, go_quot (sint (Dataspace s)) 25))"
proof -
  have "Dataspace s + word_of_int 335 - 1 = Dataspace s + 334" by simp
  then show ?thesis
    by (simp add: sliceConfig_def slices_needed_def minDataVolumeSliceSize_def maxInstanceDataVolumes_def Let_def add.commute)
qed

lemma slices_needed_small:
  assumes "uint (Dataspace s) < 2 ^ 63 - 334"
  shows "slices_needed s = (uint (Dataspace s) + 334) div 335"
proof -
  have d: "sint (Dataspace s) = uint (Dataspace s)" using assms by (intro sint_nonneg_bound) simp
  have "sint (Dataspace s + word_of_int 334) = uint (Dataspace s) + 334"
    using sint_add_small [of "Dataspace s" 334] assms d by simp
  then show ?thesis by (simp add: slices_needed_def)
qed

text \<open>C38. For every size of the data space that fits, the space is split into at most 25 volumes; up to 8375 GiB they hold
  all of it, in volumes of 335 GiB; beyond, the division drops what is left over, so that up to 24 GiB less than
  asked for are provided.\<close>

theorem sliceConfig_bounds:
  fixes s :: "('k, 'c, 'p) ec2sys"
  assumes "uint (Dataspace s) < 2 ^ 63 - 334"
  shows "let (nslice, sliceSize) = sliceConfig s; d = uint (Dataspace s)
         in 0 \<le> nslice \<and> nslice \<le> 25 \<and> (nslice = 0 \<longleftrightarrow> d = 0) \<and>
            (d \<le> 8375 \<longrightarrow> sliceSize = 335 \<and> d \<le> nslice * sliceSize \<and> nslice * sliceSize < d + 335) \<and>
            (d > 8375 \<longrightarrow> nslice = 25 \<and> sliceSize \<ge> 335 \<and> nslice * sliceSize \<le> d \<and> d - nslice * sliceSize \<le> 24)"
proof -
  define d where "d = uint (Dataspace s)"
  have d0: "0 \<le> d" by (simp add: d_def)
  have n: "slices_needed s = (d + 334) div 335" unfolding d_def by (rule slices_needed_small [OF assms])
  have sd: "sint (Dataspace s) = d" unfolding d_def using assms by (intro sint_nonneg_bound) simp
  have le: "(d + 334) div 335 \<le> 25 \<longleftrightarrow> d \<le> 8375" by linarith
  show ?thesis
  proof (cases "d \<le> 8375")
    case True
    then have "sliceConfig s = ((d + 334) div 335, 335)" using n le by (simp add: sliceConfig_eq)
    then show ?thesis unfolding d_def [symmetric] using True d0 le by simp linarith
  next
    case False
    then have "sliceConfig s = (25, d div 25)" using n le sd d0 by (simp add: sliceConfig_eq)
    then show ?thesis unfolding d_def [symmetric] using False d0 by simp linarith
  qed
qed

theorem sliceConfig_bounds_witness:
  "sliceConfig (new_ec2sys\<lparr>Dataspace := 8400\<rparr> :: (nat, nat, nat) ec2sys) = (25, 336) \<and>
   sliceConfig (new_ec2sys\<lparr>Dataspace := 8399\<rparr> :: (nat, nat, nat) ec2sys) = (25, 335)"
proof -
  have "sliceConfig (new_ec2sys\<lparr>Dataspace := 8400\<rparr> :: (nat, nat, nat) ec2sys) = (25, 336)"
    using sliceConfig_bounds [of "new_ec2sys\<lparr>Dataspace := 8400\<rparr> :: (nat, nat, nat) ec2sys"]
    by (cases "sliceConfig (new_ec2sys\<lparr>Dataspace := 8400\<rparr> :: (nat, nat, nat) ec2sys)") simp
  moreover have "sliceConfig (new_ec2sys\<lparr>Dataspace := 8399\<rparr> :: (nat, nat, nat) ec2sys) = (25, 335)"
    using sliceConfig_bounds [of "new_ec2sys\<lparr>Dataspace := 8399\<rparr> :: (nat, nat, nat) ec2sys"]
    by (cases "sliceConfig (new_ec2sys\<lparr>Dataspace := 8399\<rparr> :: (nat, nat, nat) ec2sys)") simp
  ultimately show ?thesis by blast
qed

lemma sliceConfig_le: "fst (sliceConfig s) \<le> 25"
  by (simp add: sliceConfig_eq)

lemma xvd_name_inj: "i < 25 \<Longrightarrow> j < 25 \<Longrightarrow> xvd_name i = xvd_name j \<Longrightarrow> i = j"
proof -
  assume "i < 25" "j < 25" and e: "xvd_name i = xvd_name j"
  then have "of_char (char_of (98 + i) :: char) = (98 + i :: nat)" "of_char (char_of (98 + j) :: char) = (98 + j :: nat)"
    by simp_all
  then show "i = j" using e by (metis add_left_cancel append_eq_conv_conj append_same_eq list.inject same_append_eq xvd_name_def)
qed

lemma xvda_not_data:
  assumes "n \<le> 25"
  shows "''/dev/xvda'' \<notin> set (map (\<lambda>i. ''/dev/'' @ xvd_name i) [0..<n])"
proof
  assume "''/dev/xvda'' \<in> set (map (\<lambda>i. ''/dev/'' @ xvd_name i) [0..<n])"
  then obtain i where i: "i < n" "''/dev/xvda'' = ''/dev/'' @ xvd_name i" unfolding set_map by (elim imageE) simp
  then have "CHR ''a'' = char_of (98 + i)" by (simp add: xvd_name_def)
  then have "of_char CHR ''a'' = (of_char (char_of (98 + i) :: char) :: nat)" by (rule arg_cong)
  then show False using i(1) assms by simp
qed

text \<open>The volumes requested for an instance and the devices its configuration stripes are the same: the data volumes
  have distinct names, one for each of the devices assembled, in the same order (outside NVMe, where the names are
  the kernel's), and none of them is the default root device.\<close>

theorem volumes_match_devices:
  assumes "\<not> it_NVMe (ec2_config s)" and "add_format s c = Ok (dev, devices, c')" "2 \<le> fst (sliceConfig s)"
  shows "map bd_DeviceName (tl (blockDevices rootdev s)) = map (\<lambda>d. ''/dev/'' @ d) devices \<and>
    distinct (map bd_DeviceName (blockDevices None s)) \<and> int (length devices) = fst (sliceConfig s)"
proof -
  obtain n sz where n: "sliceConfig s = (n, sz)" by fastforce
  have le: "2 \<le> n" "n \<le> 25" using assms(3) sliceConfig_le [of s] n by simp_all
  have dv: "devices = data_devices False (nat n)" using assms n le by (auto simp: add_format_def Let_def)
  have "inj_on xvd_name {0..<nat n}" using le by (auto intro!: inj_onI xvd_name_inj)
  then have "distinct (map (\<lambda>i. ''/dev/'' @ xvd_name i) [0..<nat n])" by (auto simp: distinct_map inj_on_def)
  moreover have "''/dev/xvda'' \<notin> set (map (\<lambda>i. ''/dev/'' @ xvd_name i) [0..<nat n])"
    by (rule xvda_not_data) (use le in linarith)
  ultimately have "distinct (''/dev/xvda'' # map (\<lambda>i. ''/dev/'' @ xvd_name i) [0..<nat n])" by simp
  then have "distinct (map bd_DeviceName (blockDevices None s))"
    using n by (simp only: blockDevices_def Let_def prod.case option.case list.map map_map comp_def blockDevice.select_convs)
  then show ?thesis using n dv le by (simp add: blockDevices_def data_devices_def comp_def Let_def)
qed

definition one_tib :: "(nat, bytes, nat) ec2sys" where
  "one_tib = new_ec2sys\<lparr>Dataspace := 1000, ec2_authority := Some toy_ca, Flavor := Ubuntu\<rparr>"

lemma one_tib_slices: "sliceConfig one_tib = (3, 335)"
  using slices_needed_small [of one_tib] by (simp add: sliceConfig_eq one_tib_def)

subsection \<open>Rendering the templates\<close>

text \<open>A static check that a node renders: the names in \<open>ls\<close> are lists, the variables in \<open>vs\<close> are in scope.\<close>

fun node_ok :: "string list \<Rightarrow> string list \<Rightarrow> node \<Rightarrow> bool" where
  "node_ok ls vs (NVar v) = (v \<in> set vs)"
| "node_ok ls vs (NLen x) = (x \<in> set ls)"
| "node_ok ls vs (NIf x body) = list_all (node_ok ls vs) body"
| "node_ok ls vs (NRange v x body) = (x \<in> set ls \<and> list_all (node_ok ls (v # vs)) body)"
| "node_ok ls vs n = True"

lemma concat_outcome_Ok: "(\<And>r. r \<in> set rs \<Longrightarrow> \<exists>x. r = Ok x) \<Longrightarrow> \<exists>y. concat_outcome rs = Ok y"
  by (induction rs) fastforce+

lemma node_ok_exec:
  assumes "node_ok ls vs n" "\<And>x. x \<in> set ls \<Longrightarrow> \<exists>l. args x = Some (TVList l)" "set vs \<subseteq> dom env"
  shows "\<exists>y. exec_node args env n = Ok y"
  using assms
proof (induction args env n arbitrary: vs rule: exec_node.induct)
  case (6 args env x body)
  have "\<exists>y. exec_node args env n = Ok y" if "tval_true (args x)" "n \<in> set body" for n
    by (rule "6.IH" [OF that, of vs]) (use 6 that in \<open>auto simp: list_all_iff\<close>)
  then show ?case by (auto intro!: concat_outcome_Ok)
next
  case (7 args env v x body)
  have "x \<in> set ls" using "7.prems"(1) by simp
  then obtain l where l: "args x = Some (TVList l)" using "7.prems"(2) by blast
  have "\<exists>y. exec_node args (env(v \<mapsto> e)) n = Ok y" if "n \<in> set body" "e \<in> set l" for n e
    by (rule "7.IH" [OF l refl that(2,1), of "v # vs"]) (use 7 that in \<open>auto simp: list_all_iff\<close>)
  then have "\<exists>y. concat_outcome (map (exec_node args (env(v \<mapsto> e))) body) = Ok y" if "e \<in> set l" for e
    using that by (intro concat_outcome_Ok) auto
  then have "\<exists>y. concat_outcome (map (\<lambda>e. concat_outcome (map (exec_node args (env(v \<mapsto> e))) body)) l) = Ok y"
    by (intro concat_outcome_Ok) auto
  then show ?case using l by simp
qed (force split: option.splits)+

definition block_renders :: "string list \<Rightarrow> string list \<Rightarrow> bool" where
  "block_renders lns ls \<longleftrightarrow> block_ok ls \<and>
     (case parse_template (Join ls [newline]) of None \<Rightarrow> False | Some ns \<Rightarrow> list_all (node_ok lns []) ns)"

lemma block_renders_tmpl:
  assumes "block_renders lns ls" "\<And>x. x \<in> set lns \<Longrightarrow> \<exists>l. args x = Some (TVList l)"
  shows "\<exists>y. tmpl (tpl d ls) args = Ok y"
proof -
  obtain ns where ns: "parse_template (Join ls [newline]) = Some ns" "list_all (node_ok lns []) ns" "block_ok ls"
    using assms(1) by (auto simp: block_renders_def split: option.splits)
  have "\<exists>y. concat_outcome (map (exec_node args Map.empty) ns) = Ok y"
    using ns(2) assms(2) by (intro concat_outcome_Ok) (auto simp: list_all_iff intro!: node_ok_exec [where ls = lns and vs = "[]"])
  then show ?thesis using tmpl_indented [OF ns(3)] ns(1) by (auto simp: render_def)
qed

lemma blocks_render:
  "block_renders [] format_tpl" "block_renders [''devices''] raid_tpl" "block_renders [] mount_tpl"
  "block_renders [] sysctl_tpl" "block_renders [] boot_tpl" "block_renders [] sysctl_unit_tpl" "block_renders [] bootmachine_tpl"
  by code_simp+

lemma append_tmpl_unit_Ok [simp]:
  "append_tmpl_unit name enable content c = Ok c' \<longleftrightarrow>
     (\<exists>x. content = Ok x \<and> c' = AppendUnit \<lparr>cu_Name = name, cu_Command = ''start'', cu_Enable = enable, cu_Content = x, cu_Sync = False\<rparr> c)"
  by (auto simp: append_tmpl_unit_def)

lemma add_format_Ok:
  assumes "0 \<le> fst (sliceConfig s)"
  shows "\<exists>dev devices c'. add_format s c = Ok (dev, devices, c')"
proof -
  obtain n sz where n: "sliceConfig s = (n, sz)" by fastforce
  have "\<exists>y. tmpl (tpl 4 format_tpl) [''name'' \<mapsto> TVStr (if it_NVMe (ec2_config s) then ''nvme1n1'' else ''xvdb'')] = Ok y"
    by (rule block_renders_tmpl [OF blocks_render(1)]) simp
  moreover have "\<exists>z. tmpl (tpl 4 raid_tpl)
      [''devices'' \<mapsto> TVList (data_devices (it_NVMe (ec2_config s)) (nat n)), ''md'' \<mapsto> TVStr ''md0''] = Ok z"
    by (rule block_renders_tmpl [OF blocks_render(2)]) simp
  ultimately show ?thesis using assms n by (auto simp: add_format_def Let_def append_tmpl_unit_def)
qed

text \<open>The files and the units of the configuration.\<close>

definition boot_script :: "string \<Rightarrow> string" where
  "boot_script binary = Join [''#!/bin/bash'', ''set -e'', ''systemctl set-default poweroff.target'', ''bin=/tmp/ec2boot'',
     ''curl -s '' @ binary @ '' >$bin'', ''chmod +x $bin'', ''export BIGMACHINE_MODE=machine'', ''export BIGMACHINE_SYSTEM=ec2'',
     ''export BIGMACHINE_ADDR=:443'', ''$bin -log=debug || true'', ''sleep 30'', ''exit 1''] [newline]"

lemma boot_tpl_parse:
  "parse_template (Join boot_tpl [newline]) = Some [
     NText (Join [''#!/bin/bash'', ''set -e'', ''systemctl set-default poweroff.target'', ''bin=/tmp/ec2boot'', ''curl -s ''] [newline]),
     NField ''binary'',
     NText (Join ['' >$bin'', ''chmod +x $bin'', ''export BIGMACHINE_MODE=machine'', ''export BIGMACHINE_SYSTEM=ec2'', ''export BIGMACHINE_ADDR=:''] [newline]),
     NNum ''443'',
     NText (Join ['''', ''$bin -log=debug || true'', ''sleep 30'', ''exit 1''] [newline])]"
  by code_simp

lemma block_renders_ok: "block_renders lns ls \<Longrightarrow> block_ok ls"
  by (simp add: block_renders_def)

lemma boot_render: "tmpl (tpl 3 boot_tpl) [''binary'' \<mapsto> TVStr b] = Ok (boot_script (html_escape b))"
  using tmpl_indented [OF block_renders_ok [OF blocks_render(5)], of 3 "[''binary'' \<mapsto> TVStr b]"]
  by (simp add: render_def boot_tpl_parse boot_script_def)

definition bootmachine_content :: "bool \<Rightarrow> bool \<Rightarrow> string" where
  "bootmachine_content immortal data = Join (
     [''[Unit]'', ''Description=bootmachine'', ''Requires=network.target'', ''After=network.target''] @
     (if data then ['''', ''After=mnt-data.mount'', ''Requires=mnt-data.mount'', ''''] else ['''']) @
     (if immortal then [''''] else ['''', ''OnFailure=poweroff.target'', ''OnFailureJobMode=replace-irreversibly'', '''']) @
     [''[Service]'', ''OOMScoreAdjust=1000'', ''Type=oneshot'', ''LimitNOFILE=33554432'',
      if data then ''Environment=TMPDIR=/mnt/data'' else '''', ''ExecStart=/opt/bin/bootmachine'']) [newline]"

lemma bootmachine_tpl_parse:
  "parse_template (Join bootmachine_tpl [newline]) = Some [
     NText (Join [''[Unit]'', ''Description=bootmachine'', ''Requires=network.target'', ''After=network.target'', ''''] [newline]),
     NIf ''data'' [NText (Join ['''', ''After=mnt-data.mount'', ''Requires=mnt-data.mount'', ''''] [newline])],
     NText [newline],
     NIf ''mortal'' [NText (Join ['''', ''OnFailure=poweroff.target'', ''OnFailureJobMode=replace-irreversibly'', ''''] [newline])],
     NText (Join ['''', ''[Service]'', ''OOMScoreAdjust=1000'', ''Type=oneshot'', ''LimitNOFILE=''] [newline]),
     NField ''nropen'', NText [newline], NField ''environ'', NText (Join ['''', ''ExecStart=/opt/bin/bootmachine''] [newline])]"
  by code_simp

lemma show_nropen: "show_int nropen = ''33554432''"
  by (simp add: nropen_def show_int_def show_nat.simps digit_def)

lemma bootmachine_plain: "html_escape ''33554432'' = ''33554432''" "html_escape ''Environment=TMPDIR=/mnt/data'' = ''Environment=TMPDIR=/mnt/data''" "html_escape '''' = ''''"
  by code_simp+

lemma bootmachine_render:
  "tmpl (tpl 3 bootmachine_tpl)
     [''mortal'' \<mapsto> TVBool (\<not> immortal), ''environ'' \<mapsto> TVStr (if data then ''Environment=TMPDIR=/mnt/data'' else ''''),
      ''nropen'' \<mapsto> TVInt nropen, ''data'' \<mapsto> TVBool data] = Ok (bootmachine_content immortal data)"
  using tmpl_indented [OF block_renders_ok [OF blocks_render(7)]]
  by (simp add: render_def bootmachine_tpl_parse bootmachine_content_def show_nropen bootmachine_plain)

lemma fold_AppendFile: "fold AppendFile fs c = c\<lparr>WriteFiles := WriteFiles c @ fs\<rparr>"
  by (induction fs arbitrary: c) (simp_all add: AppendFile_def)

lemma fold_AppendUnit: "fold AppendUnit us c = c\<lparr>units := units c @ us\<rparr>"
  by (induction us arbitrary: c) (simp_all add: AppendUnit_def)

lemma fold_AppendMount: "fold (\<lambda>d. AppendMount [d]) ds c = c\<lparr>Mounts := Mounts c @ map (\<lambda>d. [d]) ds\<rparr>"
  by (induction ds arbitrary: c) (simp_all add: AppendMount_def)

definition own_units :: "string list" where
  "own_units = [''update-engine.service'', ''locksmithd.service'', ''format-xvdb.service'', ''format-nvme1n1.service'', ''format-md0.service'',
     ''mnt-data.mount'', ''update-sysctl.service'', ''bootmachine.service'']"

lemma add_format_effect:
  assumes "add_format s c = Ok (dev, devices, c')"
  shows "\<exists>us. c' = c\<lparr>units := units c @ us\<rparr> \<and> cu_Name ` set us \<subseteq> set own_units"
  using assms by (auto simp: add_format_def Let_def AppendUnit_def own_units_def split: prod.splits if_splits intro: exI [of _ "[]"])

lemma add_mount_effect:
  assumes "add_mount s dev devices c = Ok c'"
  shows "\<exists>us ms. c' = c\<lparr>units := units c @ us, Mounts := Mounts c @ ms\<rparr> \<and> cu_Name ` set us \<subseteq> set own_units"
proof (cases "dev = ''''")
  case False
  obtain x where x: "c' = (let c = AppendUnit \<lparr>cu_Name = ''mnt-data.mount'', cu_Command = ''start'', cu_Enable = False, cu_Content = x, cu_Sync = False\<rparr> c
      in if Flavor s = Ubuntu then fold (\<lambda>d. AppendMount [d]) devices (AppendMount [dev] c) else c)"
    using assms False by (auto simp: add_mount_def Let_def)
  let ?u = "\<lparr>cu_Name = ''mnt-data.mount'', cu_Command = ''start'', cu_Enable = False, cu_Content = x, cu_Sync = False\<rparr>"
  let ?ms = "if Flavor s = Ubuntu then [dev] # map (\<lambda>d. [d]) devices else []"
  have "c' = c\<lparr>units := units c @ [?u], Mounts := Mounts c @ ?ms\<rparr>"
    by (simp add: x Let_def AppendUnit_def fold_AppendMount) (simp add: AppendMount_def)
  then show ?thesis by (intro exI [of _ "[?u]"] exI [of _ ?ms]) (simp add: own_units_def)
qed (use assms in \<open>auto simp: add_mount_def intro!: exI [of _ "[]"]\<close>)

definition boot_file :: "string \<Rightarrow> CloudFile" where
  "boot_file binary = \<lparr>cf_Path = ''/opt/bin/bootmachine'', cf_Permissions = ''0755'', cf_Owner = ''root'', cf_Content = boot_script (html_escape binary)\<rparr>"

definition authority_file :: "('k, 'c) authority \<Rightarrow> CloudFile" where
  "authority_file ca = \<lparr>cf_Path = authorityPath, cf_Permissions = ''0644'', cf_Owner = '''', cf_Content = Contents ca\<rparr>"

definition bootmachine_unit :: "bool \<Rightarrow> bool \<Rightarrow> CloudUnit" where
  "bootmachine_unit immortal data =
     \<lparr>cu_Name = ''bootmachine.service'', cu_Command = ''start'', cu_Enable = True,
      cu_Content = bootmachine_content immortal data, cu_Sync = False\<rparr>"

lemma add_boot_unit_eq: "add_boot_unit immortal dev c = Ok (AppendUnit (bootmachine_unit immortal (dev \<noteq> '''')) c)"
  using bootmachine_render [of immortal "dev \<noteq> ''''"]
  by (simp add: add_boot_unit_def append_tmpl_unit_def bootmachine_unit_def Let_def)

lemma add_boot_script_eq: "add_boot_script s c = Ok (AppendFile (boot_file (Binary s)) c)"
  by (simp add: add_boot_script_def boot_render boot_file_def)

text \<open>What a configuration consists of when it is built.\<close>

lemma ec2_cloudConfigE:
  assumes "ec2_cloudConfig immortal s = Ok c"
  obtains ca f us su data where "ec2_authority s = Some ca"
    "WriteFiles c = f # AdditionalFiles s @ [boot_file (Binary s), authority_file ca]"
    "units c = us @ AdditionalUnits s @ [su, bootmachine_unit immortal data]"
    "cu_Name ` set (us @ [su]) \<subseteq> set own_units" "cc_Flavor c = Flavor s" "SshAuthorizedKeys c = SshKeys s"
    "0 \<le> fst (sliceConfig s)" "data \<longleftrightarrow> fst (sliceConfig s) \<noteq> 0"
proof -
  define c0 where "c0 = new_cloudConfig\<lparr>SshAuthorizedKeys := SshKeys s, cc_Flavor := Flavor s\<rparr>"
  define c1 where "c1 = (if Flavor s = Flatcar
               then AppendUnit (command_unit ''locksmithd.service'' ''stop'')
                      (AppendUnit (command_unit ''update-engine.service'' ''stop'') (c0\<lparr>RebootStrategy := ''off''\<rparr>))
               else c0)"
  have c1: "WriteFiles c1 = []" "cu_Name ` set (units c1) \<subseteq> set own_units" "cc_Flavor c1 = Flavor s" "SshAuthorizedKeys c1 = SshKeys s"
    by (simp_all add: c1_def c0_def new_cloudConfig_def AppendUnit_def command_unit_def own_units_def)
  obtain dev devices c2 c3 c4 c5 c6 where st: "add_format s c1 = Ok (dev, devices, c2)" "add_mount s dev devices c2 = Ok c3"
    "add_sysctl_file c3 = Ok c4"
    "add_authority s (AppendFile (boot_file (Binary s)) (fold AppendUnit (AdditionalUnits s) (fold AppendFile (AdditionalFiles s) c4))) = Ok c5"
    "add_sysctl_unit s c5 = Ok c6" "c = AppendUnit (bootmachine_unit immortal (dev \<noteq> '''')) c6"
    using assms by (auto simp: ec2_cloudConfig_def Let_def add_boot_unit_eq add_boot_script_eq c0_def [symmetric] c1_def [symmetric])
  obtain us2 where c2: "c2 = c1\<lparr>units := units c1 @ us2\<rparr>" "cu_Name ` set us2 \<subseteq> set own_units" using add_format_effect [OF st(1)] by blast
  obtain us3 ms where c3: "c3 = c2\<lparr>units := units c2 @ us3, Mounts := Mounts c2 @ ms\<rparr>" "cu_Name ` set us3 \<subseteq> set own_units"
    using add_mount_effect [OF st(2)] by blast
  obtain f where c4: "c4 = AppendFile f c3" using st(3) by (auto simp: add_sysctl_file_def)
  obtain ca where ca: "ec2_authority s = Some ca"
    "c5 = AppendFile (authority_file ca) (AppendFile (boot_file (Binary s)) (fold AppendUnit (AdditionalUnits s) (fold AppendFile (AdditionalFiles s) c4)))"
    using st(4) by (auto simp: add_authority_def authority_file_def split: option.splits)
  obtain su where su: "c6 = AppendUnit su c5" "cu_Name su = ''update-sysctl.service''" using st(5) by (auto simp: add_sysctl_unit_def Let_def)
  have dev: "0 \<le> fst (sliceConfig s)" "dev \<noteq> '''' \<longleftrightarrow> fst (sliceConfig s) \<noteq> 0"
    using st(1) by (auto simp: add_format_def Let_def split: prod.splits if_splits)
  show thesis
    by (rule that [of ca f "units c1 @ us2 @ us3" su "dev \<noteq> ''''"])
      (use c1 c2 c3 c4 ca su dev in \<open>auto simp: st(6) AppendFile_def AppendUnit_def fold_AppendFile fold_AppendUnit own_units_def\<close>)
qed

subsection \<open>Properties of the cloud configuration\<close>

lemma ec2_cloudConfig_Ok:
  assumes a: "ec2_authority s \<noteq> None \<and> 0 \<le> fst (sliceConfig s)"
  shows "\<exists>c. ec2_cloudConfig immortal s = Ok c"
proof -
  have mount: "\<exists>c'. add_mount s dev devices c = Ok c'" for dev devices c
    using block_renders_tmpl [OF blocks_render(3), of "[''name'' \<mapsto> TVStr dev]" 4] by (auto simp: add_mount_def append_tmpl_unit_def)
  have sfile: "\<exists>c'. add_sysctl_file c = Ok c'" for c
    using block_renders_tmpl [OF blocks_render(4), of "[''filemax'' \<mapsto> TVInt filemax, ''nropen'' \<mapsto> TVInt nropen]" 3]
    by (auto simp: add_sysctl_file_def)
  have unit: "\<exists>c'. add_sysctl_unit s c = Ok c'" for c
    using block_renders_tmpl [OF blocks_render(6), of "[''sysctlPath'' \<mapsto> TVStr p]" 3 for p]
    by (auto simp: add_sysctl_unit_def Let_def append_tmpl_unit_def)
  have auth: "\<exists>c'. add_authority s c = Ok c'" for c using a by (auto simp: add_authority_def)
  define c1 where "c1 = (if Flavor s = Flatcar
               then AppendUnit (command_unit ''locksmithd.service'' ''stop'')
                      (AppendUnit (command_unit ''update-engine.service'' ''stop'')
                        (new_cloudConfig\<lparr>SshAuthorizedKeys := SshKeys s, cc_Flavor := Flavor s, RebootStrategy := ''off''\<rparr>))
               else new_cloudConfig\<lparr>SshAuthorizedKeys := SshKeys s, cc_Flavor := Flavor s\<rparr>)"
  obtain dev devices c2 where "add_format s c1 = Ok (dev, devices, c2)" using add_format_Ok [OF conjunct2 [OF a]] by blast
  moreover obtain c3 where "add_mount s dev devices c2 = Ok c3" using mount by blast
  moreover obtain c4 where "add_sysctl_file c3 = Ok c4" using sfile by blast
  moreover obtain c5 where "add_authority s (AppendFile (boot_file (Binary s))
      (fold AppendUnit (AdditionalUnits s) (fold AppendFile (AdditionalFiles s) c4))) = Ok c5" using auth by blast
  moreover obtain c6 where "add_sysctl_unit s c5 = Ok c6" using unit by blast
  ultimately show ?thesis
    unfolding ec2_cloudConfig_def Let_def add_boot_unit_eq add_boot_script_eq bind_outcome.simps c1_def [symmetric] by simp
qed

text \<open>C26. The cloud configuration can be built exactly if the system has an authority and the number of data volumes is not
  negative: every template renders, whatever the system is configured with.\<close>

theorem ec2_cloudConfig_total:
  "(\<exists>c. ec2_cloudConfig immortal s = Ok c) \<longleftrightarrow> ec2_authority s \<noteq> None \<and> 0 \<le> fst (sliceConfig s)"
proof
  assume "\<exists>c. ec2_cloudConfig immortal s = Ok c"
  then show "ec2_authority s \<noteq> None \<and> 0 \<le> fst (sliceConfig s)" by (auto elim!: ec2_cloudConfigE)
qed (rule ec2_cloudConfig_Ok)

text \<open>A data space that is negative, or so large that rounding it up wraps around, makes the configuration panic:
  the number of volumes comes out negative and is passed to \<open>make\<close>.\<close>

theorem negative_dataspace_panics:
  assumes "sint (Dataspace s + 334) \<le> - 335"
  shows "ec2_cloudConfig immortal s = Panic ''makeslice: len out of range''"
proof -
  have "1 \<le> \<bar>sint (Dataspace s + 334)\<bar> div 335" using assms by linarith
  moreover have "go_quot (sint (Dataspace s + 334)) 335 = - (\<bar>sint (Dataspace s + 334)\<bar> div 335)"
    using assms by (simp add: go_quot_def)
  ultimately have "slices_needed s < 0" by (simp add: slices_needed_def)
  then show ?thesis by (simp add: ec2_cloudConfig_def add_format_def sliceConfig_eq Let_def)
qed

theorem negative_dataspace_panics_witness:
  "ec2_cloudConfig False (new_ec2sys\<lparr>Dataspace := - 1000\<rparr> :: (nat, nat, nat) ec2sys) = Panic ''makeslice: len out of range''"
proof -
  have "sint (word_of_int (- 666) :: 64 word) = - 666" by (rule sint_word_of_int_small) simp_all
  then show ?thesis using negative_dataspace_panics [of "new_ec2sys\<lparr>Dataspace := - 1000\<rparr> :: (nat, nat, nat) ec2sys" False] by simp
qed

lemma bootmachine_content_poweroff: "Contains (bootmachine_content immortal data) ''OnFailure=poweroff.target'' \<longleftrightarrow> \<not> immortal"
proof -
  have "Contains (bootmachine_content False True) ''OnFailure=poweroff.target''" "Contains (bootmachine_content False False) ''OnFailure=poweroff.target''"
    "\<not> Contains (bootmachine_content True True) ''OnFailure=poweroff.target''" "\<not> Contains (bootmachine_content True False) ''OnFailure=poweroff.target''"
    by code_simp+
  then show ?thesis by (cases immortal; cases data) simp_all
qed

lemma boot_script_inj [simp]: "boot_script a = boot_script b \<longleftrightarrow> a = b"
  by (simp add: boot_script_def)

text \<open>An instance boots a machine of the system: whatever files and units the user adds, the last unit is the one that
  runs the boot script; it powers the instance off on failure exactly if instances are mortal; the boot script, which starts what it
  fetches as a machine of the EC2 system on port 443, and the authority are written after the user's files. The script fetches the configured
  binary exactly if its address has none of the characters that are special in HTML: the templates are those of \<open>html/template\<close>, so that the
  ampersands of a signed address, for one, do not reach the script.\<close>

theorem ec2_instance_boots:
  assumes "ec2_cloudConfig immortal s = Ok c"
  shows "\<exists>ca data boot. ec2_authority s = Some ca \<and> last (units c) = bootmachine_unit immortal data \<and>
    (Contains (cu_Content (last (units c))) ''OnFailure=poweroff.target'' \<longleftrightarrow> \<not> immortal) \<and>
    suffix (AdditionalFiles s @ [boot, authority_file ca]) (WriteFiles c) \<and>
    cf_Path boot = ''/opt/bin/bootmachine'' \<and> (cf_Content boot = boot_script (Binary s) \<longleftrightarrow> html_plain (Binary s)) \<and>
    sublist (AdditionalUnits s) (units c) \<and> SshAuthorizedKeys c = SshKeys s"
proof -
  obtain ca f us su data where c: "ec2_authority s = Some ca"
    "WriteFiles c = f # AdditionalFiles s @ [boot_file (Binary s), authority_file ca]"
    "units c = us @ AdditionalUnits s @ [su, bootmachine_unit immortal data]" "SshAuthorizedKeys c = SshKeys s"
    using assms by (rule ec2_cloudConfigE)
  show ?thesis
    by (intro exI [of _ ca] exI [of _ data] exI [of _ "boot_file (Binary s)"])
      (simp add: c bootmachine_unit_def bootmachine_content_poweroff suffix_Cons sublist_append boot_file_def html_escape_eq_iff)
qed

lemma one_tib_config: "\<exists>c. ec2_cloudConfig False one_tib = Ok c"
  by (rule ec2_cloudConfig_Ok) (simp add: one_tib_slices, simp add: one_tib_def)

theorem ec2_instance_boots_witness:
  "\<exists>c. ec2_cloudConfig False one_tib = Ok c \<and> Contains (cu_Content (last (units c))) ''OnFailure=poweroff.target''"
  using one_tib_config ec2_instance_boots [of False one_tib] by blast

theorem volumes_match_devices_witness:
  "map bd_DeviceName (tl (blockDevices None one_tib)) = [''/dev/xvdb'', ''/dev/xvdc'', ''/dev/xvdd'']"
proof -
  obtain dev devices c' where f: "add_format one_tib new_cloudConfig = Ok (dev, devices, c')"
    using add_format_Ok [of one_tib new_cloudConfig] by (auto simp: one_tib_slices)
  have nv: "it_NVMe (ec2_config one_tib) = False" by (simp add: one_tib_def new_ec2sys_def zero_itype_def)
  then have "devices = data_devices False 3" using f by (auto simp: add_format_def one_tib_slices Let_def)
  also have "data_devices False 3 = [''xvdb'', ''xvdc'', ''xvdd'']" by code_simp
  finally have "devices = [''xvdb'', ''xvdc'', ''xvdd'']" .
  with volumes_match_devices [OF _ f, of None] show ?thesis
    by (simp add: one_tib_slices nv)
qed

text \<open>The files an instance has after cloud-init wrote them in order, unit files included.\<close>

definition cloud_files :: "cloudConfig \<Rightarrow> string \<rightharpoonup> bytes" where
  "cloud_files c = fold (\<lambda>f fs. fs(cf_Path f \<mapsto> cf_Content f)) (WriteFiles (marshal_copy c)) Map.empty"

lemma fold_files_other:
  "p \<notin> cf_Path ` set fl \<Longrightarrow> fold (\<lambda>f fs. fs(cf_Path f \<mapsto> cf_Content f)) fl m p = m p"
  by (induction fl arbitrary: m) auto

lemma own_units_paths: "list_all (\<lambda>n. path_Join_rooted ''/etc/systemd/system'' n \<noteq> authorityPath) own_units"
  by code_simp

lemma marshal_copy_files:
  "WriteFiles (marshal_copy c) =
     WriteFiles c @ (if cc_Flavor c = Flatcar then [] else map unit_file (filter (\<lambda>u. cu_Content u \<noteq> '''') (units c)))"
  by (simp add: marshal_copy_def marshal_units Let_def)

text \<open>C18. Driver and instances share one authority: on an instance that was booted with the configuration of an initialized
  system, reading the authority from its well-known path gives the authority of the driver, whatever the clock
  and the random source of the instance, provided no unit the user adds is written over that path.\<close>

theorem ec2_shares_authority:
  assumes "pem_laws X" and "ec2_Init X types w rnd now y s fs = Some (None, s', fs')"
    and "ec2_cloudConfig immortal s' = Ok c"
    and "\<forall>u \<in> set (AdditionalUnits s'). path_Join_rooted ''/etc/systemd/system'' (cu_Name u) \<noteq> authorityPath"
    and "a_files gs = cloud_files c" "a_read_err gs authorityPath = None"
  shows "\<exists>ca. ec2_authority s' = Some ca \<and> authority_New X authorityPath rnd' now' y' gs = Some (Inr ca, gs)"
proof -
  obtain ca where ca: "ec2_authority s' = Some ca" "authority_New X authorityPath rnd now y fs = Some (Inr ca, fs')"
    using assms(2) by (auto simp: ec2_Init_def split: option.splits prod.splits sum.splits)
  obtain f us su data where c: "WriteFiles c = f # AdditionalFiles s' @ [boot_file (Binary s'), authority_file ca]"
    "units c = us @ AdditionalUnits s' @ [su, bootmachine_unit immortal data]" "cu_Name ` set (us @ [su]) \<subseteq> set own_units"
    using ec2_cloudConfigE [OF assms(3)] ca(1) by (metis option.inject)
  have boot: "cu_Name (bootmachine_unit immortal data) \<in> set own_units" by (simp add: bootmachine_unit_def own_units_def)
  have "path_Join_rooted ''/etc/systemd/system'' (cu_Name u) \<noteq> authorityPath" if "u \<in> set (units c)" for u
    using that assms(4) c(2,3) boot own_units_paths unfolding list_all_iff by auto
  then have "authorityPath \<noteq> cf_Path (unit_file u)" if "u \<in> set (units c)" for u
    using that by (simp add: unit_file_def not_sym)
  then have "authorityPath \<notin> cf_Path ` set (if cc_Flavor c = Flatcar then [] else map unit_file (filter (\<lambda>u. cu_Content u \<noteq> '''') (units c)))"
    by auto
  then have "cloud_files c authorityPath = fold (\<lambda>f fs. fs(cf_Path f \<mapsto> cf_Content f)) (WriteFiles c) Map.empty authorityPath"
    unfolding cloud_files_def marshal_copy_files fold_append comp_def by (rule fold_files_other)
  then have "a_files gs authorityPath = Some (Contents ca)" by (simp add: assms(5) c(1) authority_file_def)
  then have "authority_New X authorityPath rnd' now' y' gs = Some (Inr ca, gs)"
    by (intro authority_New_Contents [OF assms(1) ca(2)]) (simp_all add: authorityPath_def assms(6) [unfolded authorityPath_def])
  then show ?thesis using ca(1) by blast
qed

definition demo_type :: itype where
  "demo_type = \<lparr>it_Name = ''m3.medium'', it_EBSOptimized = False, it_VCPU = 1, it_Price = (\<lambda>r. if r = ''us-west-2'' then 67 / 1000 else 0), it_NVMe = False\<rparr>"

definition demo_world :: "(nat, bytes, nat) init_world" where
  "demo_world = \<lparr>iw_GOOS = ''linux'', iw_GOARCH = ''amd64'', iw_Self = None, iw_Open = ImageOk, iw_key = Inr 7, iw_pubkey = Inr ''ssh-rsa k'',
     iw_rsa_pub = Inl (Opaque ''none''), iw_agent = [], iw_session = None\<rparr>"

lemma demo_Init:
  "ec2_Init toy_x509 (instanceTypes [demo_type]) demo_world 3 0 9 new_ec2sys toy_fs =
     Some (None, (init_defaults new_ec2sys)\<lparr>ec2_config := demo_type, privateKey := Some 7, SshKeys := [''ssh-rsa k''], ec2_authority := Some toy_ca\<rparr>,
       toy_fs\<lparr>a_files := [authorityPath \<mapsto> Contents toy_ca]\<rparr>)"
proof -
  have a: "authorityPath \<noteq> ''''" by (simp add: authorityPath_def)
  have "init_defaults new_ec2sys = (new_ec2sys :: (nat, bytes, nat) ec2sys)\<lparr>InstanceType := ''m3.medium'', AMI := ''ami-0bb54692374ac10a7'',
      AWSConfig := Some (Some ''us-west-2''), Diskspace := 200, Binary := defaultEc2Boot\<rparr>"
    by (simp add: init_defaults_eq new_ec2sys_def)
  then show ?thesis using a
    by (simp add: ec2_Init_def check_image_def init_type_def init_keys_def demo_world_def instanceTypes_def demo_type_def ec2_region_def toy_New
        new_ec2sys_def Let_def TrimSpace_def isSpace_def)
qed

theorem ec2_shares_authority_witness:
  "\<exists>s' c. ec2_authority s' = Some toy_ca \<and> ec2_cloudConfig False (s' :: (nat, bytes, nat) ec2sys) = Ok c \<and>
     authority_New toy_x509 authorityPath 8 5 9 (toy_fs\<lparr>a_files := cloud_files c\<rparr>) = Some (Inr toy_ca, toy_fs\<lparr>a_files := cloud_files c\<rparr>)"
proof -
  let ?s = "(init_defaults new_ec2sys)\<lparr>ec2_config := demo_type, privateKey := Some 7, SshKeys := [''ssh-rsa k''], ec2_authority := Some toy_ca\<rparr>
    :: (nat, bytes, nat) ec2sys"
  have "Dataspace ?s = 0" "AdditionalUnits ?s = []" by (simp_all add: init_defaults_eq new_ec2sys_def)
  moreover from this have "sliceConfig ?s = (0, 335)" by (simp add: sliceConfig_eq slices_needed_small)
  then obtain c where "ec2_cloudConfig False ?s = Ok c" using ec2_cloudConfig_Ok [of ?s False] by auto
  moreover have "ec2_authority ?s = Some toy_ca" by simp
  ultimately show ?thesis
    using ec2_shares_authority [OF toy_pem_laws demo_Init, of False c "toy_fs\<lparr>a_files := cloud_files c\<rparr>" 8 5 9]
    by (intro exI [of _ ?s] exI [of _ c]) (simp add: toy_fs_def)
qed

subsection \<open>Initialization\<close>

lemma instanceTypes_Some: "instanceTypes types n = Some t \<Longrightarrow> t \<in> set types \<and> it_Name t = n"
proof -
  have "fold (\<lambda>typ m. m(it_Name typ \<mapsto> typ)) ts m n = Some t \<Longrightarrow> m n = Some t \<or> t \<in> set ts \<and> it_Name t = n" for ts and m :: "string \<rightharpoonup> itype"
    by (induction ts arbitrary: m) (fastforce split: if_splits)+
  then show "instanceTypes types n = Some t \<Longrightarrow> t \<in> set types \<and> it_Name t = n" by (fastforce simp: instanceTypes_def)
qed

lemma init_defaults_facts:
  "AMI (init_defaults s) \<noteq> ''''" "Diskspace (init_defaults s) \<noteq> 0" "Binary (init_defaults s) \<noteq> ''''"
  "HasPrefix (Binary (init_defaults s)) defaultEc2BootPrefix \<longrightarrow> Binary (init_defaults s) = defaultEc2Boot"
  "SshKeys (init_defaults s) = SshKeys s" "InstanceType (init_defaults s) \<noteq> ''''"
  "AWSConfig (init_defaults s) \<noteq> None" "AWSConfig (init_defaults s) \<noteq> Some None"
  by (simp_all add: init_defaults_eq defaultEc2Boot_def defaultEc2BootVersion_def)

lemma init_defaults_id:
  assumes "AMI s \<noteq> ''''" "Diskspace s \<noteq> 0" "Binary s \<noteq> ''''" "HasPrefix (Binary s) defaultEc2BootPrefix \<longrightarrow> Binary s = defaultEc2Boot"
    "InstanceType s \<noteq> ''''" "AWSConfig s \<noteq> None" "AWSConfig s \<noteq> Some None"
  shows "init_defaults s = s"
proof -
  have b: "(if Binary s = '''' \<or> HasPrefix (Binary s) defaultEc2BootPrefix then defaultEc2Boot else Binary s) = Binary s"
    using assms(3,4) by auto
  have r: "(if AWSConfig s = None \<or> AWSConfig s = Some None then x else AWSConfig s) = AWSConfig s" for x
    using assms(6,7) by auto
  show ?thesis unfolding init_defaults_eq b r using assms(1,2,5) by simp
qed

text \<open>A system that initializes is complete: its instance type is known and sold in its region, it has an image, root disk
  space, a session key whose public half the instances accept, the authority, and a boot binary that is never an outdated
  version of the default; the keys the user configured stay in front, and initializing an already initialized
  system changes none of the defaults.\<close>

theorem ec2_Init_complete:
  assumes "ec2_Init X (instanceTypes types) w rnd now y s fs = Some (None, s', fs')"
  shows "(\<exists>typ \<in> set types. it_Name typ = InstanceType s' \<and> ec2_config s' = typ \<and> it_Price typ (ec2_region s') \<noteq> 0) \<and>
    AMI s' \<noteq> '''' \<and> Diskspace s' \<noteq> 0 \<and> (HasPrefix (Binary s') defaultEc2BootPrefix \<longrightarrow> Binary s' = defaultEc2Boot) \<and>
    Binary s' \<noteq> '''' \<and> ec2_authority s' \<noteq> None \<and>
    (\<exists>pub us. iw_pubkey w = Inr pub \<and> privateKey s' \<noteq> None \<and> SshKeys s' = SshKeys s @ TrimSpace pub # us) \<and>
    init_defaults s' = s'"
proof -
  obtain s1 s2 ca where st: "init_type (instanceTypes types) (init_defaults s) = (None, s1)" "init_keys w s1 = (None, s2)"
    "s' = s2\<lparr>ec2_authority := Some ca\<rparr>"
    using assms by (auto simp: ec2_Init_def split: option.splits prod.splits sum.splits)
  obtain typ' where ty: "instanceTypes types (InstanceType (init_defaults s)) = Some typ'" "s1 = (init_defaults s)\<lparr>ec2_config := typ'\<rparr>"
    "it_Price typ' (ec2_region s1) \<noteq> 0"
    using st(1) by (auto simp: init_type_def Let_def split: option.splits if_splits)
  obtain key pub us where k: "iw_pubkey w = Inr pub" "s2 = s1\<lparr>privateKey := Some key, SshKeys := SshKeys s1 @ TrimSpace pub # us\<rparr>"
    using st(2) by (auto simp: init_keys_def Let_def split: sum.splits)
  have "typ' \<in> set types \<and> it_Name typ' = InstanceType (init_defaults s)" using ty(1) by (rule instanceTypes_Some)
  moreover have "init_defaults s' = s'"
    by (rule init_defaults_id) (simp_all add: st(3) k(2) ty(2) init_defaults_facts)
  ultimately show ?thesis using ty(3) k(1) by (simp add: st(3) k(2) ty(2) ec2_region_def init_defaults_facts)
qed

theorem ec2_Init_complete_witness:
  "\<exists>s' fs'. ec2_Init toy_x509 (instanceTypes [demo_type]) demo_world 3 0 9 new_ec2sys toy_fs = Some (None, s', fs') \<and>
     it_Price (ec2_config s') (ec2_region s') \<noteq> 0"
  using demo_Init ec2_Init_complete [OF demo_Init] by auto

text \<open>A profile without SSH keys yields one empty key, because splitting the empty string gives one part; the empty key is
  passed on to every instance.\<close>

theorem config_New_empty_key:
  assumes "p_sshkey p = ''''" and "config_New p region = Inr s"
  shows "SshKeys s = ['''']"
  using assms by (auto simp: config_New_def Let_def split: if_splits)

theorem config_New_empty_key_witness:
  "\<exists>s. config_New default_params None = Inr (s :: (nat, nat, nat) ec2sys) \<and> SshKeys s = ['''']"
  using config_New_empty_key [of default_params None] by (auto simp: config_New_def default_params_def Let_def)

end
