(* ===== verification/Diagnostics.thy ===== *)
theory Diagnostics
  imports Bigmachine "HOL-Library.Word"
begin

text \<open>
  The status page (\<open>status.go\<close>) and the exported variables of the cluster (\<open>expvar.go\<close>). Of the standard library the theory
  models \<open>Duration.String\<close>, the layout of \<open>text/tabwriter\<close> on text without vertical tabs and form feeds, \<open>errgroup.Wait\<close> and the
  order of the keys in \<open>encoding/json\<close>. The printing of sizes (\<open>grailbio/base/data\<close>), of instants and of floating-point numbers is a
  parameter, the record \<open>sfmt\<close>. Goroutines that run beside each other appear by the order in which they complete.
\<close>

subsection \<open>Durations\<close>

text \<open>The digits of a fraction, without trailing zeros.\<close>

definition fmtFrac :: "nat \<Rightarrow> nat \<Rightarrow> string" where
  "fmtFrac v prec =
     (let ds = TrimRight (map (\<lambda>i. digit (v div 10 ^ (prec - 1 - i) mod 10)) [0..<prec]) CHR ''0''
      in if ds = [] then [] else CHR ''.'' # ds)"

definition Duration_abs :: "nat \<Rightarrow> string" where
  "Duration_abs u =
     (if u = 0 then ''0s''
      else if u < 1000 then show_nat u @ ''ns''
      else if u < 1000000 then show_nat (u div 10 ^ 3) @ fmtFrac u 3 @ [CHR 0xC2, CHR 0xB5, CHR ''s'']
      else if u < 1000000000 then show_nat (u div 10 ^ 6) @ fmtFrac u 6 @ ''ms''
      else let s = u div 10 ^ 9; m = s div 60; h = m div 60
           in (if h > 0 then show_nat h @ ''h'' else []) @ (if m > 0 then show_nat (m mod 60) @ ''m'' else [])
              @ show_nat (s mod 60) @ fmtFrac u 9 @ ''s'')"

definition Duration_String :: "duration \<Rightarrow> string" where
  "Duration_String d = (if d < 0 then CHR ''-'' # Duration_abs (nat (- d)) else Duration_abs (nat d))"

text \<open>The remainder has the sign of the dividend.\<close>

definition rounddur :: "duration \<Rightarrow> duration" where
  "rounddur d = d - sgn d * (\<bar>d\<bar> mod Millisecond)"

definition roundjoindur :: "duration list \<Rightarrow> string" where
  "roundjoindur ds = Join (map (\<lambda>d. Duration_String (rounddur d)) ds) '' ''"

subsection \<open>Tab-separated columns\<close>

text \<open>A cell is ended by a tab; what follows the last tab of a line belongs to no column. A column is a block of consecutive lines that
  have a cell there, as wide as its widest cell and the padding.\<close>

definition has_cell :: "nat \<Rightarrow> string list \<Rightarrow> bool" where
  "has_cell j l \<longleftrightarrow> j < length l - 1"

definition block_width :: "nat \<Rightarrow> nat \<Rightarrow> nat \<Rightarrow> string list list \<Rightarrow> nat" where
  "block_width minwidth padding j ls = fold max (map (\<lambda>l. length (l ! j) + padding) ls) minwidth"

function column_widths :: "nat \<Rightarrow> nat \<Rightarrow> nat \<Rightarrow> string list list \<Rightarrow> nat list" where
  "column_widths minwidth padding j [] = []"
| "column_widths minwidth padding j (l # ls) =
     (if \<not> has_cell j l then 0 # column_widths minwidth padding j ls
      else let block = l # takeWhile (has_cell j) ls
           in replicate (length block) (block_width minwidth padding j block)
              @ column_widths minwidth padding j (dropWhile (has_cell j) ls))"
  by pat_completeness auto
termination by (relation "measure (\<lambda>(minwidth, padding, j, ls). length ls)") (auto simp: less_Suc_eq_le length_dropWhile_le)

definition pad_cell :: "nat \<Rightarrow> string \<Rightarrow> string" where
  "pad_cell w c = c @ replicate (w - length c) CHR '' ''"

definition layout_line :: "(nat \<Rightarrow> nat) \<Rightarrow> string list \<Rightarrow> string" where
  "layout_line width l = concat (map (\<lambda>j. if has_cell j l then pad_cell (width j) (l ! j) else l ! j) [0..<length l])"

definition tab_layout :: "nat \<Rightarrow> nat \<Rightarrow> string list list \<Rightarrow> string list" where
  "tab_layout minwidth padding ls =
     map (\<lambda>i. layout_line (\<lambda>j. column_widths minwidth padding j ls ! i) (ls ! i)) [0..<length ls]"

definition tabwriter :: "string \<Rightarrow> string" where
  "tabwriter s = Join (tab_layout 4 1 (map (\<lambda>l. Split l CHR 0x09) (Split s CHR 0x0A))) [CHR 0x0A]"

subsection \<open>The status of a machine\<close>

record memstats =
  ms_Sys :: nat
  ms_Alloc :: nat
  ms_PauseTotalNs :: nat
  ms_PauseNs :: "nat list"
  ms_NumGC :: "32 word"

record 'f usage =
  us_Total :: nat
  us_Used :: nat
  us_Free :: nat
  us_Percent :: 'f

record 'f machineInfo =
  mi_err :: "err option"
  mi_System :: "'f usage"
  mi_Runtime :: memstats
  mi_Disk :: "'f usage"
  mi_Load :: "'f \<times> 'f \<times> 'f"
  mi_KeepaliveReplyTimes :: "duration list"
  mi_NextKeepalive :: time

text \<open>The error of a group: that of the first function to fail. \<open>results\<close> are in the order of completion.\<close>

fun errgroup_Wait :: "err option list \<Rightarrow> err option" where
  "errgroup_Wait [] = None"
| "errgroup_Wait (Some e # results) = Some e"
| "errgroup_Wait (None # results) = errgroup_Wait results"

datatype infocall = CallMem | CallDisk | CallLoad

text \<open>What the calls of \<open>allInfo\<close> return, and the order in which they do.\<close>

record 'f inforeplies =
  ir_Mem :: "err option \<times> 'f usage \<times> memstats"
  ir_Disk :: "err option \<times> 'f usage"
  ir_Load :: "err option \<times> 'f \<times> 'f \<times> 'f"
  ir_order :: "infocall list"

definition info_err :: "'f inforeplies \<Rightarrow> infocall \<Rightarrow> err option" where
  "info_err r c = (case c of CallMem \<Rightarrow> fst (ir_Mem r) | CallDisk \<Rightarrow> fst (ir_Disk r) | CallLoad \<Rightarrow> fst (ir_Load r))"

definition allInfo :: "'f inforeplies \<Rightarrow> 'i machine \<Rightarrow> 'f machineInfo" where
  "allInfo r m =
     \<lparr>mi_err = errgroup_Wait (map (info_err r) (ir_order r)),
      mi_System = fst (snd (ir_Mem r)), mi_Runtime = snd (snd (ir_Mem r)), mi_Disk = snd (ir_Disk r), mi_Load = snd (ir_Load r),
      mi_KeepaliveReplyTimes = KeepaliveReplyTimes m, mi_NextKeepalive = NextKeepalive m\<rparr>"

record 'f sfmt =
  sf_Size :: "nat \<Rightarrow> string"      \<comment> \<open>\<open>data.Size.String\<close>\<close>
  sf_Time :: "time \<Rightarrow> string"     \<comment> \<open>\<open>Time.String\<close>\<close>
  sf_F1 :: "'f \<Rightarrow> string"         \<comment> \<open>\<open>%.1f\<close>\<close>
  sf_Err :: "err \<Rightarrow> string"       \<comment> \<open>\<open>Error\<close>\<close>

definition status_row :: "string \<Rightarrow> string \<Rightarrow> string" where
  "status_row label v = [CHR 0x09, CHR 0x09] @ label @ [CHR 0x09] @ v @ [CHR 0x0A]"

definition status_head :: "string \<Rightarrow> string" where
  "status_head label = [CHR 0x09] @ label @ [CHR 0x0A]"

text \<open>\<open>statusTemplate\<close>, executed at the instant \<open>now\<close> in a process that started at \<open>startTime\<close>.\<close>

definition statusTemplate :: "'f sfmt \<Rightarrow> time \<Rightarrow> time \<Rightarrow> 'i machine \<Rightarrow> 'f machineInfo \<Rightarrow> nat \<Rightarrow> string" where
  "statusTemplate f startTime now m info lastpause =
     Addr m @ [CHR 0x0A]
     @ (if Owned m
        then status_head ''keepalive:''
             @ status_row ''next:'' (sf_Time f (mi_NextKeepalive info) @ '' (in '' @ Duration_String (mi_NextKeepalive info - now) @ '')'')
             @ status_row ''reply times:'' (roundjoindur (mi_KeepaliveReplyTimes info))
        else [])
     @ status_head ''memory:''
     @ status_row ''total:'' (sf_Size f (us_Total (mi_System info)))
     @ status_row ''used:'' (sf_Size f (us_Used (mi_System info)))
     @ status_row ''(percent):'' (sf_F1 f (us_Percent (mi_System info)) @ ''%'')
     @ status_row ''available:'' (sf_Size f (us_Free (mi_System info)))
     @ status_row ''runtime:'' (sf_Size f (ms_Sys (mi_Runtime info)))
     @ status_row ''(alloc):'' (sf_Size f (ms_Alloc (mi_Runtime info)))
     @ status_head ''runtime:''
     @ status_row ''uptime:'' (Duration_String (now - startTime))
     @ status_row ''pausetime:'' (Duration_String (sint (word_of_nat (ms_PauseTotalNs (mi_Runtime info)) :: 64 word)))
     @ status_row ''(last):'' (Duration_String (sint (word_of_nat lastpause :: 64 word)))
     @ status_head ''disk:''
     @ status_row ''total:'' (sf_Size f (us_Total (mi_Disk info)))
     @ status_row ''available:'' (sf_Size f (us_Free (mi_Disk info)))
     @ status_row ''used:'' (sf_Size f (us_Used (mi_Disk info)))
     @ status_row ''(percent):'' (sf_F1 f (us_Percent (mi_Disk info)) @ ''%'')
     @ status_head (''load: '' @ (case mi_Load info of (l1, l5, l15) \<Rightarrow> sf_F1 f l1 @ '' '' @ sf_F1 f l5 @ '' '' @ sf_F1 f l15))"

text \<open>The index of the last pause in the circular buffer of 256 pauses, in 32-bit arithmetic.\<close>

definition lastpause_index :: "32 word \<Rightarrow> nat" where
  "lastpause_index numGC = unat ((numGC + 255) mod 256)"

definition status_section :: "'f sfmt \<Rightarrow> time \<Rightarrow> time \<Rightarrow> 'i machine \<Rightarrow> 'f machineInfo \<Rightarrow> string outcome" where
  "status_section f startTime now m info =
     (case mi_err info of
        Some e \<Rightarrow> Ok (Addr m @ '' : '' @ sf_Err f e @ [CHR 0x0A])
      | None \<Rightarrow>
          (let i = lastpause_index (ms_NumGC (mi_Runtime info))
           in if i < length (ms_PauseNs (mi_Runtime info)) then Ok (statusTemplate f startTime now m info (ms_PauseNs (mi_Runtime info) ! i))
              else Panic ''index out of range''))"

fun status_sections :: "'f sfmt \<Rightarrow> time \<Rightarrow> time \<Rightarrow> ('i machine \<times> 'f machineInfo) list \<Rightarrow> string outcome" where
  "status_sections f startTime now [] = Ok []"
| "status_sections f startTime now ((m, info) # ms) =
     bind_outcome (status_section f startTime now m info) (\<lambda>s.
       bind_outcome (status_sections f startTime now ms) (\<lambda>rest. Ok (s @ rest)))"

definition zero_info :: "'f \<Rightarrow> 'f machineInfo" where
  "zero_info z =
     \<lparr>mi_err = None, mi_System = \<lparr>us_Total = 0, us_Used = 0, us_Free = 0, us_Percent = z\<rparr>,
      mi_Runtime = \<lparr>ms_Sys = 0, ms_Alloc = 0, ms_PauseTotalNs = 0, ms_PauseNs = replicate 256 0, ms_NumGC = 0\<rparr>,
      mi_Disk = \<lparr>us_Total = 0, us_Used = 0, us_Free = 0, us_Percent = z\<rparr>, mi_Load = (z, z, z),
      mi_KeepaliveReplyTimes = [], mi_NextKeepalive = 0\<rparr>"

text \<open>\<open>writeStatus\<close>: \<open>ms\<close> are the machines of the session in any order, \<open>replies\<close> what they answer; \<open>order\<close> lists the indices of the machines
  asked in the order in which their answers are stored. The writer accepts all that is written.\<close>

definition status_infos :: "'f \<Rightarrow> (string \<Rightarrow> 'f inforeplies) \<Rightarrow> nat list \<Rightarrow> 'i machine list \<Rightarrow> 'f machineInfo list" where
  "status_infos z replies order ms =
     fold (\<lambda>i infos. infos[i := allInfo (replies (Addr (ms ! i))) (ms ! i)]) order
       (map (\<lambda>m. if state m \<noteq> Running then (zero_info z)\<lparr>mi_err := Some (Errorf ''machine state %s'' [Str (State_String (state m))])\<rparr>
                 else zero_info z) ms)"

definition writeStatus :: "'f sfmt \<Rightarrow> 'f \<Rightarrow> time \<Rightarrow> time \<Rightarrow> (string \<Rightarrow> 'f inforeplies) \<Rightarrow> nat list \<Rightarrow> 'i machine list \<Rightarrow> string outcome" where
  "writeStatus f z startTime now replies order ms =
     (let machines = sort_key Addr ms
      in bind_outcome (status_sections f startTime now (zip machines (status_infos z replies order machines))) (\<lambda>s. Ok (tabwriter s)))"

definition status_ServeHTTP :: "'f sfmt \<Rightarrow> 'f \<Rightarrow> time \<Rightarrow> time \<Rightarrow> (string \<Rightarrow> 'f inforeplies) \<Rightarrow> nat list \<Rightarrow> 'i machine list
    \<Rightarrow> (string \<times> string) outcome" where
  "status_ServeHTTP f z startTime now replies order ms =
     bind_outcome (writeStatus f z startTime now replies order ms) (\<lambda>s. Ok (''text/plain; charset=utf-8'', s))"

subsection \<open>Exported variables\<close>

text \<open>\<open>String\<close>: \<open>replies\<close> are the machines of the session with what \<open>Supervisor.Expvars\<close> returns for them, in the order in which the calls
  complete. \<open>quote\<close> and \<open>value\<close> are the encodings of a key and of the variables of a machine. The functions of the group return no error.\<close>

fun machine_vars :: "('i machine \<times> (err + expvars)) list \<Rightarrow> (string \<rightharpoonup> expvars) \<Rightarrow> (string \<rightharpoonup> expvars)" where
  "machine_vars [] vars = vars"
| "machine_vars ((m, r) # replies) vars =
     (if \<not> Owned m then machine_vars replies vars
      else case r of
             Inl e \<Rightarrow> machine_vars replies vars
           | Inr mvars \<Rightarrow> machine_vars replies (vars(Addr m \<mapsto> mvars)))"

text \<open>\<open>json.Marshal\<close> of a map: the keys in order; the first value that cannot be encoded fails it.\<close>

fun json_members :: "(string \<Rightarrow> string) \<Rightarrow> ('v \<Rightarrow> err + string) \<Rightarrow> (string \<times> 'v) list \<Rightarrow> err + string list" where
  "json_members quote value [] = Inr []"
| "json_members quote value ((k, v) # kvs) =
     (case value v of
        Inl e \<Rightarrow> Inl e
      | Inr s \<Rightarrow> (case json_members quote value kvs of Inl e \<Rightarrow> Inl e | Inr ss \<Rightarrow> Inr ((quote k @ '':'' @ s) # ss)))"

definition json_Marshal :: "(string \<Rightarrow> string) \<Rightarrow> ('v \<Rightarrow> err + string) \<Rightarrow> string list \<Rightarrow> (string \<rightharpoonup> 'v) \<Rightarrow> err + string" where
  "json_Marshal quote value keys m =
     (case json_members quote value (map (\<lambda>k. (k, the (m k))) (filter (\<lambda>k. m k \<noteq> None) (sort (remdups keys)))) of
        Inl e \<Rightarrow> Inl e
      | Inr ss \<Rightarrow> Inr (''{'' @ Join ss '','' @ ''}''))"

definition machineVars_String :: "(string \<Rightarrow> string) \<Rightarrow> (expvars \<Rightarrow> err + string) \<Rightarrow> ('i machine \<times> (err + expvars)) list \<Rightarrow> string" where
  "machineVars_String quote enc replies =
     (case json_Marshal quote enc (map (\<lambda>(m, r). Addr m) replies) (machine_vars replies Map.empty) of
        Inl e \<Rightarrow> [CHR 0x22] @ ''error'' @ [CHR 0x22]
      | Inr s \<Rightarrow> s)"

subsection \<open>The layout\<close>

lemma length_column_widths [simp]: "length (column_widths mw pad j ls) = length ls"
proof (induction mw pad j ls rule: column_widths.induct)
  case (2 mw pad j l ls)
  have "length (takeWhile (has_cell j) ls) + length (dropWhile (has_cell j) ls) = length ls"
    by (metis length_append takeWhile_dropWhile_id)
  with 2 show ?case by (simp add: Let_def)
qed simp

lemma fold_max_ge: "(x :: nat) \<le> fold max xs x" "y \<in> set xs \<Longrightarrow> y \<le> fold max xs x"
proof (induction xs arbitrary: x)
  case (Cons z xs)
  { case 1 show ?case using Cons.IH(1) [of "max z x"] by simp }
  { case 2 show ?case using 2 Cons.IH(1) [of "max z x"] Cons.IH(2) [of "max z x"] by auto }
qed simp_all

lemma block_width_ge:
  "minwidth \<le> block_width minwidth padding j ls"
  "l \<in> set ls \<Longrightarrow> length (l ! j) + padding \<le> block_width minwidth padding j ls"
  by (auto simp: block_width_def intro: fold_max_ge)

lemma column_widths_block:
  assumes "has_cell j l"
  shows "column_widths mw pad j (l # ls) ! i =
    (if i < length (l # takeWhile (has_cell j) ls) then block_width mw pad j (l # takeWhile (has_cell j) ls)
     else column_widths mw pad j (dropWhile (has_cell j) ls) ! (i - length (l # takeWhile (has_cell j) ls)))"
  using assms by (simp add: nth_append Let_def del: replicate.simps)

lemma column_widths_cover:
  "i < length ls \<Longrightarrow> has_cell j (ls ! i) \<Longrightarrow>
    mw \<le> column_widths mw pad j ls ! i \<and> length (ls ! i ! j) + pad \<le> column_widths mw pad j ls ! i"
proof (induction mw pad j ls arbitrary: i rule: column_widths.induct)
  case (2 mw pad j l ls)
  show ?case
  proof (cases "has_cell j l")
    case True
    let ?block = "l # takeWhile (has_cell j) ls"
    have split: "l # ls = ?block @ dropWhile (has_cell j) ls" by simp
    show ?thesis
    proof (cases "i < length ?block")
      case i: True
      then have "(l # ls) ! i \<in> set ?block" by (metis split nth_append nth_mem)
      then show ?thesis using block_width_ge i by (simp add: column_widths_block [OF True] del: column_widths.simps)
    next
      case i: False
      then have at_i: "(l # ls) ! i = dropWhile (has_cell j) ls ! (i - length ?block)" by (metis split nth_append)
      have "i - length ?block < length (dropWhile (has_cell j) ls)"
        using "2.prems"(1) i by (metis split length_append nat_add_left_cancel_less le_add_diff_inverse not_less)
      from "2.IH"(2) [OF _ _ this] show ?thesis using True "2.prems"(2) i at_i
        by (simp add: column_widths_block [OF True] del: column_widths.simps nth_Cons_Suc)
    qed
  next
    case False
    then show ?thesis using 2 by (cases i) auto
  qed
qed simp

lemma column_widths_adjacent:
  "Suc i < length ls \<Longrightarrow> has_cell j (ls ! i) \<Longrightarrow> has_cell j (ls ! Suc i) \<Longrightarrow>
    column_widths mw pad j ls ! Suc i = column_widths mw pad j ls ! i"
proof (induction mw pad j ls arbitrary: i rule: column_widths.induct)
  case (2 mw pad j l ls)
  show ?case
  proof (cases "has_cell j l")
    case True
    let ?block = "l # takeWhile (has_cell j) ls"
    have split: "l # ls = ?block @ dropWhile (has_cell j) ls" by simp
    have total: "length ?block + length (dropWhile (has_cell j) ls) = length (l # ls)" by (metis split length_append)
    consider "Suc i < length ?block" | "Suc i = length ?block" | "i \<ge> length ?block" by linarith
    then show ?thesis
    proof cases
      case 1
      then show ?thesis by (simp add: column_widths_block [OF True] del: column_widths.simps)
    next
      case 2
      then have "(l # ls) ! Suc i = dropWhile (has_cell j) ls ! 0" by (metis split nth_append diff_self_eq_0 less_irrefl)
      moreover have "dropWhile (has_cell j) ls \<noteq> []" using "2.prems"(1) 2 total by (metis add.right_neutral less_irrefl list.size(3))
      ultimately show ?thesis using "2.prems"(3) hd_dropWhile [of "has_cell j" ls] by (simp add: hd_conv_nth del: nth_Cons_Suc)
    next
      case 3
      then have at_i: "(l # ls) ! i = dropWhile (has_cell j) ls ! (i - length ?block)"
        "(l # ls) ! Suc i = dropWhile (has_cell j) ls ! Suc (i - length ?block)"
        by (metis split nth_append not_less) (metis split nth_append not_less Suc_diff_le le_SucI 3)
      have "Suc (i - length ?block) < length (dropWhile (has_cell j) ls)" using "2.prems"(1) 3 total by linarith
      from "2.IH"(2) [OF _ _ this] have "column_widths mw pad j (dropWhile (has_cell j) ls) ! Suc (i - length ?block)
          = column_widths mw pad j (dropWhile (has_cell j) ls) ! (i - length ?block)"
        using True "2.prems"(2,3) at_i by simp
      moreover have "Suc i - length ?block = Suc (i - length ?block)" using 3 by (rule Suc_diff_le)
      moreover have "\<not> Suc i < length ?block" "\<not> i < length ?block" using 3 by simp_all
      ultimately show ?thesis by (simp only: column_widths_block [OF True] if_False)
    qed
  next
    case False
    then show ?thesis using 2 by (cases i) auto
  qed
qed simp

text \<open>The columns of the status page are aligned: lines that follow each other and have a cell in a column get the same width there,
  and the width leaves the padding after each cell and is never below the least width.\<close>

theorem status_columns_aligned:
  assumes "Suc i < length ls" "has_cell j (ls ! i)" "has_cell j (ls ! Suc i)"
  shows "\<exists>w. column_widths mw pad j ls ! i = w \<and> column_widths mw pad j ls ! Suc i = w \<and> mw \<le> w \<and>
    length (ls ! i ! j) + pad \<le> w \<and> length (ls ! Suc i ! j) + pad \<le> w"
proof -
  have "column_widths mw pad j ls ! Suc i = column_widths mw pad j ls ! i" by (rule column_widths_adjacent [OF assms])
  then show ?thesis using column_widths_cover [of i ls j mw pad] column_widths_cover [of "Suc i" ls j mw pad] assms by simp
qed

theorem status_columns_aligned_witness:
  "\<exists>w. column_widths 4 1 1 [[[], ''total:'', ''1''], [[], ''used:'', ''2'']] ! 0 = w \<and> w \<ge> 7"
  using status_columns_aligned [of 0 "[[[], ''total:'', ''1''], [[], ''used:'', ''2'']]" 1 4 1] by (auto simp: has_cell_def)

definition blank :: "char \<Rightarrow> bool" where "blank c \<longleftrightarrow> c = CHR 0x09 \<or> c = CHR '' ''"

lemma filter_layout_line: "filter (\<lambda>c. \<not> blank c) (layout_line w l) = filter (\<lambda>c. \<not> blank c) (concat l)"
proof -
  have "filter (\<lambda>c. \<not> blank c) (layout_line w l) = concat (map (\<lambda>j. filter (\<lambda>c. \<not> blank c) (l ! j)) [0..<length l])"
    unfolding layout_line_def filter_concat map_map by (intro arg_cong [of _ _ concat] map_cong) (auto simp: pad_cell_def blank_def)
  also have "\<dots> = filter (\<lambda>c. \<not> blank c) (concat l)"
    unfolding filter_concat by (rule arg_cong [of _ _ concat], rule nth_equalityI) simp_all
  finally show ?thesis .
qed

lemma set_layout_line: "set (layout_line w l) \<subseteq> {CHR '' ''} \<union> \<Union> (set ` set l)"
  by (fastforce simp: layout_line_def pad_cell_def)

lemma Split_elems: "x \<in> set (Split s c) \<Longrightarrow> c \<notin> set x \<and> set x \<subseteq> set s"
proof (induction s arbitrary: x)
  case (Cons d s)
  then show ?case by (cases "Split s c") (auto split: if_splits, fastforce+)
qed simp

lemma Split_Join: "xs \<noteq> [] \<Longrightarrow> \<forall>x \<in> set xs. c \<notin> set x \<Longrightarrow> Split (Join xs [c]) c = xs"
proof (induction xs "[c]" rule: Join.induct)
  case (2 x)
  have "c \<notin> set y \<Longrightarrow> Split y c = [y]" for y by (induction y) auto
  then show ?case using 2 by simp
next
  case (3 x y xs)
  have "c \<notin> set a \<Longrightarrow> Split (a @ c # b) c = a # Split b c" for a b by (induction a) auto
  then show ?case using 3 by simp
qed simp

lemma filter_concat_Split: "P c \<Longrightarrow> filter (\<lambda>d. \<not> P d) (concat (Split s c)) = filter (\<lambda>d. \<not> P d) s"
  by (induction s) (auto split: list.splits)

lemma tab_layout_elem: "x \<in> set (tab_layout mw pad ls) \<Longrightarrow> \<exists>w i. x = layout_line w (ls ! i) \<and> i < length ls"
  unfolding tab_layout_def by (auto, blast)

text \<open>The layout of the status page only moves text: the page has the lines that were written, each with the same characters up to
  blanks, and no tabs.\<close>

theorem tabwriter_keeps_text:
  "map (filter (\<lambda>c. \<not> blank c)) (Split (tabwriter s) CHR 0x0A) = map (filter (\<lambda>c. \<not> blank c)) (Split s CHR 0x0A) \<and>
   CHR 0x09 \<notin> set (tabwriter s)"
proof -
  let ?ls = "map (\<lambda>l. Split l CHR 0x09) (Split s CHR 0x0A)"
  have chars: "c = CHR '' '' \<or> c \<noteq> CHR 0x09 \<and> c \<noteq> CHR 0x0A" if x: "x \<in> set (tab_layout 4 1 ?ls)" and c: "c \<in> set x" for x c
  proof -
    obtain w i where "x = layout_line w (?ls ! i)" "i < length ?ls" using tab_layout_elem [OF x] by blast
    then have i: "i < length (Split s CHR 0x0A)" and "c \<in> {CHR '' ''} \<union> \<Union> (set ` set (Split (Split s CHR 0x0A ! i) CHR 0x09))"
      using set_layout_line [of w "?ls ! i"] c by auto
    then show ?thesis using Split_elems [of _ "Split s CHR 0x0A ! i" "CHR 0x09"] Split_elems [OF nth_mem [OF i]] by blast
  qed
  have tab: "blank CHR 0x09" by (simp add: blank_def)
  have sp: "Split (tabwriter s) CHR 0x0A = tab_layout 4 1 ?ls"
    unfolding tabwriter_def by (rule Split_Join) (use chars in \<open>fastforce simp: tab_layout_def\<close>)+
  have "map (filter (\<lambda>c. \<not> blank c)) (tab_layout 4 1 ?ls) = map (filter (\<lambda>c. \<not> blank c)) (Split s CHR 0x0A)"
    by (rule nth_equalityI) (simp_all add: tab_layout_def filter_layout_line filter_concat_Split [of blank, OF tab])
  moreover have "CHR 0x09 \<notin> set (Join xs [CHR 0x0A])" if "\<forall>x \<in> set xs. CHR 0x09 \<notin> set x" for xs
    using that by (induction xs "[CHR 0x0A]" rule: Join.induct) auto
  ultimately show ?thesis using sp chars by (auto simp: tabwriter_def)
qed

subsection \<open>The page\<close>

lemma lastpause_index_eq: "lastpause_index n = (unat n + 255) mod 256"
proof -
  have "unat ((n + 255) mod 256) = unat (n + 255) mod 256" by (simp add: unat_mod)
  also have "\<dots> = (unat n + 255) mod 2 ^ 32 mod 256" by (simp add: unat_word_ariths)
  also have "\<dots> = (unat n + 255) mod 256" by (rule mod_mod_cancel) simp
  finally show ?thesis by (simp add: lastpause_index_def)
qed

text \<open>What a machine contributes to the page.\<close>

definition machine_text :: "'f sfmt \<Rightarrow> time \<Rightarrow> time \<Rightarrow> 'f inforeplies \<Rightarrow> 'i machine \<Rightarrow> string" where
  "machine_text f startTime now r m =
     (let failed = (\<lambda>e. Addr m @ '' : '' @ sf_Err f e @ [CHR 0x0A]); rt = snd (snd (ir_Mem r))
      in if state m \<noteq> Running then failed (Errorf ''machine state %s'' [Str (State_String (state m))])
         else case errgroup_Wait (map (info_err r) (ir_order r)) of
                Some e \<Rightarrow> failed e
              | None \<Rightarrow> statusTemplate f startTime now m (allInfo r m) (ms_PauseNs rt ! ((unat (ms_NumGC rt) + 255) mod 256)))"

lemma fold_update_nth:
  "distinct is \<Longrightarrow> j < length xs \<Longrightarrow> fold (\<lambda>i xs. xs[i := g i]) is xs ! j = (if j \<in> set is then g j else xs ! j)"
  by (induction "is" arbitrary: xs) (auto simp: nth_list_update)

lemma length_fold_update [simp]: "length (fold (\<lambda>i xs. xs[i := g i]) is xs) = length xs"
  by (induction "is" arbitrary: xs) auto

lemma status_sections_Ok:
  "(\<And>m info. (m, info) \<in> set mis \<Longrightarrow> status_section f st now m info = Ok (t m)) \<Longrightarrow>
    status_sections f st now mis = Ok (concat (map (\<lambda>(m, info). t m) mis))"
  by (induction mis) auto

text \<open>C34. The status page does not depend on the order in which the machines answer: it is the layout of one section for each machine of the
  session, in the order of the addresses, and a machine that is not running or does not answer changes no section but its own. The
  entry shown as the last pause is the one before position \<open>NumGC\<close> in the circular buffer.\<close>

theorem writeStatus_sections:
  assumes "distinct order" "set order = {i. i < length ms \<and> state (sort_key Addr ms ! i) = Running}"
    and "\<forall>m \<in> set ms. length (ms_PauseNs (snd (snd (ir_Mem (replies (Addr m)))))) = 256"
  shows "writeStatus f z startTime now replies order ms =
    Ok (tabwriter (concat (map (\<lambda>m. machine_text f startTime now (replies (Addr m)) m) (sort_key Addr ms))))"
proof -
  let ?ms = "sort_key Addr ms"
  let ?infos = "status_infos z replies order ?ms"
  have "status_section f startTime now m info = Ok (machine_text f startTime now (replies (Addr m)) m)"
    if mi: "(m, info) \<in> set (zip ?ms ?infos)" for m info
  proof -
    obtain i where i: "i < length ms" "m = ?ms ! i" "info = ?infos ! i" using mi by (auto simp: set_zip status_infos_def)
    then have m: "m \<in> set ms" by (metis length_sort nth_mem set_sort)
    show ?thesis
    proof (cases "state m = Running")
      case True
      then have "info = allInfo (replies (Addr m)) m" using i assms(1,2) by (simp add: status_infos_def fold_update_nth)
      then show ?thesis using True assms(3) m
        by (auto simp: status_section_def machine_text_def allInfo_def Let_def lastpause_index_eq split: option.splits)
    next
      case False
      then have "info = (zero_info z)\<lparr>mi_err := Some (Errorf ''machine state %s'' [Str (State_String (state m))])\<rparr>"
        using i assms(1,2) by (simp add: status_infos_def fold_update_nth)
      then show ?thesis using False by (simp add: status_section_def machine_text_def Let_def)
    qed
  qed
  from status_sections_Ok [OF this] have "status_sections f startTime now (zip ?ms ?infos) =
      Ok (concat (map (\<lambda>(m, info). machine_text f startTime now (replies (Addr m)) m) (zip ?ms ?infos)))" by simp
  moreover have "map (\<lambda>(m, info). machine_text f startTime now (replies (Addr m)) m) (zip ?ms ?infos) =
      map (\<lambda>m. machine_text f startTime now (replies (Addr m)) m) (map fst (zip ?ms ?infos))" by auto
  ultimately show ?thesis by (simp add: writeStatus_def status_infos_def)
qed

definition demo_sfmt :: "int sfmt" where
  "demo_sfmt = \<lparr>sf_Size = show_nat, sf_Time = show_int, sf_F1 = show_int, sf_Err = (\<lambda>e. ''failed'')\<rparr>"

definition demo_replies :: "string \<Rightarrow> int inforeplies" where
  "demo_replies a =
     \<lparr>ir_Mem = (None, mi_System (zero_info 0), mi_Runtime (zero_info (0 :: int))), ir_Disk = (None, mi_Disk (zero_info 0)), ir_Load = (None, 0, 0, 0),
      ir_order = [CallDisk, CallMem, CallLoad]\<rparr>"

definition demo_machines :: "unit machine list" where
  "demo_machines = [(new_machine ''b'')\<lparr>state := Stopped\<rparr>, (new_machine ''a'')\<lparr>state := Running\<rparr>]"

theorem writeStatus_sections_witness:
  "writeStatus demo_sfmt 0 0 5 demo_replies [0] demo_machines =
    Ok (tabwriter (concat (map (\<lambda>m. machine_text demo_sfmt 0 5 (demo_replies (Addr m)) m) (sort_key Addr demo_machines))))"
proof (rule writeStatus_sections)
  have s: "sort_key Addr demo_machines = [demo_machines ! 1, demo_machines ! 0]" unfolding demo_machines_def by code_simp
  show "set [0] = {i. i < length demo_machines \<and> state (sort_key Addr demo_machines ! i) = Running}"
    unfolding s by (auto simp: demo_machines_def less_Suc_eq)
qed (simp_all add: demo_machines_def demo_replies_def zero_info_def)

text \<open>Reply times are shown to the millisecond: rounding is towards zero and by less than a millisecond.\<close>

theorem rounddur_bounds:
  "Millisecond dvd rounddur d \<and> \<bar>rounddur d\<bar> \<le> \<bar>d\<bar> \<and> \<bar>d\<bar> - \<bar>rounddur d\<bar> < Millisecond \<and> (rounddur d = 0 \<or> sgn (rounddur d) = sgn d)"
proof -
  have p: "Millisecond > 0" by (simp add: duration_defs)
  have r: "0 \<le> \<bar>d\<bar> mod Millisecond" "\<bar>d\<bar> mod Millisecond < Millisecond" "\<bar>d\<bar> mod Millisecond \<le> \<bar>d\<bar>" using p by (simp_all add: zmod_le_nonneg_dividend)
  have dv: "Millisecond dvd \<bar>d\<bar> - \<bar>d\<bar> mod Millisecond" by (rule dvd_minus_mod)
  obtain q where q: "q = \<bar>d\<bar> - \<bar>d\<bar> mod Millisecond" "0 \<le> q" "q \<le> \<bar>d\<bar>" "\<bar>d\<bar> - q < Millisecond" "Millisecond dvd q" using r dv by simp
  have "rounddur d = sgn d * q" by (simp add: q(1) rounddur_def right_diff_distrib mult.commute [of "sgn d"] abs_mult_sgn)
  then have "rounddur d = (if d < 0 then - q else q)" using q(2,3) by (auto simp: sgn_if)
  then show ?thesis using q(2-5) by (auto simp: sgn_if)
qed

subsection \<open>The variables\<close>

lemma machine_vars_absent: "a \<notin> (\<lambda>(m, r). Addr m) ` set replies \<Longrightarrow> machine_vars replies vars a = vars a"
  by (induction replies vars rule: machine_vars.induct) (auto split: sum.splits)

lemma machine_vars_iff:
  "distinct (map (\<lambda>(m, r). Addr m) replies) \<Longrightarrow> vars a = None \<Longrightarrow>
   machine_vars replies vars a = Some v \<longleftrightarrow> (\<exists>m. (m, Inr v) \<in> set replies \<and> Owned m \<and> Addr m = a)"
proof (induction replies arbitrary: vars)
  case (Cons x replies)
  obtain m r where x: "x = (m, r)" by fastforce
  show ?case
  proof (cases "Addr m = a")
    case True
    then have gone: "a \<notin> (\<lambda>(m, r). Addr m) ` set replies" using Cons.prems(1) x by auto
    then have "\<not> (\<exists>m'. (m', Inr v) \<in> set replies \<and> Owned m' \<and> Addr m' = a)" by force
    then show ?thesis using True Cons.prems(2) machine_vars_absent [OF gone] x by (auto split: sum.splits)
  next
    case False
    have "machine_vars replies vars' a = Some v \<longleftrightarrow> (\<exists>m. (m, Inr v) \<in> set replies \<and> Owned m \<and> Addr m = a)"
      if "vars' a = None" for vars'
      using Cons.IH [of vars'] Cons.prems(1) x that by simp
    moreover have "(vars(Addr m \<mapsto> mv)) a = None" for mv using False Cons.prems(2) by simp
    ultimately show ?thesis using False Cons.prems(2) x by (auto split: sum.splits)
  qed
qed simp

lemma machine_vars_perm:
  assumes "distinct (map (\<lambda>(m, r). Addr m) replies)" "distinct (map (\<lambda>(m, r). Addr m) replies')" "set replies = set replies'"
  shows "machine_vars replies Map.empty = machine_vars replies' Map.empty"
proof
  fix a
  show "machine_vars replies Map.empty a = machine_vars replies' Map.empty a"
    using machine_vars_iff [OF assms(1), of Map.empty a] machine_vars_iff [OF assms(2), of Map.empty a] assms(3)
    by (metis option.exhaust)
qed

text \<open>C35. The exported variables of the cluster do not depend on the order in which the machines answer, and hold those of exactly the
  owned machines that did: an entry of a machine that was only dialed, which may export the variables of this process in turn, never
  appears.\<close>

theorem machineVars_order:
  assumes "distinct (map (\<lambda>(m, r). Addr m) replies)" "distinct (map (\<lambda>(m, r). Addr m) replies')" "set replies = set replies'"
  shows "machineVars_String quote enc replies = machineVars_String quote enc replies' \<and>
    (machine_vars replies Map.empty a = Some v \<longleftrightarrow> (\<exists>m. (m, Inr v) \<in> set replies \<and> Owned m \<and> Addr m = a))"
proof -
  have "set (map (\<lambda>(m, r). Addr m) replies) = set (map (\<lambda>(m, r). Addr m) replies')" using assms(3) by simp
  then have "sort (remdups (map (\<lambda>(m, r). Addr m) replies)) = sort (remdups (map (\<lambda>(m, r). Addr m) replies'))"
    by (metis sorted_list_of_set_sort_remdups)
  then show ?thesis using machine_vars_perm [OF assms] machine_vars_iff [OF assms(1), of Map.empty a v]
    by (simp add: machineVars_String_def json_Marshal_def)
qed

theorem machineVars_order_witness:
  "machineVars_String id (\<lambda>e. Inr ''1'') [((new_machine ''b'' :: unit machine)\<lparr>owner := True\<rparr>, Inr []), ((new_machine ''a'')\<lparr>owner := True\<rparr>, Inr [])] =
   machineVars_String id (\<lambda>e. Inr ''1'') [((new_machine ''a'')\<lparr>owner := True\<rparr>, Inr []), ((new_machine ''b'' :: unit machine)\<lparr>owner := True\<rparr>, Inr [])]"
  using machineVars_order [of "[((new_machine ''b'' :: unit machine)\<lparr>owner := True\<rparr>, Inr []), ((new_machine ''a'')\<lparr>owner := True\<rparr>, Inr [])]"
    "[((new_machine ''a'')\<lparr>owner := True\<rparr>, Inr []), ((new_machine ''b'' :: unit machine)\<lparr>owner := True\<rparr>, Inr [])]" id "\<lambda>e. Inr ''1''"]
  by (auto simp: new_machine_def)

end
