(* ===== verification/Programs.thy ===== *)
theory Programs
  imports Ec2_Config Diagnostics "HOL-Library.Multiset"
begin

text \<open>
  Programs on top of the library: the choice of a system by flags (\<open>driver/driver.go\<close>) and the example that estimates pi
  (\<open>cmd/bigpi/bigpi.go\<close>), with its division of the samples in 64-bit arithmetic. Random points, and whether the floating-point test puts
  one inside the circle, are parameters.
\<close>

subsection \<open>The driver\<close>

datatype ('k, 'c, 'p) chosen = ChooseLocal | ChooseEC2 "('k, 'c, 'p) ec2sys" | ChooseFatal string

definition driver_system :: "string \<Rightarrow> string \<Rightarrow> bool \<Rightarrow> ('k, 'c, 'p) chosen" where
  "driver_system systemFlag instanceType ondemand =
     (if systemFlag = ''ec2'' then ChooseEC2 (new_ec2sys\<lparr>InstanceType := instanceType, OnDemand := ondemand\<rparr>)
      else if systemFlag = ''local'' then ChooseLocal
      else ChooseFatal (''unrecognized system '' @ systemFlag))"

text \<open>\<open>Start\<close>: the session of the chosen system, and what \<open>HandleDebug\<close> adds to the default multiplexer when it returns. \<open>init_err\<close> is what
  initializing a system gives.\<close>

definition driver_Start :: "string \<Rightarrow> string \<Rightarrow> bool \<Rightarrow> string \<Rightarrow> (('k, 'c, 'p) chosen \<Rightarrow> err option) \<Rightarrow> ('v, 'w) rmethod list \<Rightarrow> int
    \<Rightarrow> ('i, 'v, 'w) run_result \<times> (string \<times> string) list" where
  "driver_Start systemFlag instanceType ondemand mode init_err supm nextBIndex =
     (case driver_system systemFlag instanceType ondemand of
        ChooseFatal s \<Rightarrow> (RFatal s None, [])
      | sys \<Rightarrow>
          (case bigmachine_Start mode (init_err sys) supm [] nextBIndex of
             (RDriver b, n) \<Rightarrow> (RDriver b, HandleDebug)
           | (r, n) \<Rightarrow> (r, [])))"

subsection \<open>Estimating pi\<close>

text \<open>\<open>Sample\<close> draws \<open>n\<close> points; \<open>inside i\<close> tells whether point \<open>i\<close> is counted.\<close>

fun Sample_from :: "(nat \<Rightarrow> bool) \<Rightarrow> nat \<Rightarrow> nat \<Rightarrow> 64 word \<Rightarrow> 64 word" where
  "Sample_from inside i 0 m = m"
| "Sample_from inside i (Suc n) m = Sample_from inside (Suc i) n (if inside i then m + 1 else m)"

definition Sample :: "(nat \<Rightarrow> bool) \<Rightarrow> 64 word \<Rightarrow> 64 word \<Rightarrow> 64 word" where
  "Sample inside n m = Sample_from inside 0 (unat n) m"

text \<open>A machine once its channel is signalled: its processors, its error, and what \<open>PI.Sample\<close> returns to each of them.\<close>

record pimach =
  pi_Maxprocs :: int
  pi_Err :: "err option"
  pi_Sample :: "nat \<Rightarrow> 64 word \<Rightarrow> err + 64 word"

datatype pi_result = PiFatal err | PiPanic string | PiEstimate "64 word" rat

definition numPerMachine :: "int \<Rightarrow> int \<Rightarrow> 64 word outcome" where
  "numPerMachine nsamples nmachine =
     (if (word_of_int nmachine :: 64 word) = 0 then Panic ''integer divide by zero''
      else Ok (word_of_int nsamples div word_of_int nmachine))"

definition core_samples :: "64 word \<Rightarrow> pimach \<Rightarrow> 64 word" where
  "core_samples npm m = npm div word_of_int (pi_Maxprocs m)"

definition pi_calls :: "64 word \<Rightarrow> pimach list \<Rightarrow> (err + 64 word) list" where
  "pi_calls npm ms = concat (map (\<lambda>m. map (\<lambda>i. pi_Sample m i (core_samples npm m)) [0..<nat (pi_Maxprocs m)]) ms)"

definition pi_counts :: "(err + 64 word) list \<Rightarrow> 64 word" where
  "pi_counts rs = fold (\<lambda>r total. case r of Inl e \<Rightarrow> total | Inr cnt \<Rightarrow> total + cnt) rs 0"

text \<open>\<open>main\<close>: \<open>ms_started\<close> is what \<open>B.Start\<close> returns, \<open>order\<close> the order in which the calls complete.\<close>

definition bigpi_main :: "int \<Rightarrow> int \<Rightarrow> err + pimach list \<Rightarrow> nat list \<Rightarrow> pi_result" where
  "bigpi_main nsamples nmachine ms_started order =
     (case ms_started of
        Inl e \<Rightarrow> PiFatal e
      | Inr ms \<Rightarrow>
          (case List.find (\<lambda>m. pi_Err m \<noteq> None) ms of
             Some m \<Rightarrow> PiFatal (the (pi_Err m))
           | None \<Rightarrow>
               (case numPerMachine nsamples nmachine of
                  Panic s \<Rightarrow> PiPanic s
                | Ok npm \<Rightarrow>
                    (let calls = pi_calls npm ms; compl = map (\<lambda>k. calls ! k) order
                     in case errgroup_Wait (map (\<lambda>r. case r of Inl e \<Rightarrow> Some e | Inr c \<Rightarrow> None) compl) of
                          Some e \<Rightarrow> PiFatal e
                        | None \<Rightarrow>
                            if nsamples = 0 then PiPanic ''division by zero''
                            else (let total = pi_counts compl in PiEstimate total (of_int (sint (4 * total)) / of_int nsamples))))))"

subsection \<open>Lemmas\<close>

lemma Sample_from_le: "unat m + n < 2 ^ 64 \<Longrightarrow> unat (Sample_from inside i n m) \<le> unat m + n"
proof (induction n arbitrary: i m)
  case (Suc n)
  have "unat (m + 1) = unat m + 1" using Suc.prems by (simp add: unat_word_ariths)
  then show ?case using Suc.IH [of m "Suc i"] Suc.IH [of "m + 1" "Suc i"] Suc.prems by (cases "inside i") auto
qed simp

lemma Sample_le: "unat (Sample inside n 0) \<le> unat n"
  using Sample_from_le [of 0 "unat n" inside 0] unsigned_less [of n] by (simp add: Sample_def)

text \<open>The number of points the cores of a machine are asked for.\<close>

definition drawn :: "nat \<Rightarrow> pimach list \<Rightarrow> nat" where
  "drawn npm ms = (\<Sum>m\<leftarrow>ms. nat (pi_Maxprocs m) * (npm div nat (pi_Maxprocs m)))"

lemma drawn_le: "drawn npm ms \<le> length ms * npm"
proof (induction ms)
  case (Cons m ms)
  have "nat (pi_Maxprocs m) * (npm div nat (pi_Maxprocs m)) \<le> npm" by simp
  with Cons show ?case by (simp add: drawn_def add_mono)
qed (simp add: drawn_def)

lemma drawn_ge: "\<forall>m \<in> set ms. pi_Maxprocs m > 0 \<Longrightarrow> length ms * npm \<le> drawn npm ms + (\<Sum>m\<leftarrow>ms. nat (pi_Maxprocs m))"
proof (induction ms)
  case (Cons m ms)
  let ?k = "nat (pi_Maxprocs m)"
  have "npm mod ?k < ?k" using Cons.prems by simp
  moreover have "npm = ?k * (npm div ?k) + npm mod ?k" by simp
  ultimately have "npm \<le> ?k * (npm div ?k) + ?k" by linarith
  with Cons show ?case by (simp add: drawn_def)
qed simp

text \<open>The example asks its machines for at most the number of samples wanted, and falls short of it by less than the number of
  machines and processors; both divisions discard their remainder.\<close>

theorem bigpi_distribution:
  assumes "0 \<le> nsamples" "nsamples < 2 ^ 63" "0 < nmachine" "nmachine < 2 ^ 63"
    and "int (length ms) = nmachine" "\<forall>m \<in> set ms. pi_Maxprocs m > 0"
  shows "\<exists>npm. numPerMachine nsamples nmachine = Ok npm \<and> int (drawn (unat npm) ms) \<le> nsamples \<and>
    nsamples < int (drawn (unat npm) ms) + nmachine + (\<Sum>m\<leftarrow>ms. pi_Maxprocs m)"
proof -
  obtain a b where ab: "nsamples = int a" "nmachine = int b" "a < 2 ^ 63" "b < 2 ^ 63" "b > 0"
    using assms(1-4) by (metis nonneg_int_cases less_le of_nat_0_less_iff of_nat_less_numeral_power_cancel_iff)
  define npm :: "64 word" where "npm = word_of_nat a div word_of_nat b"
  have u: "unat npm = a div b" using ab(3,4) by (simp add: npm_def unat_div unat_of_nat)
  have "numPerMachine nsamples nmachine = Ok npm"
    using ab by (simp add: numPerMachine_def npm_def word_of_nat_eq_0_iff nat_dvd_not_less)
  moreover have "drawn (a div b) ms \<le> b * (a div b)" "b * (a div b) \<le> a" using drawn_le [of "a div b" ms] assms(5) ab(2) by simp_all
  moreover have "b * (a div b) \<le> drawn (a div b) ms + (\<Sum>m\<leftarrow>ms. nat (pi_Maxprocs m))" using drawn_ge [OF assms(6), of "a div b"] assms(5) ab(2) by simp
  moreover have "a < b * (a div b) + b" using ab(5) by (metis add.commute dividend_less_times_div)
  moreover have "int (\<Sum>m\<leftarrow>ms. nat (pi_Maxprocs m)) = (\<Sum>m\<leftarrow>ms. pi_Maxprocs m)" using assms(6) by (induction ms) auto
  ultimately show ?thesis unfolding u [symmetric] ab(1,2) by (intro exI [of _ npm]) linarith
qed

definition demo_pimach :: pimach where
  "demo_pimach = \<lparr>pi_Maxprocs = 4, pi_Err = None, pi_Sample = (\<lambda>i n. Inr (Sample even n 0))\<rparr>"

theorem bigpi_distribution_witness:
  "\<exists>npm. numPerMachine 1000 3 = Ok npm \<and> int (drawn (unat npm) [demo_pimach, demo_pimach, demo_pimach]) \<le> 1000 \<and>
    1000 < int (drawn (unat npm) [demo_pimach, demo_pimach, demo_pimach]) + 3 + 12"
  using bigpi_distribution [of 1000 3 "[demo_pimach, demo_pimach, demo_pimach]"] by (simp add: demo_pimach_def)

lemma pi_counts_sum:
  assumes "\<forall>r \<in> set rs. \<exists>c. r = Inr c" "unat t + (\<Sum>r\<leftarrow>rs. unat (projr r)) < 2 ^ 64"
  shows "unat (fold (\<lambda>r total. case r of Inl e \<Rightarrow> total | Inr cnt \<Rightarrow> total + cnt) rs t) = unat t + (\<Sum>r\<leftarrow>rs. unat (projr r :: 64 word))"
  using assms
proof (induction rs arbitrary: t)
  case (Cons r rs)
  obtain c where c: "r = Inr c" using Cons.prems(1) by auto
  have "unat (t + c) = unat t + unat c" using Cons.prems(2) c by (simp add: unat_word_ariths)
  then show ?case using Cons.IH [of "t + c"] Cons.prems c by (simp add: add.assoc)
qed simp

definition honest :: "pimach \<Rightarrow> bool" where
  "honest m \<longleftrightarrow> pi_Err m = None \<and> 0 < pi_Maxprocs m \<and> pi_Maxprocs m < 2 ^ 63 \<and>
     (\<exists>inside. \<forall>i n. pi_Sample m i n = Inr (Sample (inside i) n 0))"

lemma core_samples_unat: "honest m \<Longrightarrow> unat (core_samples npm m) = unat npm div nat (pi_Maxprocs m)"
proof -
  assume m: "honest m"
  then have "unat (word_of_int (pi_Maxprocs m) :: 64 word) = nat (pi_Maxprocs m)"
    by (simp add: honest_def unsigned_of_int take_bit_int_eq_self)
  then show ?thesis by (simp add: core_samples_def unat_div)
qed

lemma pi_calls_bound:
  "\<forall>m \<in> set ms. honest m \<Longrightarrow>
    (\<forall>r \<in> set (pi_calls npm ms). \<exists>c. r = Inr c) \<and> (\<Sum>r\<leftarrow>pi_calls npm ms. unat (projr r)) \<le> drawn (unat npm) ms"
proof (induction ms)
  case (Cons m ms)
  then obtain inside where i: "\<And>i n. pi_Sample m i n = Inr (Sample (inside i) n 0)" by (auto simp: honest_def)
  have "(\<Sum>k\<leftarrow>[0..<nat (pi_Maxprocs m)]. unat (Sample (inside k) (core_samples npm m) 0)) \<le> (\<Sum>k\<leftarrow>[0..<nat (pi_Maxprocs m)]. unat (core_samples npm m))"
    by (rule sum_list_mono) (rule Sample_le)
  also have "\<dots> = nat (pi_Maxprocs m) * (unat npm div nat (pi_Maxprocs m))" using Cons.prems by (simp add: sum_list_triv core_samples_unat)
  finally show ?case using Cons by (auto simp: pi_calls_def drawn_def i comp_def)
qed (simp add: pi_calls_def drawn_def)

lemma sum_list_mset: "mset xs = mset ys \<Longrightarrow> (\<Sum>x\<leftarrow>xs. f x) = (\<Sum>y\<leftarrow>ys. f y :: nat)"
  by (simp only: sum_mset_sum_list [symmetric] mset_map)

lemma sint_four:
  assumes "unat (w :: 64 word) < 2 ^ 61"
  shows "sint (4 * w) = 4 * int (unat w)"
proof -
  have "4 * w = word_of_int (4 * int (unat w))" by simp
  then have "sint (4 * w) = (4 * int (unat w) + 2 ^ 63) mod 2 ^ 64 - 2 ^ 63"
    by (simp only: int_word_sint) simp
  moreover have "int (unat w) < 2 ^ 61" using assms by (metis of_nat_less_iff of_nat_numeral of_nat_power)
  then have "0 \<le> 4 * int (unat w) + 2 ^ 63" "4 * int (unat w) + 2 ^ 63 < (2 :: int) ^ 64" by simp_all
  then have "(4 * int (unat w) + 2 ^ 63) mod 2 ^ 64 = 4 * int (unat w) + 2 ^ 63"
    by (rule mod_pos_pos_trivial)
  ultimately show ?thesis by linarith
qed

lemma errgroup_Wait_None: "\<forall>r \<in> set rs. r = None \<Longrightarrow> errgroup_Wait rs = None"
  by (induction rs rule: errgroup_Wait.induct) auto

text \<open>On machines that came up and count honestly the example prints an estimate between 0 and 4, in whichever order the cores
  answer: the counts never exceed the number of samples, so no sum wraps around.\<close>

theorem bigpi_estimate:
  assumes "0 < nsamples" "nsamples < 2 ^ 61" "0 < nmachine" "nmachine < 2 ^ 63" "int (length ms) \<le> nmachine"
    and "\<forall>m \<in> set ms. honest m" "\<And>npm. numPerMachine nsamples nmachine = Ok npm \<Longrightarrow> mset order = mset [0..<length (pi_calls npm ms)]"
  shows "\<exists>total est. bigpi_main nsamples nmachine (Inr ms) order = PiEstimate total est \<and> 0 \<le> est \<and> est \<le> 4"
proof -
  obtain a b where ab: "nsamples = int a" "nmachine = int b" "a < 2 ^ 61" "b < 2 ^ 63" "b > 0" "a > 0"
    using assms(1-4) by (metis nonneg_int_cases less_le of_nat_0_less_iff of_nat_less_numeral_power_cancel_iff)
  define npm :: "64 word" where "npm = word_of_nat a div word_of_nat b"
  have u: "unat npm = a div b" using ab(3,4) by (simp add: npm_def unat_div unat_of_nat)
  have n: "numPerMachine nsamples nmachine = Ok npm"
    using ab by (simp add: numPerMachine_def npm_def word_of_nat_eq_0_iff nat_dvd_not_less)
  let ?calls = "pi_calls npm ms"
  let ?done = "map (\<lambda>k. ?calls ! k) order"
  have "mset ?done = mset (map (\<lambda>k. ?calls ! k) [0..<length ?calls])" unfolding mset_map assms(7) [OF n] ..
  then have perm: "mset ?done = mset ?calls" unfolding map_nth .
  then have set: "set ?done = set ?calls" by (rule mset_eq_setD)
  have "length ms * (a div b) \<le> b * (a div b)" using assms(5) ab(2) by (intro mult_le_mono1) simp
  then have "drawn (unat npm) ms \<le> a" unfolding u using drawn_le [of "a div b" ms] times_div_less_eq_dividend [of b a] by linarith
  moreover have "(\<Sum>r\<leftarrow>?done. unat (projr r)) = (\<Sum>r\<leftarrow>?calls. unat (projr r))" 
    by (rule sum_list_mset [OF perm])
  ultimately have sum: "(\<Sum>r\<leftarrow>?done. unat (projr r)) \<le> a" using pi_calls_bound [OF assms(6), of npm] by simp
  have inr: "\<forall>r \<in> set ?done. \<exists>c. r = Inr c" using pi_calls_bound [OF assms(6), of npm] set by blast
  have total: "unat (pi_counts ?done) \<le> a" using pi_counts_sum [OF inr, of 0] sum ab(3) by (simp add: pi_counts_def)
  have four: "sint (4 * pi_counts ?done) = 4 * int (unat (pi_counts ?done))"
    by (rule sint_four) (use total ab(3) in simp)
  have "errgroup_Wait (map (\<lambda>r. case r of Inl e \<Rightarrow> Some e | Inr c \<Rightarrow> None) ?done) = None"
    by (rule errgroup_Wait_None) (use inr in fastforce)
  moreover have "List.find (\<lambda>m. pi_Err m \<noteq> None) ms = None" using assms(6) by (auto simp: find_None_iff honest_def)
  ultimately have m: "bigpi_main nsamples nmachine (Inr ms) order =
      PiEstimate (pi_counts ?done) (of_int (sint (4 * pi_counts ?done)) / of_int nsamples)"
    using n assms(1) by (simp add: bigpi_main_def Let_def)
  have "0 \<le> (of_int (4 * int (unat (pi_counts ?done))) / of_int nsamples :: rat)"
    "of_int (4 * int (unat (pi_counts ?done))) / of_int nsamples \<le> (4 :: rat)"
    using total ab(1,6) by (simp_all add: divide_le_eq del: of_nat_unat)
  then show ?thesis using m unfolding four by blast
qed

theorem bigpi_estimate_witness:
  "\<exists>total est. bigpi_main 20 2 (Inr [demo_pimach]) [3, 1, 0, 2] = PiEstimate total est \<and> 0 \<le> est \<and> est \<le> 4"
proof (rule bigpi_estimate)
  show "mset [3, 1, 0, 2] = mset [0..<length (pi_calls npm [demo_pimach])]" for npm
    by (simp add: pi_calls_def demo_pimach_def upt_rec numeral_eq_Suc)
  show "\<forall>m \<in> set [demo_pimach]. honest m" by (auto simp: honest_def demo_pimach_def)
qed simp_all

text \<open>The driver gets a session, and its handlers, exactly if the system is one of the two known, the process is no machine, and the system
  comes up.\<close>

lemma driver_Start_session:
  "(\<exists>b. fst (driver_Start sys typ od mode init_err supm n) = RDriver b \<and> driver b \<and> running b) \<longleftrightarrow>
     (sys = ''ec2'' \<or> sys = ''local'') \<and> mode = '''' \<and> init_err (driver_system sys typ od) = None"
  "snd (driver_Start sys typ od mode init_err supm n) \<noteq> [] \<longleftrightarrow> (\<exists>b. fst (driver_Start sys typ od mode init_err supm n) = RDriver b)"
  by (auto simp: driver_Start_def driver_system_def bigmachine_Start_def B_run_def B_new_def HandleDebug_def HandleDebugPrefix_def Let_def
      split: option.splits prod.splits)

end
