(* ===== verification/Local_System.thy ===== *)
theory Local_System
  imports Bigmachine Authority Io_Util
begin

text \<open>
  The system that runs machines as processes of the local host (\<open>local.go\<close>), as a provider of the \<open>System\<close>
  interface. The operating system is an argument of each operation: ports, started processes, the environment. A
  \<open>*Machine\<close> made by this system is known to it by the number \<open>made\<close> it was allocated under. Processes are the
  list \<open>procs\<close>.
\<close>

record proc =
  proc_port :: nat
  proc_env :: "string list"

record ('k, 'c) local_sys =
  authorityFilename :: string
  local_authority :: "('k, 'c) authority option"
  muxers :: "nat \<rightharpoonup> teech list"
  made :: nat
  procs :: "proc list"

definition maxConcurrentStreams :: nat where "maxConcurrentStreams = 20000"

definition new_local :: "('k, 'c) local_sys" where
  "new_local = \<lparr>authorityFilename = '''', local_authority = None, muxers = Map.empty, made = 0, procs = []\<rparr>"

text \<open>\<open>Init\<close>, given what making and removing the temporary file give; None when \<open>authority.New\<close> does not return.\<close>

definition local_Init :: "('k, 'c) x509lib \<Rightarrow> err + string \<Rightarrow> err option \<Rightarrow> nat \<Rightarrow> time \<Rightarrow> time \<Rightarrow> ('k, 'c) local_sys \<Rightarrow> afs
    \<Rightarrow> (err option \<times> ('k, 'c) local_sys \<times> afs) option" where
  "local_Init X tempFile remove_err rnd now y2060 s fs =
     (case tempFile of
        Inl e \<Rightarrow> Some (Some e, s, fs)
      | Inr name \<Rightarrow>
          (let s = s\<lparr>authorityFilename := name\<rparr>
           in case remove_err of
                Some e \<Rightarrow> Some (Some e, s, fs\<lparr>a_files := (a_files fs)(name \<mapsto> [])\<rparr>)
              | None \<Rightarrow>
                  (case authority_New X name rnd now y2060 (fs\<lparr>a_files := (a_files fs)(name := None)\<rparr>) of
                     None \<Rightarrow> None
                   | Some (Inl e, fs) \<Rightarrow> Some (Some e, s\<lparr>local_authority := None, muxers := Map.empty\<rparr>, fs)
                   | Some (Inr ca, fs) \<Rightarrow> Some (None, s\<lparr>local_authority := Some ca, muxers := Map.empty\<rparr>, fs))))"

definition local_Name :: string where "local_Name = ''local''"

subsection \<open>Start\<close>

definition getFreeTCPPort :: "err option \<Rightarrow> err + nat \<Rightarrow> err + nat" where
  "getFreeTCPPort resolve listen = (case resolve of Some e \<Rightarrow> Inl e | None \<Rightarrow> listen)"

definition local_env :: "string list \<Rightarrow> nat \<Rightarrow> string \<Rightarrow> string list" where
  "local_env os_environ port filename =
     os_environ @ [''BIGMACHINE_MODE=machine'', ''BIGMACHINE_SYSTEM=local'',
       ''BIGMACHINE_ADDR=localhost:'' @ show_nat port, ''BIGMACHINE_AUTHORITY='' @ filename]"

definition local_machine :: "nat \<Rightarrow> 'i machine" where
  "local_machine port = (new_machine (''https://localhost:'' @ show_nat port @ ''/''))\<lparr>Maxprocs := 1\<rparr>"

text \<open>What the operating system does for one machine: resolving the address, listening for a port, starting the process.\<close>

record lworld =
  lw_resolve :: "err option"
  lw_listen :: "err + nat"
  lw_start :: "err option"

fun local_loop :: "string list \<Rightarrow> lworld list \<Rightarrow> ('k, 'c) local_sys \<Rightarrow> (err + 'i machine list) \<times> ('k, 'c) local_sys" where
  "local_loop os_environ [] s = (Inr [], s)"
| "local_loop os_environ (w # ws) s =
     (case getFreeTCPPort (lw_resolve w) (lw_listen w) of
        Inl e \<Rightarrow> (Inl e, s)
      | Inr port \<Rightarrow>
          (let env = local_env os_environ port (authorityFilename s);
               s = s\<lparr>muxers := (muxers s)(made s \<mapsto> []), made := Suc (made s)\<rparr>
           in case lw_start w of
                Some e \<Rightarrow> (Inl e, s)
              | None \<Rightarrow>
                  (let s = s\<lparr>procs := procs s @ [\<lparr>proc_port = port, proc_env = env\<rparr>]\<rparr>
                   in case local_loop os_environ ws s of
                        (Inl e, s) \<Rightarrow> (Inl e, s)
                      | (Inr ms, s) \<Rightarrow> (Inr (local_machine port # ms), s))))"

definition local_Start :: "string list \<times> (nat \<Rightarrow> lworld) \<Rightarrow> nat \<Rightarrow> ('k, 'c) local_sys \<Rightarrow> (err + 'i machine list) \<times> ('k, 'c) local_sys" where
  "local_Start ow count s = (case ow of (os_environ, w) \<Rightarrow> local_loop os_environ (map w [0..<count]) s)"

subsection \<open>The other operations\<close>

text \<open>\<open>Main\<close> never returns.\<close>

definition local_Main :: "err option option" where "local_Main = None"

text \<open>\<open>Event\<close>: the line it logs. A name that is not a string, or that has no value, panics.\<close>

datatype fval = FStr string | FVal string    \<comment> \<open>a string; any other value, by what \<open>%v\<close> prints\<close>

fun fval_print :: "fval \<Rightarrow> string" where
  "fval_print (FStr s) = s"
| "fval_print (FVal s) = s"

fun event_fields :: "fval list \<Rightarrow> string list outcome" where
  "event_fields [] = Ok []"
| "event_fields (FVal v # fs) = Panic ''interface conversion''"
| "event_fields [FStr name] = Panic ''index out of range''"
| "event_fields (FStr name # v # fs) =
     bind_outcome (event_fields fs) (\<lambda>fields. Ok ((name @ '':'' @ fval_print v) # fields))"

definition local_Event :: "string \<Rightarrow> fval list \<Rightarrow> string outcome" where
  "local_Event typ fieldPairs =
     bind_outcome (event_fields fieldPairs) (\<lambda>fields. Ok (Join ((''eventType:'' @ typ) # fields) '', ''))"

text \<open>\<open>ListenAndServe\<close> up to the listening itself.\<close>

datatype listen_result = LServe string tls_config nat | LError err | LPanic string

definition listen_config :: "('k, 'c) x509lib \<Rightarrow> ('k, 'c) authority option \<Rightarrow> string \<Rightarrow> err option \<Rightarrow> nat \<Rightarrow> time \<Rightarrow> listen_result" where
  "listen_config X ca addr http2_err rnd now =
     (case ca of
        None \<Rightarrow> LPanic ''nil pointer dereference''
      | Some ca \<Rightarrow>
          (case HTTPSConfig X ca rnd now of
             Inl e \<Rightarrow> LError e
           | Inr (client, config) \<Rightarrow>
               (case http2_err of
                  Some e \<Rightarrow> LError (Errorf ''error configuring server: %v'' [Err e])
                | None \<Rightarrow> LServe addr (config\<lparr>RequireClientCert := True\<rparr>) maxConcurrentStreams)))"

definition local_ListenAndServe :: "('k, 'c) x509lib \<Rightarrow> (string \<Rightarrow> string) \<Rightarrow> string \<Rightarrow> err option \<Rightarrow> nat \<Rightarrow> time \<Rightarrow> time
    \<Rightarrow> ('k, 'c) local_sys \<Rightarrow> afs \<Rightarrow> (listen_result \<times> ('k, 'c) local_sys \<times> afs) option" where
  "local_ListenAndServe X getenv addr http2_err rnd now y2060 s fs =
     (let addr = (if addr = '''' then getenv ''BIGMACHINE_ADDR'' else addr)
      in if addr = '''' then Some (LError (Errorf ''no address defined'' []), s, fs)
         else
           (let filename = getenv ''BIGMACHINE_AUTHORITY''
            in if filename = '''' then Some (listen_config X (local_authority s) addr http2_err rnd now, s, fs)
               else case authority_New X filename rnd now y2060 fs of
                      None \<Rightarrow> None
                    | Some (Inl e, fs) \<Rightarrow> Some (LError e, s\<lparr>authorityFilename := filename, local_authority := None\<rparr>, fs)
                    | Some (Inr ca, fs) \<Rightarrow>
                        (let s = s\<lparr>authorityFilename := filename, local_authority := Some ca\<rparr>
                         in Some (listen_config X (local_authority s) addr http2_err rnd now, s, fs))))"

text \<open>\<open>HTTPClient\<close>; a failure ends the process.\<close>

definition local_HTTPClient :: "('k, 'c) x509lib \<Rightarrow> err option \<Rightarrow> nat \<Rightarrow> time \<Rightarrow> ('k, 'c) local_sys \<Rightarrow> tls_config outcome" where
  "local_HTTPClient X transport_err rnd now s =
     (case local_authority s of
        None \<Rightarrow> Panic ''nil pointer dereference''
      | Some ca \<Rightarrow>
          (case HTTPSConfig X ca rnd now of
             Inl e \<Rightarrow> Panic ''error build TLS configuration''
           | Inr (config, server) \<Rightarrow>
               (case transport_err of
                  Some e \<Rightarrow> Panic ''error configuring transport''
                | None \<Rightarrow> Ok config)))"

definition local_Maxprocs :: int where "local_Maxprocs = 1"

definition local_KeepaliveConfig :: "('k, 'c) local_sys \<Rightarrow> duration \<times> duration \<times> duration" where
  "local_KeepaliveConfig s = (Minute, 2 * Minute, 10 * Second)"

text \<open>\<open>Tail\<close> of machine \<open>k\<close>: the index of the writer it adds to the machine's multiplexer; and what its goroutine
  does when the context is done.\<close>

definition local_Tail :: "nat \<Rightarrow> ('k, 'c) local_sys \<Rightarrow> (err + nat) \<times> ('k, 'c) local_sys" where
  "local_Tail k s =
     (case muxers s k of
        None \<Rightarrow> (Inl (Errorf ''machine not under management'' []), s)
      | Some ws \<Rightarrow> (Inr (length ws), s\<lparr>muxers := (muxers s)(k \<mapsto> ws @ [Tee])\<rparr>))"

definition local_Tail_done :: "nat \<Rightarrow> nat \<Rightarrow> ('k, 'c) local_sys \<Rightarrow> ('k, 'c) local_sys" where
  "local_Tail_done k i s =
     (case muxers s k of
        None \<Rightarrow> s
      | Some ws \<Rightarrow> s\<lparr>muxers := (muxers s)(k \<mapsto> ws[i := cancel_t (ws ! i)])\<rparr>)"

definition local_Read :: "err + reader \<Rightarrow> err + closingReader" where
  "local_Read open_result = (case open_result of Inl e \<Rightarrow> Inl e | Inr f \<Rightarrow> Inr (NewClosingReader f))"

subsection \<open>The System interface\<close>

lemma local_loop_shape:
  fixes s :: "('k, 'c) local_sys" and r :: "err + 'i machine list"
  assumes "local_loop os_environ ws s = (r, s')"
  shows "\<exists>ports. procs s' = procs s @ map (\<lambda>p. \<lparr>proc_port = p, proc_env = local_env os_environ p (authorityFilename s)\<rparr>) ports \<and>
     length ports \<le> length ws \<and> authorityFilename s' = authorityFilename s \<and> local_authority s' = local_authority s \<and>
     (case r of Inl e \<Rightarrow> length ports < length ws | Inr ms \<Rightarrow> ms = map local_machine ports \<and> length ports = length ws)"
  using assms
proof (induction ws arbitrary: s r s')
  case (Cons w ws)
  show ?case
  proof (cases "getFreeTCPPort (lw_resolve w) (lw_listen w)")
    case (Inr port)
    define s1 where "s1 = s\<lparr>muxers := (muxers s)(made s \<mapsto> []), made := Suc (made s)\<rparr>"
    define s2 where "s2 = s1\<lparr>procs := procs s1 @ [\<lparr>proc_port = port, proc_env = local_env os_environ port (authorityFilename s)\<rparr>]\<rparr>"
    show ?thesis
    proof (cases "lw_start w")
      case None
      obtain r2 s3 where l: "local_loop os_environ ws s2 = (r2 :: err + 'i machine list, s3)" by fastforce
      have r: "s' = s3" "r = (case r2 of Inl e \<Rightarrow> Inl e | Inr ms \<Rightarrow> Inr (local_machine port # ms))"
        using Cons.prems Inr None l
        by (auto simp: s1_def [symmetric] s2_def [symmetric] Let_def split: sum.splits)
      have f: "procs s2 = procs s @ [\<lparr>proc_port = port, proc_env = local_env os_environ port (authorityFilename s)\<rparr>]"
        "authorityFilename s2 = authorityFilename s" "local_authority s2 = local_authority s"
        by (simp_all add: s2_def s1_def)
      from Cons.IH [OF l] obtain ports where "procs s3 = procs s2 @ map (\<lambda>p. \<lparr>proc_port = p, proc_env = local_env os_environ p (authorityFilename s2)\<rparr>) ports"
        "length ports \<le> length ws" "authorityFilename s3 = authorityFilename s2" "local_authority s3 = local_authority s2"
        "case r2 of Inl e \<Rightarrow> length ports < length ws | Inr ms \<Rightarrow> ms = map local_machine ports \<and> length ports = length ws"
        by blast
      then show ?thesis unfolding r f by (intro exI [of _ "port # ports"]) (auto split: sum.splits)
    qed (use Cons.prems Inr in \<open>auto simp: Let_def intro!: exI [of _ "[]"]\<close>)
  qed (use Cons.prems in auto)
qed auto

lemma fresh_local_machine: "fresh_machine (local_machine port)"
  by (simp add: fresh_machine_def local_machine_def new_machine_def)

lemma local_Start_machines:
  assumes "local_Start ow n s = (Inr ms, s')"
  obtains ports where "ms = map local_machine ports" "length ports = n"
    "procs s' = procs s @ map (\<lambda>p. \<lparr>proc_port = p, proc_env = local_env (fst ow) p (authorityFilename s)\<rparr>) ports"
  using local_loop_shape [of "fst ow" "map (snd ow) [0..<n]" s "Inr ms" s'] assms
  by (auto simp: local_Start_def split: prod.splits)

interpretation lsys: bm_bounded local_Start local_KeepaliveConfig
proof
  fix ow n and s s' :: "('a, 'b) local_sys" and ms :: "'c machine list" and m
  assume s: "local_Start ow n s = (Inr ms, s')"
  show "length ms \<le> n" using s by (rule local_Start_machines) simp
  assume "m \<in> set ms"
  then show "fresh_machine m" using s by (auto elim!: local_Start_machines simp: fresh_local_machine)
qed (auto simp: local_KeepaliveConfig_def duration_defs)

text \<open>C22. A session that starts machines on the local host gets the number asked for or an error. The machines are filed in the session's heap
  under the addresses of the processes just started. At the return and at any time after it, whatever the critical sections the machines' loops and their other users have
  run by then, a machine is owned, has that address, a service, and the keepalive periods of the local system, and is in the last
  state its loop has set, \<open>Unstarted\<close> before the first.\<close>

theorem local_session_Start:
  assumes "session_Start local_Start local_KeepaliveConfig ow n ps s b = (Inr rs, s', b')"
  shows "length rs = n \<and> length (procs s') = length (procs s) + n \<and>
    (\<forall>i < n. \<forall>as. let m = run_acts as (heap b' ! (rs ! i)) in
       Addr m = ''https://localhost:'' @ show_nat (proc_port (procs s' ! (length (procs s) + i))) @ ''/'' \<and>
       owner m \<and> services m \<noteq> [] \<and> state m = last (Unstarted # act_states as) \<and>
       keepalivePeriod m = Minute \<and> keepaliveTimeout m = 2 * Minute \<and> keepaliveRpcTimeout m = 10 * Second)"
proof -
  obtain ms where ms: "local_Start ow n s = (Inr ms, s')" "rs = [length (heap b)..<length (heap b) + length ms]"
    "heap b' = heap b @ map (started (local_KeepaliveConfig s') ps) ms"
    using lsys.session_Start_cases [OF assms] by blast
  obtain ports where p: "ms = map local_machine ports" "length ports = n"
    "procs s' = procs s @ map (\<lambda>p. \<lparr>proc_port = p, proc_env = local_env (fst ow) p (authorityFilename s)\<rparr>) ports"
    using ms(1) by (rule local_Start_machines)
  have "Addr (heap b' ! (rs ! i)) = ''https://localhost:'' @ show_nat (proc_port (procs s' ! (length (procs s) + i))) @ ''/''"
    if "i < n" for i
    using that by (simp add: ms(2,3) p nth_append started_def Let_def local_machine_def new_machine_def)
  moreover have "owner (heap b' ! r) \<and> state (heap b' ! r) = Unstarted \<and> services (heap b' ! r) \<noteq> [] \<and>
       (keepalivePeriod (heap b' ! r), keepaliveTimeout (heap b' ! r), keepaliveRpcTimeout (heap b' ! r)) = local_KeepaliveConfig s'"
    if "r \<in> set rs" for r
    using lsys.session_Start_machines [OF assms] that by blast
  ultimately show ?thesis using ms(2) p by (simp add: local_KeepaliveConfig_def run_acts_state Let_def)
qed

definition lworld_ok :: "nat \<Rightarrow> lworld" where
  "lworld_ok port = \<lparr>lw_resolve = None, lw_listen = Inr port, lw_start = None\<rparr>"

theorem local_session_Start_witness:
  "let (r, s', b') = session_Start local_Start local_KeepaliveConfig ([], \<lambda>i. lworld_ok (i + 5)) 2 [Services [(''S'', ())]]
       (new_local :: (nat, bytes) local_sys) (B_new 0 [])
   in r = Inr [0, 1] \<and> Addr (heap b' ! 1) = ''https://localhost:6/''"
proof -
  obtain r s' b' where e: "session_Start local_Start local_KeepaliveConfig ([], \<lambda>i. lworld_ok (i + 5)) 2 [Services [(''S'', ())]]
       (new_local :: (nat, bytes) local_sys) (B_new 0 []) = (r, s', b' :: unit B)" by (metis surj_pair)
  have "r = Inr [0, 1]" "proc_port (procs s' ! 1) = 6"
    using e by (auto simp: session_Start_def local_Start_def B_Start_def B_new_def Let_def lworld_ok_def getFreeTCPPort_def
        new_local_def applyParams_def local_machine_def new_machine_def upt_rec numeral_2_eq_2)
  with local_session_Start [of "([], \<lambda>i. lworld_ok (i + 5))" 2 "[Services [(''S'', ())]]" new_local "B_new 0 []" "[0, 1]" s' b'] e
  show ?thesis by (auto simp: new_local_def show_nat.simps digit_def Let_def dest: spec [where x = 1])
qed

subsection \<open>Joining the session\<close>

text \<open>A variable in the environment of a process started by \<open>exec.Cmd\<close>: the last definition counts.\<close>

definition getenv_last :: "string list \<Rightarrow> string \<Rightarrow> string" where
  "getenv_last env k =
     (case List.find (\<lambda>kv. HasPrefix kv (k @ ''='')) (rev env) of
        None \<Rightarrow> '''' | Some kv \<Rightarrow> drop (Suc (length k)) kv)"

lemma local_env_get:
  "getenv_last (local_env os_environ port filename) ''BIGMACHINE_ADDR'' = ''localhost:'' @ show_nat port"
  "getenv_last (local_env os_environ port filename) ''BIGMACHINE_AUTHORITY'' = filename"
  "getenv_last (local_env os_environ port filename) ''BIGMACHINE_MODE'' = ''machine''"
  "getenv_last (local_env os_environ port filename) ''BIGMACHINE_SYSTEM'' = ''local''"
  by (simp_all add: getenv_last_def local_env_def HasPrefix_def)

lemma local_InitE:
  assumes "local_Init X tempFile rm rnd now y s fs = Some (None, s', fs')"
  obtains name ca where "tempFile = Inr name" "rm = None" "authorityFilename s' = name" "local_authority s' = Some ca"
    "authority_New X name rnd now y (fs\<lparr>a_files := (a_files fs)(name := None)\<rparr>) = Some (Inr ca, fs')"
  using assms by (auto simp: local_Init_def Let_def split: sum.splits option.splits prod.splits)

text \<open>What a worker's own \<open>Init\<close> leaves alone.\<close>

lemma local_Init_keeps:
  assumes "local_Init X (Inr name) rm rnd now y s fs = Some (r, s', fs')" "f \<noteq> name"
  shows "a_files fs' f = a_files fs f \<and> a_read_err fs' = a_read_err fs"
  using assms by (auto simp: local_Init_def Let_def split: option.splits sum.splits prod.splits dest: authority_New_other authority_New_read_err)

text \<open>C19. A process started by the local system becomes a machine of the session. The driver has initialised the system and started the process; its authority can
  issue certificates, and the file the authority is kept in is still what it was when the process starts. Whatever the environment of
  the driver says, a process whose program has the local system registered finds that system by its environment; once the system's \<open>Init\<close> has succeeded in
  the process, with a temporary file that is new, \<open>run\<close> does not take the process for a driver and makes it serve the supervisor; and it serves
  on the port its machine is addressed by, on a connection that requires a client certificate of the very authority whose
  certificates the driver's client presents, not of the one its own \<open>Init\<close> has made.\<close>

theorem local_process_joins:
  assumes "local_Init X (Inr name) rm rnd now y s fs = Some (None, s1, fs1)" "name \<noteq> ''''" "a_read_err fs name = None"
    and "local_Start (os_environ, w) n s1 = (Inr (ms :: 'i machine list), s2)" "i < n"
    and "local_HTTPClient X None rnd1 now1 s2 = Ok client"
    and "\<And>r t. \<exists>c. HTTPSConfig X (the (local_authority s1)) r t = Inr c"
    and "a_files gs name = a_files fs1 name" "a_read_err gs name = None" "systems local_Name = Some c"
    and "local_Init X (Inr temp) rmc rndc nowc yc c gs = Some (None, c1, gs1)" "a_files gs temp = None"
  shows "let p = procs s2 ! (length (procs s1) + i); env = getenv_last (proc_env p)
         in Addr (ms ! i) = ''https://localhost:'' @ show_nat (proc_port p) @ ''/'' \<and>
            bigmachine_Init (env ''BIGMACHINE_SYSTEM'') systems = Ok (Some c) \<and>
            (\<exists>b srv. fst (bigmachine_Start (env ''BIGMACHINE_MODE'') None supm [] index) = RMachine (b :: 'i B) srv \<and>
               \<not> driver b \<and> running b \<and> srv ''Supervisor'' = Some (service_Init supm Map.empty)) \<and>
            (\<exists>config c2. local_ListenAndServe X env '''' None rnd2 now2 y2 c1 gs1 =
                Some (LServe (''localhost:'' @ show_nat (proc_port p)) config maxConcurrentStreams, c2, gs1) \<and>
              RequireClientCert config \<and> ClientCAs config = RootCAs client \<and>
              local_authority c2 = local_authority s2)"
proof -
  obtain ca where i: "authorityFilename s1 = name" "local_authority s1 = Some ca"
    "authority_New X name rnd now y (fs\<lparr>a_files := (a_files fs)(name := None)\<rparr>) = Some (Inr ca, fs1)"
    using assms(1) by (rule local_InitE) auto
  have "temp \<noteq> name" using authority_New_file [OF assms(2) i(3)] assms(8,12) by auto
  then have gs1: "a_files gs1 name = a_files fs1 name" "a_read_err gs1 name = None"
    using local_Init_keeps [OF assms(11), of name] assms(8,9) by simp_all
  have again: "authority_New X name rnd2 now2 y2 gs1 = Some (Inr ca, gs1)"
    by (rule authority_New_reads [OF assms(2) _ i(3) gs1]) (simp add: assms(3))
  obtain ports where p: "ms = map local_machine ports" "length ports = n"
    "procs s2 = procs s1 @ map (\<lambda>p. \<lparr>proc_port = p, proc_env = local_env os_environ p name\<rparr>) ports"
    using local_Start_machines [OF assms(4)] i(1) by auto
  have auth: "local_authority s2 = Some ca"
    using local_loop_shape [of os_environ "map w [0..<n]" s1 "Inr ms" s2] assms(4) i(2) by (auto simp: local_Start_def)
  obtain cl sv where cfg: "HTTPSConfig X ca rnd2 now2 = Inr (cl, sv)" using assms(7) i(2) by (metis option.sel surj_pair)
  have sv: "ClientCAs sv = Some (certPEM ca)" using cfg by (auto simp: HTTPSConfig_def split: sum.splits prod.splits)
  have cl: "RootCAs client = Some (certPEM ca)"
    using assms(6) auth by (auto simp: local_HTTPClient_def HTTPSConfig_def split: sum.splits prod.splits)
  have "\<exists>b srv. fst (bigmachine_Start ''machine'' None supm [] index) = RMachine (b :: 'i B) srv \<and>
      \<not> driver b \<and> running b \<and> srv ''Supervisor'' = Some (service_Init supm Map.empty)"
    by (simp add: bigmachine_Start_def B_run_def B_new_def Register_def NewServer_def)
  then show ?thesis using p assms(2,5,10) again cfg sv cl auth
    by (simp add: local_env_get local_Name_def bigmachine_Init_def local_machine_def new_machine_def local_ListenAndServe_def listen_config_def Let_def nth_append)
qed

lemma toy_HTTPSConfig: "\<exists>c. HTTPSConfig toy_x509 ca r t = Inr c"
  by (simp add: HTTPSConfig_def Issue_def encodePEM_def toy_x509_def Let_def)

theorem local_process_joins_witness:
  "\<exists>s2 config c2 gs. local_Start ([''BIGMACHINE_MODE=x''], \<lambda>i. lworld_ok 80) 1 (new_local\<lparr>authorityFilename := ''f'', local_authority := Some toy_ca\<rparr>) =
      (Inr [local_machine 80 :: unit machine], s2) \<and>
    (\<exists>b srv. fst (bigmachine_Start (getenv_last (proc_env (procs s2 ! 0)) ''BIGMACHINE_MODE'') None ([] :: (nat, nat) rmethod list) [] 0) =
       RMachine (b :: unit B) srv) \<and>
    local_ListenAndServe toy_x509 (getenv_last (proc_env (procs s2 ! 0))) '''' None 0 0 0
      (new_local\<lparr>authorityFilename := ''t'', local_authority := Some toy_ca\<rparr>) gs = Some (LServe ''localhost:80'' config maxConcurrentStreams, c2, gs) \<and>
    RequireClientCert config"
proof -
  let ?s = "new_local\<lparr>authorityFilename := ''f'', local_authority := Some toy_ca\<rparr>"
  let ?c = "new_local\<lparr>authorityFilename := ''t'', local_authority := Some toy_ca\<rparr>"
  let ?w = "\<lambda>i. lworld_ok 80" and ?fs = "toy_fs\<lparr>a_files := [''f'' \<mapsto> Contents toy_ca]\<rparr>"
  have f: "toy_fs\<lparr>a_files := (a_files toy_fs)(''f'' := None)\<rparr> = toy_fs" by (simp add: toy_fs_def)
  have i: "local_Init toy_x509 (Inr ''f'') None 3 0 9 new_local toy_fs = Some (None, ?s, ?fs)"
    by (simp add: local_Init_def f toy_New new_local_def Let_def)
  obtain gs1 where c: "local_Init toy_x509 (Inr ''t'') None 3 0 9 new_local ?fs = Some (None, ?c, gs1)"
    using toy_New_beside [of "''t''" ?fs 0 9] by (auto simp: local_Init_def toy_fs_def new_local_def Let_def)
  obtain r s2 where st: "local_Start ([''BIGMACHINE_MODE=x''], ?w) 1 ?s = (r :: err + unit machine list, s2)" by fastforce
  then have r: "r = Inr [local_machine 80]" "local_authority s2 = Some toy_ca" "proc_port (procs s2 ! 0) = 80"
    by (auto simp: local_Start_def lworld_ok_def getFreeTCPPort_def new_local_def Let_def)
  obtain cl sv where cfg: "HTTPSConfig toy_x509 toy_ca 0 0 = Inr (cl, sv)" using toy_HTTPSConfig by (metis surj_pair)
  have h: "local_HTTPClient toy_x509 None 0 0 s2 = Ok cl" using r(2) cfg by (simp add: local_HTTPClient_def)
  show ?thesis
    using local_process_joins [OF i _ _ st [unfolded r(1)] _ h _ refl _ _ c, of 0 "[local_Name \<mapsto> new_local]" "[] :: (nat, nat) rmethod list" 0 0 0 0]
      st r toy_HTTPSConfig
    by (fastforce simp: toy_fs_def new_local_def Let_def show_nat.simps digit_def)
qed

text \<open>When a machine cannot be started the caller gets an error only, but the processes of the machines before it run
  on: they have been started, and nothing refers to them.\<close>

theorem local_Start_leaks:
  assumes "lw_resolve w1 = None" "lw_listen w1 = Inr port" "lw_start w1 = None"
    and "lw_resolve w2 = Some e \<or> lw_start w2 = Some e \<and> lw_listen w2 = Inr port2 \<and> lw_resolve w2 = None"
  shows "\<exists>s'. local_loop env (w1 # w2 # ws) s = (Inl e :: err + 'i machine list, s') \<and> length (procs s') = Suc (length (procs s))"
  using assms by (auto simp: getFreeTCPPort_def Let_def)

theorem local_Start_leaks_witness:
  "length (procs (snd (local_loop [] [lworld_ok 5, (lworld_ok 6)\<lparr>lw_start := Some Canceled\<rparr>] new_local :: (err + unit machine list) \<times> (nat, nat) local_sys))) = 1"
  using local_Start_leaks [of "lworld_ok 5" 5 "(lworld_ok 6)\<lparr>lw_start := Some Canceled\<rparr>" Canceled 6 "[]" "[]" "new_local :: (nat, nat) local_sys", where 'i = unit]
  by (auto simp: lworld_ok_def new_local_def)

end
