(* ===== verification/Ec2_System.thy ===== *)
theory Ec2_System
  imports Ec2_Config Local_System
begin

text \<open>
  The EC2 system at work (second half of \<open>ec2system/ec2machine.go\<close>), the third provider of the \<open>System\<close> interface. The EC2
  API, the rate limiter and \<open>retry.Wait\<close> are the parameter \<open>ec2api\<close>, acting on a world \<open>'w\<close>. The state \<open>estate\<close> has the
  package's memory of described images, the events logged and the world.
\<close>

subsection \<open>The API\<close>

record ec2inst =
  inst_id :: "string option"
  PublicDnsName :: "string option"
  PublicIpAddress :: "string option"
  PrivateIpAddress :: "string option"

record run_input =
  ri_Subnet :: string
  ri_Image :: string
  ri_MaxCount :: int
  ri_MinCount :: int
  ri_Devices :: "blockDevice list"
  ri_EbsOptimized :: bool
  ri_Profile :: string
  ri_InstanceType :: string
  ri_UserData :: string
  ri_SecurityGroups :: "string list"
  ri_KeyName :: "string option"

record spot_input = run_input +
  si_ValidUntil :: time
  si_SpotPrice :: string

record 'w ec2api =
  DescribeImages :: "string \<Rightarrow> 'w \<Rightarrow> (err + (string option \<times> string option) list) \<times> 'w"
  RunInstances :: "run_input \<Rightarrow> 'w \<Rightarrow> (err + string list) \<times> 'w"
  RequestSpotInstances :: "spot_input \<Rightarrow> 'w \<Rightarrow> (err + string list) \<times> 'w"
  WaitSpotFulfilled :: "string list \<Rightarrow> 'w \<Rightarrow> err option \<times> 'w"
  DescribeSpotRequests :: "string list \<Rightarrow> 'w \<Rightarrow> (err + string option list) \<times> 'w"
  WaitInstanceRunning :: "string list \<Rightarrow> 'w \<Rightarrow> err option \<times> 'w"
  DescribeInstances :: "string list \<Rightarrow> 'w \<Rightarrow> (err + ec2inst list list) \<times> 'w"
  limiter_Wait :: "'w \<Rightarrow> err option \<times> 'w"
  retry_Wait :: "nat \<Rightarrow> 'w \<Rightarrow> err option \<times> 'w"
  api_Now :: "'w \<Rightarrow> time"
  aws_Code :: "string \<Rightarrow> string option"    \<comment> \<open>\<open>awserr.Error\<close>: the code of an error of the SDK\<close>

record 'w estate =
  es_described :: "string \<rightharpoonup> err option"         \<comment> \<open>\<open>describeImages\<close>: the result of the call made for an image\<close>
  es_images :: "string \<rightharpoonup> string option"         \<comment> \<open>\<open>imageInfo\<close>: the root device name\<close>
  es_events :: "(string \<times> (string \<times> string) list) list"
  es_world :: 'w

definition StringValue :: "string option \<Rightarrow> string" where
  "StringValue s = (case s of None \<Rightarrow> '''' | Some v \<Rightarrow> v)"

definition getAddress :: "ec2inst \<Rightarrow> string" where
  "getAddress inst =
     (case List.find (\<lambda>ptr. StringValue ptr \<noteq> '''') [PublicDnsName inst, PublicIpAddress inst, PrivateIpAddress inst] of
        None \<Rightarrow> '''' | Some ptr \<Rightarrow> StringValue ptr)"

definition ec2_Event :: "('k, 'c, 'p) ec2sys \<Rightarrow> string \<Rightarrow> (string \<times> string) list \<Rightarrow> 'w estate \<Rightarrow> 'w estate" where
  "ec2_Event s typ fieldPairs e = (if \<not> Eventer s then e else e\<lparr>es_events := es_events e @ [(typ, fieldPairs)]\<rparr>)"

text \<open>Base64 and \<open>%.3f\<close>.\<close>

definition b64_digit :: "nat \<Rightarrow> char" where
  "b64_digit n = ''ABCDEFGHIJKLMNOPQRSTUVWXYZabcdefghijklmnopqrstuvwxyz0123456789+/'' ! n"

fun base64 :: "bytes \<Rightarrow> string" where
  "base64 [] = []"
| "base64 [a] = [b64_digit (of_char a div 4), b64_digit ((of_char a mod 4) * 16), CHR ''='', CHR ''='']"
| "base64 [a, b] = [b64_digit (of_char a div 4), b64_digit ((of_char a mod 4) * 16 + of_char b div 16),
     b64_digit ((of_char b mod 16) * 4), CHR ''='']"
| "base64 (a # b # c # r) = [b64_digit (of_char a div 4), b64_digit ((of_char a mod 4) * 16 + of_char b div 16),
     b64_digit ((of_char b mod 16) * 4 + of_char c div 64), b64_digit (of_char c mod 64)] @ base64 r"

definition round_even :: "rat \<Rightarrow> int" where
  "round_even x =
     (let n = \<lfloor>x\<rfloor>; f = x - of_int n
      in if f > 1 / 2 \<or> f = 1 / 2 \<and> odd n then n + 1 else n)"

definition pad3 :: "nat \<Rightarrow> string" where
  "pad3 n = [digit (n div 100), digit (n div 10 mod 10), digit (n mod 10)]"

definition fmt3 :: "rat \<Rightarrow> string" where
  "fmt3 x =
     (let n = round_even (\<bar>x\<bar> * 1000)
      in (if x < 0 then ''-'' else []) @ show_int (n div 1000) @ ''.'' @ pad3 (nat (n mod 1000)))"

subsection \<open>Start\<close>

text \<open>The image: described once for each AMI; an error is forgotten only if it is one of the repository's own and not fatal.\<close>

definition describe_image :: "'w ec2api \<Rightarrow> string \<Rightarrow> 'w estate \<Rightarrow> err option \<times> 'w estate" where
  "describe_image api ami e =
     (case es_described e ami of
        Some r \<Rightarrow> (r, e)
      | None \<Rightarrow>
          (case DescribeImages api ami (es_world e) of (out, w) \<Rightarrow>
            (let e = e\<lparr>es_world := w\<rparr>
             in case out of
                  Inl err2 \<Rightarrow> (Some err2, e\<lparr>es_described := (es_described e)(ami \<mapsto> Some err2)\<rparr>)
                | Inr images \<Rightarrow>
                    if length images \<noteq> 1 \<or> StringValue (fst (hd images)) \<noteq> ami
                    then (Some (ErrE [Severity Fatal, Str ''image not found'']),
                          e\<lparr>es_described := (es_described e)(ami \<mapsto> Some (ErrE [Severity Fatal, Str ''image not found'']))\<rparr>)
                    else (None, e\<lparr>es_images := (es_images e)(ami \<mapsto> snd (hd images)),
                                  es_described := (es_described e)(ami \<mapsto> None)\<rparr>))))"

fun forgettable :: "err \<Rightarrow> bool" where
  "forgettable (ErrE args) = (Severity Fatal \<notin> set args)"
| "forgettable _ = False"

definition root_device :: "'w ec2api \<Rightarrow> string \<Rightarrow> 'w estate \<Rightarrow> (err + string option) outcome \<times> 'w estate" where
  "root_device api ami e =
     (case describe_image api ami e of
        (Some err, e) \<Rightarrow>
          (Ok (Inl (ErrE [Str ''describe-images'', Str ami, Err err])),
           if forgettable err then e\<lparr>es_described := (es_described e)(ami := None)\<rparr> else e)
      | (None, e) \<Rightarrow>
          (case es_images e ami of
             None \<Rightarrow> (Panic ami, e)
           | Some d \<Rightarrow> (Ok (Inr d), e)))"

definition launch_input :: "('k, 'c, 'p) ec2sys \<Rightarrow> blockDevice list \<Rightarrow> bytes \<Rightarrow> nat \<Rightarrow> run_input" where
  "launch_input s devs userData count =
     \<lparr>ri_Subnet = Subnet s, ri_Image = AMI s, ri_MaxCount = int count, ri_MinCount = 1, ri_Devices = devs,
      ri_EbsOptimized = it_EBSOptimized (ec2_config s), ri_Profile = InstanceProfile s, ri_InstanceType = it_Name (ec2_config s),
      ri_UserData = base64 userData,
      ri_SecurityGroups = (if SecurityGroups s \<noteq> [] then SecurityGroups s else [SecurityGroup s]),
      ri_KeyName = (if EC2KeyName s \<noteq> '''' then Some (EC2KeyName s) else None)\<rparr>"

text \<open>\<open>run\<close> for on-demand instances.\<close>

definition run_ondemand :: "'w ec2api \<Rightarrow> run_input \<Rightarrow> 'w estate \<Rightarrow> (err + string list) \<times> 'w estate" where
  "run_ondemand api inp e =
     (case RunInstances api inp (es_world e) of (resv, w) \<Rightarrow>
       (let e = e\<lparr>es_world := w\<rparr>
        in case resv of
             Inl err2 \<Rightarrow> (Inl (ErrE [Str ''run-instances'', Err err2]), e)
           | Inr ids \<Rightarrow>
               if ids = [] then (Inl (ErrE [Kind Invalid, Str ''expected at least 1 instance'']), e) else (Inr ids, e)))"

text \<open>The loop over the described spot requests, indexed by the requests; it panics when the description is shorter.\<close>

fun spot_ids :: "('k, 'c, 'p) ec2sys \<Rightarrow> string list \<Rightarrow> string option list \<Rightarrow> 'w estate \<Rightarrow> string list outcome \<times> 'w estate" where
  "spot_ids s [] insts e = (Ok [], e)"
| "spot_ids s (r # rs) [] e = (Panic ''index out of range'', e)"
| "spot_ids s (r # rs) (i # is) e =
     (let e = ec2_Event s ''bigmachine:ec2:spotInstanceRequestFulfill'' [(''requestID'', r), (''instanceID'', StringValue i)] e
      in case spot_ids s rs is e of (out, e) \<Rightarrow> (bind_outcome out (\<lambda>ids. Ok (StringValue i # ids)), e))"

text \<open>\<open>run\<close> for spot instances.\<close>

definition run_spot :: "'w ec2api \<Rightarrow> ('k, 'c, 'p) ec2sys \<Rightarrow> run_input \<Rightarrow> 'w estate \<Rightarrow> (err + string list) outcome \<times> 'w estate" where
  "run_spot api s inp e =
     (let price = fmt3 (it_Price (ec2_config s) (ec2_region s));
          spec = run_input.extend inp \<lparr>si_ValidUntil = api_Now api (es_world e) + Minute, si_SpotPrice = price\<rparr>
      in case RequestSpotInstances api spec (es_world e) of (resp, w) \<Rightarrow>
        (let e = e\<lparr>es_world := w\<rparr>
         in case resp of
              Inl err2 \<Rightarrow> (Ok (Inl (ErrE [Str ''request-spot-instances'', Err err2])), e)
            | Inr reqs \<Rightarrow>
                if reqs = [] then (Ok (Inl (ErrE [Kind Invalid, Str ''ec2.RequestSpotInstances: got 0 entries''])), e)
                else case WaitSpotFulfilled api reqs (es_world e) of (r, w) \<Rightarrow>
                  (let e = e\<lparr>es_world := w\<rparr>
                   in case r of
                        Some err2 \<Rightarrow> (Ok (Inl (ErrE [Str ''wait-until-spot-instance-request-fulfilled'', Err err2])), e)
                      | None \<Rightarrow>
                          (case DescribeSpotRequests api reqs (es_world e) of (d, w) \<Rightarrow>
                            (let e = e\<lparr>es_world := w\<rparr>
                             in case d of
                                  Inl err2 \<Rightarrow> (Ok (Inl (ErrE [Str ''describe-spot-instance-requests'', Err err2])), e)
                                | Inr insts \<Rightarrow>
                                    (let n = length reqs; want = length reqs
                                     in if n \<noteq> want
                                        then (Ok (Inl (Errorf ''ec2.DescribeSpotInstanceRequests: got %d entries, want %d'' [Num (int n), Num (int want)])), e)
                                        else case spot_ids s reqs insts e of (out, e) \<Rightarrow>
                                               (bind_outcome out (\<lambda>ids. Ok (Inr ids)), e)))))))"

text \<open>One round of the launch loop: the rate limiter, then \<open>run\<close>.\<close>

datatype launch_round = Limited err | Ran "(err + string list) outcome"

definition launch_attempt :: "'w ec2api \<Rightarrow> ('k, 'c, 'p) ec2sys \<Rightarrow> run_input \<Rightarrow> 'w estate \<Rightarrow> launch_round \<times> 'w estate" where
  "launch_attempt api s inp e =
     (case limiter_Wait api (es_world e) of
        (Some err, w) \<Rightarrow> (Limited err, e\<lparr>es_world := w\<rparr>)
      | (None, w) \<Rightarrow>
          (let e = e\<lparr>es_world := w\<rparr>
           in if OnDemand s then (case run_ondemand api inp e of (r, e) \<Rightarrow> (Ran (Ok r), e))
              else (case run_spot api s inp e of (r, e) \<Rightarrow> (Ran r, e))))"

definition awserr_code :: "'w ec2api \<Rightarrow> err \<Rightarrow> string option" where
  "awserr_code api err = (case err of Opaque msg \<Rightarrow> aws_Code api msg | _ \<Rightarrow> None)"

fun launch_final :: "'w ec2api \<Rightarrow> nat \<Rightarrow> launch_round \<Rightarrow> (err + string list) outcome option" where
  "launch_final api n (Limited err) = Some (Ok (Inl err))"
| "launch_final api n (Ran (Panic msg)) = Some (Panic msg)"
| "launch_final api n (Ran (Ok (Inr ids))) = Some (Ok (Inr ids))"
| "launch_final api n (Ran (Ok (Inl err))) =
     (if awserr_code api err \<noteq> Some ''RequestLimitExceeded'' then Some (Ok (Inl err)) else None)"

definition launch :: "'w ec2api \<Rightarrow> ('k, 'c, 'p) ec2sys \<Rightarrow> run_input \<Rightarrow> 'w estate \<Rightarrow> ((err + string list) outcome \<times> 'w estate) option" where
  "launch api s inp e =
     retry (launch_attempt api s inp) (launch_final api)
       (\<lambda>n e. case retry_Wait api n (es_world e) of (r, w) \<Rightarrow> (r, e\<lparr>es_world := w\<rparr>)) (\<lambda>err. Ok (Inl err)) 0 e"

text \<open>The machines of the described instances; \<open>idSuffix\<close> is \<open>useInstanceIDSuffix\<close>.\<close>

definition ec2_addr :: "bool \<Rightarrow> ec2inst \<Rightarrow> string" where
  "ec2_addr idSuffix inst =
     ''https://'' @ getAddress inst @ ''/'' @ (if idSuffix then StringValue (inst_id inst) @ ''/'' else [])"

definition ec2_machine :: "bool \<Rightarrow> ('k, 'c, 'p) ec2sys \<Rightarrow> ec2inst \<Rightarrow> 'i machine" where
  "ec2_machine idSuffix s inst = (new_machine (ec2_addr idSuffix inst))\<lparr>Maxprocs := int (it_VCPU (ec2_config s))\<rparr>"

fun ec2_machines :: "bool \<Rightarrow> ('k, 'c, 'p) ec2sys \<Rightarrow> nat \<Rightarrow> ec2inst list \<Rightarrow> 'w estate \<Rightarrow> (err + 'i machine list) \<times> 'w estate" where
  "ec2_machines idSuffix s i [] e = (Inr [], e)"
| "ec2_machines idSuffix s i (inst # insts) e =
     (if getAddress inst = ''''
      then (Inl (Errorf ''ec2.DescribeInstances %s[%d]: no dns name or ip addresss available'' [Str (StringValue (inst_id inst)), Num (int i)]), e)
      else
        (let e = ec2_Event s ''bigmachine:ec2:machineStart''
                   [(''instanceType'', InstanceType s), (''addr'', ec2_addr idSuffix inst), (''instanceID'', StringValue (inst_id inst))] e
         in case ec2_machines idSuffix s (Suc i) insts e of
              (Inl err, e) \<Rightarrow> (Inl err, e)
            | (Inr ms, e) \<Rightarrow> (Inr (ec2_machine idSuffix s inst # ms), e)))"

text \<open>The wait for the instances and their description. When the wait fails and the description, fetched for the log, succeeds,
  the variable \<open>err\<close> that is returned has been set to nil.\<close>

definition await_instances :: "'w ec2api \<Rightarrow> bool \<Rightarrow> ('k, 'c, 'p) ec2sys \<Rightarrow> string list \<Rightarrow> 'w estate
    \<Rightarrow> (err + 'i machine list) \<times> 'w estate" where
  "await_instances api idSuffix s ids e =
     (case WaitInstanceRunning api ids (es_world e) of (r, w) \<Rightarrow>
       (let e = e\<lparr>es_world := w\<rparr>
        in case r of
             Some err \<Rightarrow>
               (case DescribeInstances api ids (es_world e) of
                  (Inl err, w) \<Rightarrow> (Inl err, e\<lparr>es_world := w\<rparr>)
                | (Inr reservs, w) \<Rightarrow> (Inr [], e\<lparr>es_world := w\<rparr>))
           | None \<Rightarrow>
               (case DescribeInstances api ids (es_world e) of
                  (Inl err, w) \<Rightarrow> (Inl err, e\<lparr>es_world := w\<rparr>)
                | (Inr reservs, w) \<Rightarrow>
                    if length reservs \<noteq> 1 \<or> length (hd reservs) \<noteq> length ids
                    then (Inl (ErrE [Kind Invalid, Str ''ec2.DescribeInstances: invalid output'']), e\<lparr>es_world := w\<rparr>)
                    else ec2_machines idSuffix s 0 (hd reservs) (e\<lparr>es_world := w\<rparr>))))"

record 'w ec2env =
  ee_api :: "'w ec2api"
  ee_yaml :: "cloudConfig \<Rightarrow> err + bytes"
  ee_immortal :: bool
  ee_idSuffix :: bool

text \<open>\<open>Start\<close>; None when the launch loop does not return.\<close>

definition ec2_Start :: "'w ec2env \<Rightarrow> nat \<Rightarrow> ('k, 'c, 'p) ec2sys \<Rightarrow> 'w estate \<Rightarrow> ((err + 'i machine list) outcome \<times> 'w estate) option" where
  "ec2_Start env count s e =
     (let api = ee_api env
      in case ec2_cloudConfig (ee_immortal env) s of
           Panic msg \<Rightarrow> Some (Panic msg, e)
         | Ok c \<Rightarrow>
        (case Marshal (ee_yaml env) c of
           Inl err \<Rightarrow> Some (Ok (Inl (Errorf ''failed to marshal cloud-config: %v'' [Err err])), e)
         | Inr userData \<Rightarrow>
        (case root_device api (AMI s) e of
           (Panic msg, e) \<Rightarrow> Some (Panic msg, e)
         | (Ok (Inl err), e) \<Rightarrow> Some (Ok (Inl err), e)
         | (Ok (Inr rootDeviceName), e) \<Rightarrow>
        (case launch api s (launch_input s (blockDevices rootDeviceName s) userData count) e of
           None \<Rightarrow> None
         | Some (Panic msg, e) \<Rightarrow> Some (Panic msg, e)
         | Some (Ok (Inl err), e) \<Rightarrow> Some (Ok (Inl err), e)
         | Some (Ok (Inr ids), e) \<Rightarrow>
            (case await_instances api (ee_idSuffix env) s ids e of (r, e) \<Rightarrow> Some (Ok r, e))))))"

text \<open>The tags put on the instances.\<close>

definition name_tag :: "string \<Rightarrow> string \<Rightarrow> string \<Rightarrow> string list \<Rightarrow> string" where
  "name_tag username binary digest_short args =
     (let tag = username @ '':'' @ binary @ ''('' @ digest_short @ '') '' @ Join args '' '' @ '' (bigmachine)''
      in if length tag > 250 then take 250 tag @ ''...'' else tag)"

definition instance_tags :: "('k, 'c, 'p) ec2sys \<Rightarrow> string \<Rightarrow> string \<Rightarrow> string \<times> string \<Rightarrow> string \<Rightarrow> string list \<Rightarrow> (string \<times> string) list" where
  "instance_tags s goos goarch digest arg0 args =
     (let binary = path_Base arg0
      in [(''Name'', name_tag (Username s) binary (fst digest) args), (''GOARCH'', goarch), (''GOOS'', goos),
          (''Digest'', snd digest), (''bigmachine'', ''true''), (''bigmachine:binary'', binary)] @ AdditionalEC2Tags s)"

subsection \<open>The other operations\<close>

definition ec2_Name :: string where "ec2_Name = ''ec2''"

definition ec2_Maxprocs :: "('k, 'c, 'p) ec2sys \<Rightarrow> int" where "ec2_Maxprocs s = int (it_VCPU (ec2_config s))"

definition ec2_KeepaliveConfig :: "'s \<Rightarrow> duration \<times> duration \<times> duration" where
  "ec2_KeepaliveConfig s = (Minute, 10 * Minute, 2 * Minute)"

definition httpTimeout :: duration where "httpTimeout = 30 * Second"

text \<open>\<open>HTTPClient\<close>: the TLS configuration is made once, a failure included, which ends the process. The protocols offered.\<close>

definition ec2_HTTPClient :: "('k, 'c) x509lib \<Rightarrow> err option \<Rightarrow> nat \<Rightarrow> time \<Rightarrow> ('k, 'c, 'p) ec2sys
    \<Rightarrow> (tls_config \<times> string list \<times> duration) outcome \<times> ('k, 'c, 'p) ec2sys" where
  "ec2_HTTPClient X transport_err rnd now s =
     (case (case clientOnce s of
              Some r \<Rightarrow> Ok s
            | None \<Rightarrow>
                (case ec2_authority s of
                   None \<Rightarrow> Panic ''nil pointer dereference''
                 | Some ca \<Rightarrow>
                     (case HTTPSConfig X ca rnd now of
                        Inl err \<Rightarrow> Ok (s\<lparr>clientOnce := Some (Some err), clientConfig := None\<rparr>)
                      | Inr (client, server) \<Rightarrow> Ok (s\<lparr>clientOnce := Some None, clientConfig := Some client\<rparr>)))) of
        Panic msg \<Rightarrow> (Panic msg, s)
      | Ok s \<Rightarrow>
          (case (clientOnce s, clientConfig s) of
             (Some None, Some config) \<Rightarrow>
               (case transport_err of
                  Some err \<Rightarrow> (Panic ''error configuring transport'', s)
                | None \<Rightarrow> (Ok (config, [''h2'', ''http/1.1''], httpTimeout), s))
           | _ \<Rightarrow> (Panic ''error build TLS configuration'', s)))"

text \<open>\<open>ListenAndServe\<close> up to the listening, with the prefix stripped from the paths of requests.\<close>

definition ec2_ListenAndServe :: "('k, 'c) x509lib \<Rightarrow> string \<Rightarrow> bool \<Rightarrow> err option \<Rightarrow> err + string \<Rightarrow> string \<Rightarrow> err option \<Rightarrow> nat \<Rightarrow> time
    \<Rightarrow> ('k, 'c, 'p) ec2sys \<Rightarrow> listen_result \<times> string" where
  "ec2_ListenAndServe X env_addr idSuffix session_err identity addr http2_err rnd now s =
     (let addr = (if addr = '''' then env_addr else addr)
      in if addr = '''' then (LError (ErrE [Kind Invalid, Str ''no address defined'']), '''')
         else case ec2_authority s of
                None \<Rightarrow> (LPanic ''nil pointer dereference'', '''')
              | Some ca \<Rightarrow>
             (case HTTPSConfig X ca rnd now of
                Inl err \<Rightarrow> (LError err, '''')
              | Inr (client, config) \<Rightarrow>
             (case (if idSuffix then (case session_err of Some err \<Rightarrow> Inl err | None \<Rightarrow> map_sum id (\<lambda>i. ''/'' @ i) identity) else Inr '''') of
                Inl err \<Rightarrow> (LError err, '''')
              | Inr pfx \<Rightarrow>
                  (case http2_err of
                     Some err \<Rightarrow> (LError err, '''')
                   | None \<Rightarrow> (LServe addr (config\<lparr>RequireClientCert := True\<rparr>) maxConcurrentStreams, pfx)))))"

text \<open>\<open>http.StripPrefix\<close>: None is a 404 response.\<close>

definition strip_prefix :: "string \<Rightarrow> string \<Rightarrow> string option" where
  "strip_prefix pfx path =
     (if pfx = '''' then Some path else if HasPrefix path pfx then Some (drop (length pfx) path) else None)"

subsection \<open>SSH\<close>

fun ssh_user :: "Flavor \<Rightarrow> string" where
  "ssh_user Flatcar = ''core''"
| "ssh_user Ubuntu = ''ubuntu''"
| "ssh_user (FlavorValue n) = ''root''"

record 'w sshlib =
  ssh_Signer :: "'w \<Rightarrow> err option"
  ssh_Dial :: "string \<Rightarrow> string \<Rightarrow> 'w \<Rightarrow> err option \<times> 'w"    \<comment> \<open>address, user\<close>
  ssh_NewSession :: "'w \<Rightarrow> err option \<times> 'w"
  ssh_Run :: "string \<Rightarrow> 'w \<Rightarrow> (bytes \<times> err option) \<times> 'w"   \<comment> \<open>output and result of a command\<close>
  ssh_Wait :: "nat \<Rightarrow> 'w \<Rightarrow> err option \<times> 'w"               \<comment> \<open>\<open>retry.Wait\<close>\<close>
  err_Error :: "err \<Rightarrow> string"
  is_ExitError :: "err \<Rightarrow> bool"

definition dialSSH :: "'w sshlib \<Rightarrow> ('k, 'c, 'p) ec2sys \<Rightarrow> string \<Rightarrow> 'w \<Rightarrow> err option \<times> 'w" where
  "dialSSH L s addr w =
     (case ssh_Signer L w of
        Some err \<Rightarrow> (Some err, w)
      | None \<Rightarrow> ssh_Dial L (addr @ '':22'') (ssh_user (Flavor s)) w)"

text \<open>\<open>runSSH\<close>: the output written to the pipe and the error.\<close>

definition runSSH :: "'w sshlib \<Rightarrow> ('k, 'c, 'p) ec2sys \<Rightarrow> string \<Rightarrow> string \<Rightarrow> bytes \<times> 'w \<Rightarrow> err option \<times> bytes \<times> 'w" where
  "runSSH L s addr command ow =
     (case ow of (out, w) \<Rightarrow>
        (case dialSSH L s addr w of
           (Some err, w) \<Rightarrow> (Some err, out, w)
         | (None, w) \<Rightarrow>
             (case ssh_NewSession L w of
                (Some err, w) \<Rightarrow> (Some err, out, w)
              | (None, w) \<Rightarrow> (case ssh_Run L command w of ((b, r), w) \<Rightarrow> (r, out @ b, w)))))"

definition run_final :: "'w sshlib \<Rightarrow> nat \<Rightarrow> err option \<Rightarrow> err option option" where
  "run_final L n r =
     (case r of
        None \<Rightarrow> Some None
      | Some err \<Rightarrow>
          if HasPrefix (err_Error L err) ''ssh: unable to authenticate'' then Some (Some err)
          else if is_ExitError L err then Some (Some err)
          else None)"

text \<open>\<open>run\<close>: what the reader gets, the output of all tries, and the error the pipe is closed with.\<close>

definition ec2_run :: "'w sshlib \<Rightarrow> ('k, 'c, 'p) ec2sys \<Rightarrow> string \<Rightarrow> string \<Rightarrow> 'w \<Rightarrow> (err option \<times> bytes \<times> 'w) option" where
  "ec2_run L s addr command w =
     retry (runSSH L s addr command) (run_final L) (\<lambda>n (out, w). case ssh_Wait L n w of (r, w) \<Rightarrow> (r, out, w)) Some 0 ([], w)"

definition ec2_Tail :: "'w sshlib \<Rightarrow> (string \<Rightarrow> err + string) \<Rightarrow> ('k, 'c, 'p) ec2sys \<Rightarrow> 'i machine \<Rightarrow> 'w \<Rightarrow> err + (err option \<times> bytes \<times> 'w) option" where
  "ec2_Tail L url_Hostname s m w =
     (case url_Hostname (Addr m) of
        Inl err \<Rightarrow> Inl err
      | Inr host \<Rightarrow> Inr (ec2_run L s host ''sudo journalctl --output=cat -n all -f -u bootmachine'' w))"

definition ec2_Read :: "'w sshlib \<Rightarrow> (string \<Rightarrow> err + string) \<Rightarrow> ('k, 'c, 'p) ec2sys \<Rightarrow> 'i machine \<Rightarrow> string \<Rightarrow> 'w \<Rightarrow> err + (err option \<times> bytes \<times> 'w) option" where
  "ec2_Read L url_Hostname s m filename w =
     (case url_Hostname (Addr m) of
        Inl err \<Rightarrow> Inl err
      | Inr host \<Rightarrow> Inr (ec2_run L s host (''cat '' @ filename) w))"

subsection \<open>Spot actions\<close>

text \<open>One tick of \<open>monitorSpotActions\<close>: the response and its body, the limited log buffer being a parameter.\<close>

datatype spot_resp = SpotErr err | SpotStatus int "bytes \<times> err option"

fun spot_tick :: "(bytes \<Rightarrow> string) \<Rightarrow> spot_resp \<Rightarrow> string list" where
  "spot_tick limited (SpotErr err) = []"
| "spot_tick limited (SpotStatus code (body, r)) =
     (if code \<noteq> 200 then []
      else if length body < 513 \<and> r \<noteq> None then [''error reading meta-data/spot/instance-action response body'']
      else [''spot instance action: '' @ limited (take 513 body)])"

definition monitorSpotActions :: "(bytes \<Rightarrow> string) \<Rightarrow> spot_resp list \<Rightarrow> string list" where
  "monitorSpotActions limited ticks = concat (map (spot_tick limited) ticks)"

subsection \<open>The System interface\<close>

text \<open>\<open>Start\<close> as the interface has it. Where it panics or does not return no caller goes on, and any value does.\<close>

definition ec2_sys_Start :: "'w ec2env \<Rightarrow> nat \<Rightarrow> ('k, 'c, 'p) ec2sys \<times> 'w estate \<Rightarrow> (err + 'i machine list) \<times> ('k, 'c, 'p) ec2sys \<times> 'w estate" where
  "ec2_sys_Start env count se =
     (case ec2_Start env count (fst se) (snd se) of
        Some (Ok r, e) \<Rightarrow> (r, fst se, e)
      | _ \<Rightarrow> (Inl (Opaque ''no return''), se))"

lemma ec2_machines_Inr:
  "ec2_machines idSuffix s i insts e = (Inr ms, e') \<Longrightarrow>
     ms = map (ec2_machine idSuffix s) insts \<and> list_all (\<lambda>inst. getAddress inst \<noteq> '''') insts"
proof (induction insts arbitrary: i ms e)
  case (Cons inst insts)
  then show ?case by (fastforce simp: Let_def split: if_splits prod.splits sum.splits)
qed simp

lemma await_instances_Inr:
  assumes "await_instances api idSuffix s ids e = (Inr ms, e')"
  obtains (swallowed) err w where "WaitInstanceRunning api ids (es_world e) = (Some err, w)" "ms = []"
  | (running) w insts w' where "WaitInstanceRunning api ids (es_world e) = (None, w)" "DescribeInstances api ids w = (Inr [insts], w')"
      "length insts = length ids" "ms = map (ec2_machine idSuffix s) insts" "list_all (\<lambda>inst. getAddress inst \<noteq> '''') insts"
proof -
  obtain r w where r: "WaitInstanceRunning api ids (es_world e) = (r, w)" by fastforce
  obtain d w' where d: "DescribeInstances api ids w = (d, w')" by fastforce
  show thesis
  proof (cases r)
    case None
    then obtain reservs where rv: "d = Inr reservs" "length reservs = 1" "length (hd reservs) = length ids"
        "ec2_machines idSuffix s 0 (hd reservs) (e\<lparr>es_world := w'\<rparr>) = (Inr ms, e')"
      using assms r d by (auto simp: await_instances_def Let_def split: sum.splits if_splits)
    then obtain insts where "reservs = [insts]" by (cases reservs) auto
    with rv show thesis using running r d None ec2_machines_Inr by fastforce
  next
    case (Some err)
    then have "ms = []" using assms r d by (auto simp: await_instances_def Let_def split: sum.splits)
    then show thesis using swallowed r Some by blast
  qed
qed

lemma ec2_Start_Inr:
  assumes "ec2_Start env count s e = Some (Ok (Inr ms), e')"
  obtains ids e1 where "await_instances (ee_api env) (ee_idSuffix env) s ids e1 = (Inr ms, e')"
  using assms by (auto simp: ec2_Start_def Let_def split: outcome.splits sum.splits prod.splits option.splits)

lemma fresh_ec2_machine: "fresh_machine (ec2_machine idSuffix s inst)"
  by (simp add: fresh_machine_def ec2_machine_def new_machine_def)

lemma ec2_sys_Start_fresh:
  assumes s: "ec2_sys_Start env n se = (Inr ms, se')" and m: "m \<in> set ms"
  shows "fresh_machine m"
proof -
  have "ec2_Start env n (fst se) (snd se) = Some (Ok (Inr ms), snd se')"
    using s by (auto simp: ec2_sys_Start_def split: option.splits prod.splits outcome.splits)
  then obtain ids e1 where "await_instances (ee_api env) (ee_idSuffix env) (fst se) ids e1 = (Inr ms, snd se')"
    by (rule ec2_Start_Inr)
  then show "fresh_machine m" using m by (cases rule: await_instances_Inr) (auto simp: fresh_ec2_machine)
qed

interpretation esys: bm_system ec2_sys_Start ec2_KeepaliveConfig
  by unfold_locales (auto simp: ec2_KeepaliveConfig_def duration_defs dest: ec2_sys_Start_fresh)

text \<open>Machines that a session starts on EC2 are owned, handed to their loops unstarted, and kept alive with the periods of the EC2 system: every
  minute, for at most ten minutes without a reply.\<close>

theorem ec2_session_Start:
  assumes "session_Start ec2_sys_Start ec2_KeepaliveConfig env n ps se b = (Inr rs, se', b')" and "r \<in> set rs"
  shows "1 \<le> length rs \<and> owner (heap b' ! r) \<and> state (heap b' ! r) = Unstarted \<and> services (heap b' ! r) \<noteq> [] \<and>
    keepalivePeriod (heap b' ! r) = Minute \<and> keepaliveTimeout (heap b' ! r) = 10 * Minute \<and>
    keepaliveRpcTimeout (heap b' ! r) = 2 * Minute"
  using esys.session_Start_machines [OF assms(1)] assms(2) by (auto simp: ec2_KeepaliveConfig_def)

subsection \<open>Properties of Start\<close>

text \<open>The witnesses' world: every call succeeds, with one instance.\<close>

definition demo_inst :: ec2inst where
  "demo_inst = \<lparr>inst_id = Some ''i-1'', PublicDnsName = Some '''', PublicIpAddress = Some ''1.2.3.4'', PrivateIpAddress = None\<rparr>"

definition demo_api :: "nat ec2api" where
  "demo_api = \<lparr>DescribeImages = (\<lambda>ami w. (Inr [(Some ami, None)], w)), RunInstances = (\<lambda>i w. (Inr [''i-1''], w)),
     RequestSpotInstances = (\<lambda>i w. (Inr [''r-1''], w)), WaitSpotFulfilled = (\<lambda>rs w. (None, w)),
     DescribeSpotRequests = (\<lambda>rs w. (Inr [Some ''i-1''], w)), WaitInstanceRunning = (\<lambda>ids w. (None, w)),
     DescribeInstances = (\<lambda>ids w. (Inr [[demo_inst]], w)), limiter_Wait = (\<lambda>w. (None, w)), retry_Wait = (\<lambda>n w. (None, w)),
     api_Now = (\<lambda>w. 0), aws_Code = (\<lambda>msg. if msg = ''slow down'' then Some ''RequestLimitExceeded'' else None)\<rparr>"

definition demo_estate :: "nat estate" where
  "demo_estate = \<lparr>es_described = Map.empty, es_images = Map.empty, es_events = [], es_world = 0\<rparr>"

definition demo_env :: "nat ec2env" where
  "demo_env = \<lparr>ee_api = demo_api, ee_yaml = (\<lambda>c. Inr ''yaml''), ee_immortal = False, ee_idSuffix = True\<rparr>"

text \<open>The errors of \<open>run\<close> are all wrapped, and no wrapped error is one of the SDK.\<close>

lemma run_ondemand_wrapped: "run_ondemand api inp e = (Inl err, e') \<Longrightarrow> awserr_code api err = None"
  by (auto simp: run_ondemand_def awserr_code_def Let_def split: prod.splits sum.splits if_splits)

lemma run_spot_wrapped:
  assumes "run_spot api s inp e = (Ok (Inl err), e')"
  shows "awserr_code api err = None"
proof -
  obtain resp w1 where "RequestSpotInstances api (run_input.extend inp \<lparr>si_ValidUntil = api_Now api (es_world e) + Minute,
      si_SpotPrice = fmt3 (it_Price (ec2_config s) (ec2_region s))\<rparr>) (es_world e) = (resp, w1)" by fastforce
  then show ?thesis using assms
    by (auto simp: run_spot_def awserr_code_def Let_def split: sum.splits if_splits prod.splits option.splits)
qed

lemma launch_attempt_final:
  assumes "launch_attempt api s inp e = (a, e')"
  shows "\<exists>out. launch_final api n a = Some out"
proof (cases a)
  case (Ran r)
  show ?thesis
  proof (cases r)
    case (Ok x)
    show ?thesis
    proof (cases x)
      case (Inl err)
      then have "awserr_code api err = None"
        using assms Ran Ok by (auto simp: launch_attempt_def Let_def split: prod.splits option.splits if_splits
            dest: run_ondemand_wrapped run_spot_wrapped)
      then show ?thesis using Ran Ok Inl by simp
    qed (use Ran Ok in simp)
  qed (use Ran in simp)
qed simp

text \<open>The launch loop returns after one round, whatever the API answers: every error of \<open>run\<close> is wrapped before the loop
  looks for the code of an AWS error, so that the retry on \<open>RequestLimitExceeded\<close> never takes place.\<close>

theorem launch_once:
  "\<exists>a out. fst (launch_attempt api s inp e) = a \<and> launch_final api 0 a = Some out \<and>
     launch api s inp e = Some (out, snd (launch_attempt api s inp e))"
proof -
  obtain a e' where a: "launch_attempt api s inp e = (a, e')" by fastforce
  then obtain out where "launch_final api 0 a = Some out" using launch_attempt_final by blast
  then show ?thesis using a by (simp add: launch_def retry.simps)
qed

text \<open>An error of the API while an image is described stays for good: it is not one of the repository's own errors, so it
  is not forgotten, and every later start with that image fails with it without asking again.\<close>

theorem describe_error_sticks:
  assumes "es_described e ami = None" and "DescribeImages api ami (es_world e) = (Inl (Opaque msg), w)"
    and "es_described e2 ami = es_described (snd (root_device api ami e)) ami"
  shows "root_device api2 ami e2 = (Ok (Inl (ErrE [Str ''describe-images'', Str ami, Err (Opaque msg)])), e2)"
  using assms by (simp add: root_device_def describe_image_def)

theorem describe_error_sticks_witness:
  "let api1 = demo_api\<lparr>DescribeImages := \<lambda>ami w. (Inl (Opaque ''timeout''), w)\<rparr>; e1 = snd (root_device api1 ''ami-1'' demo_estate)
   in root_device demo_api ''ami-1'' e1 = (Ok (Inl (ErrE [Str ''describe-images'', Str ''ami-1'', Err (Opaque ''timeout'')])), e1)"
  using describe_error_sticks [of demo_estate "''ami-1''" "demo_api\<lparr>DescribeImages := \<lambda>ami w. (Inl (Opaque ''timeout''), w)\<rparr>" "''timeout''" 0
      "snd (root_device (demo_api\<lparr>DescribeImages := \<lambda>ami w. (Inl (Opaque ''timeout''), w)\<rparr>) ''ami-1'' demo_estate)" demo_api]
  by (simp add: demo_estate_def Let_def)

text \<open>What the conversation with EC2 was when a start succeeds.\<close>

lemma ec2_Event_world [simp]: "es_world (ec2_Event s typ fs e) = es_world e"
  by (simp add: ec2_Event_def)

lemma spot_ids_Ok:
  "spot_ids s reqs insts e = (Ok ids, e') \<Longrightarrow>
     length reqs \<le> length insts \<and> ids = map StringValue (take (length reqs) insts) \<and> es_world e' = es_world e"
proof (induction s reqs insts e arbitrary: ids e' rule: spot_ids.induct)
  case (3 s r rs i "is" e)
  obtain out e1 where o: "spot_ids s rs is (ec2_Event s ''bigmachine:ec2:spotInstanceRequestFulfill'' [(''requestID'', r), (''instanceID'', StringValue i)] e) = (out, e1)"
    by fastforce
  then obtain ids1 where "out = Ok ids1" "ids = StringValue i # ids1" "e' = e1" using 3(2) by (cases out) auto
  then show ?case using 3(1) [OF refl, of ids1 e1] o by simp
qed auto

lemma run_spot_Inr:
  assumes "run_spot api s inp e = (Ok (Inr ids), e')"
  obtains reqs wa wb insts where
    "RequestSpotInstances api (run_input.extend inp \<lparr>si_ValidUntil = api_Now api (es_world e) + Minute,
       si_SpotPrice = fmt3 (it_Price (ec2_config s) (ec2_region s))\<rparr>) (es_world e) = (Inr reqs, wa)" "reqs \<noteq> []"
    "WaitSpotFulfilled api reqs wa = (None, wb)" "DescribeSpotRequests api reqs wb = (Inr insts, es_world e')"
    "length reqs \<le> length insts" "ids = map StringValue (take (length reqs) insts)"
proof -
  obtain resp wa where r: "RequestSpotInstances api (run_input.extend inp \<lparr>si_ValidUntil = api_Now api (es_world e) + Minute,
       si_SpotPrice = fmt3 (it_Price (ec2_config s) (ec2_region s))\<rparr>) (es_world e) = (resp, wa)" by fastforce
  then obtain reqs where reqs: "resp = Inr reqs" "reqs \<noteq> []" using assms by (auto simp: run_spot_def Let_def split: sum.splits if_splits)
  obtain f wb where f: "WaitSpotFulfilled api reqs wa = (f, wb)" by fastforce
  obtain d wc where d: "DescribeSpotRequests api reqs wb = (d, wc)" by fastforce
  have fd: "f = None" "\<exists>insts. d = Inr insts"
    using assms r reqs f d by (auto simp: run_spot_def Let_def split: option.splits sum.splits)
  then obtain insts where insts: "d = Inr insts" by blast
  obtain out e1 where o: "spot_ids s reqs insts (e\<lparr>es_world := wc\<rparr>) = (out, e1)" by fastforce
  then have "out = Ok ids" "e1 = e'" using assms r reqs f d fd(1) insts by (cases out; simp add: run_spot_def Let_def)+
  then have ids: "length reqs \<le> length insts" "ids = map StringValue (take (length reqs) insts)" "wc = es_world e'"
    using spot_ids_Ok [of s reqs insts "e\<lparr>es_world := wc\<rparr>" ids e'] o by simp_all
  show thesis by (rule that [OF r [unfolded reqs(1)] reqs(2) f [unfolded fd(1)] d [unfolded insts ids(3)] ids(1,2)])
qed

lemma run_ondemand_Inr: "run_ondemand api inp e = (Inr ids, e') \<Longrightarrow> RunInstances api inp (es_world e) = (Inr ids, es_world e') \<and> ids \<noteq> []"
  by (auto simp: run_ondemand_def Let_def split: prod.splits sum.splits if_splits)

lemma launch_Inr:
  assumes "launch api s inp e = Some (Ok (Inr ids), e')"
  obtains w0 where "limiter_Wait api (es_world e) = (None, w0)"
    "if OnDemand s then run_ondemand api inp (e\<lparr>es_world := w0\<rparr>) = (Inr ids, e') else run_spot api s inp (e\<lparr>es_world := w0\<rparr>) = (Ok (Inr ids), e')"
proof -
  obtain a e1 where a: "launch_attempt api s inp e = (a, e1)" by fastforce
  have "launch_final api 0 a = Some (Ok (Inr ids))" "e1 = e'" using launch_once [of api s inp e] assms a by auto
  then have "launch_attempt api s inp e = (Ran (Ok (Inr ids)), e')"
    using a by (auto elim!: launch_final.elims split: if_splits)
  then show thesis using that by (auto simp: launch_attempt_def Let_def split: prod.splits option.splits if_splits)
qed

lemma ec2_machines_world: "ec2_machines idSuffix s i insts e = (r, e') \<Longrightarrow> es_world e' = es_world e"
  by (induction idSuffix s i insts e arbitrary: r rule: ec2_machines.induct) (auto simp: Let_def split: if_splits prod.splits sum.splits)

lemma await_instances_world:
  assumes "await_instances api idSuffix s ids e = (Inr ms, e')" "WaitInstanceRunning api ids (es_world e) = (r, w)"
  shows "\<exists>reservs. DescribeInstances api ids w = (Inr reservs, es_world e')"
proof -
  obtain d w' where d: "DescribeInstances api ids w = (d, w')" by fastforce
  then obtain reservs where "d = Inr reservs" using assms by (auto simp: await_instances_def Let_def split: option.splits sum.splits)
  then show ?thesis using assms d ec2_machines_world [of idSuffix s 0 "hd reservs" "e\<lparr>es_world := w'\<rparr>" "Inr ms" e']
    by (auto simp: await_instances_def Let_def split: option.splits if_splits)
qed

lemma ec2_Start_conversation:
  assumes "ec2_Start env count s e = Some (Ok (Inr ms), e')"
  obtains c userData d e0 ids e1 where "ec2_cloudConfig (ee_immortal env) s = Ok c" "Marshal (ee_yaml env) c = Inr userData"
    "root_device (ee_api env) (AMI s) e = (Ok (Inr d), e0)"
    "launch (ee_api env) s (launch_input s (blockDevices d s) userData count) e0 = Some (Ok (Inr ids), e1)"
    "await_instances (ee_api env) (ee_idSuffix env) s ids e1 = (Inr ms, e')"
  using assms by (auto simp: ec2_Start_def Let_def split: outcome.splits sum.splits prod.splits option.splits)

lemma launch_conversation:
  assumes "launch api s inp e = Some (Ok (Inr ids), e')"
  shows "ids \<noteq> [] \<and> (\<exists>w0. limiter_Wait api (es_world e) = (None, w0) \<and>
    (if OnDemand s then RunInstances api inp w0 = (Inr ids, es_world e')
     else \<exists>sinp reqs wa wb insts. run_input.truncate sinp = inp \<and> si_ValidUntil sinp = api_Now api w0 + Minute \<and>
        RequestSpotInstances api sinp w0 = (Inr reqs, wa) \<and> WaitSpotFulfilled api reqs wa = (None, wb) \<and>
        DescribeSpotRequests api reqs wb = (Inr insts, es_world e') \<and> length reqs \<le> length insts \<and> ids = map StringValue (take (length reqs) insts)))"
proof -
  obtain w0 where w0: "limiter_Wait api (es_world e) = (None, w0)"
    "if OnDemand s then run_ondemand api inp (e\<lparr>es_world := w0\<rparr>) = (Inr ids, e') else run_spot api s inp (e\<lparr>es_world := w0\<rparr>) = (Ok (Inr ids), e')"
    using assms by (rule launch_Inr)
  show ?thesis
  proof (cases "OnDemand s")
    case True
    then show ?thesis using w0 run_ondemand_Inr [of api inp "e\<lparr>es_world := w0\<rparr>" ids e'] by simp
  next
    case False
    let ?sinp = "run_input.extend inp \<lparr>si_ValidUntil = api_Now api w0 + Minute, si_SpotPrice = fmt3 (it_Price (ec2_config s) (ec2_region s))\<rparr>"
    have sinp: "run_input.truncate ?sinp = inp" "si_ValidUntil ?sinp = api_Now api w0 + Minute" by (simp_all add: run_input.defs)
    have world: "es_world (e\<lparr>es_world := w0\<rparr>) = w0" by simp
    have spot: "run_spot api s inp (e\<lparr>es_world := w0\<rparr>) = (Ok (Inr ids), e')" using False w0(2) by simp
    obtain reqs wa wb insts where c: "RequestSpotInstances api ?sinp w0 = (Inr reqs, wa)" "reqs \<noteq> []"
      "WaitSpotFulfilled api reqs wa = (None, wb)" "DescribeSpotRequests api reqs wb = (Inr insts, es_world e')"
      "length reqs \<le> length insts" "ids = map StringValue (take (length reqs) insts)"
      by (rule run_spot_Inr [OF spot, unfolded world])
    then have "ids \<noteq> []" by auto
    then show ?thesis using False w0(1) sinp c by simp blast
  qed
qed

lemma await_conversation:
  assumes "await_instances api idSuffix s ids e = (Inr ms, e')"
  shows "\<exists>r w2. WaitInstanceRunning api ids (es_world e) = (r, w2) \<and>
    (case r of
       Some err \<Rightarrow> ms = [] \<and> (\<exists>reservs. DescribeInstances api ids w2 = (Inr reservs, es_world e'))
     | None \<Rightarrow> \<exists>insts. DescribeInstances api ids w2 = (Inr [insts], es_world e') \<and> length insts = length ids \<and> length ms = length ids \<and>
         (\<forall>i < length ids. getAddress (insts ! i) \<noteq> '''' \<and> Maxprocs (ms ! i) = int (it_VCPU (ec2_config s)) \<and>
            Addr (ms ! i) = ''https://'' @ getAddress (insts ! i) @ ''/'' @ (if idSuffix then StringValue (inst_id (insts ! i)) @ ''/'' else [])))"
proof -
  obtain r w2 where r: "WaitInstanceRunning api ids (es_world e) = (r, w2)" by fastforce
  note world = await_instances_world [OF assms r]
  from assms show ?thesis
  proof (cases rule: await_instances_Inr)
    case (swallowed err w)
    then show ?thesis using r world by auto
  next
    case (running w insts w')
    then have "DescribeInstances api ids w2 = (Inr [insts], es_world e')" using r world by auto
    then show ?thesis using r running by (auto simp: list_all_length ec2_machine_def new_machine_def ec2_addr_def)
  qed
qed

text \<open>C27. What a successful start has asked for and gives. The cloud config could be built; after the image was described and the rate limiter had let it pass, \<open>Start\<close> has asked once
  for up to the given number of instances of the configured type and image, booted with that config, either on demand or by spot requests that it
  then waited for and described, and has got at least one. Either the wait for these very instances succeeded, their description is one reservation with as many
  instances, and there is one machine for each of them in the same order, addressed by the first known of its public name, public and private address (and its identity, with
  the flag) and sized by the instance type; or the wait failed, and no machine is returned, without an error.\<close>

theorem ec2_Start_machines:
  assumes "ec2_Start env n s e = Some (Ok (Inr ms), e')"
  shows "\<exists>inp c userData w0 ids w1 r w2.
    ec2_cloudConfig (ee_immortal env) s = Ok c \<and> Marshal (ee_yaml env) c = Inr userData \<and> ri_UserData inp = base64 userData \<and>
    ri_MaxCount inp = int n \<and> ri_MinCount inp = 1 \<and> ri_Image inp = AMI s \<and> ri_InstanceType inp = it_Name (ec2_config s) \<and>
    limiter_Wait (ee_api env) (es_world (snd (root_device (ee_api env) (AMI s) e))) = (None, w0) \<and> ids \<noteq> [] \<and>
    (if OnDemand s then RunInstances (ee_api env) inp w0 = (Inr ids, w1)
     else \<exists>sinp reqs wa wb insts. run_input.truncate sinp = inp \<and> si_ValidUntil sinp = api_Now (ee_api env) w0 + Minute \<and>
        RequestSpotInstances (ee_api env) sinp w0 = (Inr reqs, wa) \<and> WaitSpotFulfilled (ee_api env) reqs wa = (None, wb) \<and>
        DescribeSpotRequests (ee_api env) reqs wb = (Inr insts, w1) \<and> length reqs \<le> length insts \<and> ids = map StringValue (take (length reqs) insts)) \<and>
    WaitInstanceRunning (ee_api env) ids w1 = (r, w2) \<and>
    (case r of
       Some err \<Rightarrow> ms = [] \<and> (\<exists>reservs. DescribeInstances (ee_api env) ids w2 = (Inr reservs, es_world e'))
     | None \<Rightarrow> \<exists>insts. DescribeInstances (ee_api env) ids w2 = (Inr [insts], es_world e') \<and> length insts = length ids \<and> length ms = length ids \<and>
         (\<forall>i < length ids. getAddress (insts ! i) \<noteq> '''' \<and> Maxprocs (ms ! i) = int (it_VCPU (ec2_config s)) \<and>
            Addr (ms ! i) = ''https://'' @ getAddress (insts ! i) @ ''/'' @ (if ee_idSuffix env then StringValue (inst_id (insts ! i)) @ ''/'' else [])))"
proof -
  obtain c userData d e0 ids e1 where st: "ec2_cloudConfig (ee_immortal env) s = Ok c" "Marshal (ee_yaml env) c = Inr userData"
    "root_device (ee_api env) (AMI s) e = (Ok (Inr d), e0)"
    "launch (ee_api env) s (launch_input s (blockDevices d s) userData n) e0 = Some (Ok (Inr ids), e1)"
    "await_instances (ee_api env) (ee_idSuffix env) s ids e1 = (Inr ms, e')"
    using assms by (rule ec2_Start_conversation)
  let ?inp = "launch_input s (blockDevices d s) userData n"
  have inp: "ri_UserData ?inp = base64 userData" "ri_MaxCount ?inp = int n" "ri_MinCount ?inp = 1" "ri_Image ?inp = AMI s"
    "ri_InstanceType ?inp = it_Name (ec2_config s)" by (simp_all add: launch_input_def)
  have world: "es_world (snd (root_device (ee_api env) (AMI s) e)) = es_world e0" using st(3) by simp
  show ?thesis unfolding world using st(1,2) inp launch_conversation [OF st(4)] await_conversation [OF st(5)] by blast
qed

lemma sliceConfig_cong: "Dataspace s = Dataspace t \<Longrightarrow> sliceConfig s = sliceConfig t"
  by (simp add: sliceConfig_def Let_def)

lemma demo_Start:
  "\<exists>e'. ec2_Start demo_env 1 (one_tib\<lparr>OnDemand := True\<rparr>) demo_estate = Some (Ok (Inr [ec2_machine True (one_tib\<lparr>OnDemand := True\<rparr>) demo_inst]), e')"
proof -
  have "sliceConfig (one_tib\<lparr>OnDemand := True\<rparr>) = (3, 335)" 
    using one_tib_slices by (subst sliceConfig_cong [of _ one_tib]) simp_all
  then obtain c where c: "ec2_cloudConfig False (one_tib\<lparr>OnDemand := True\<rparr>) = Ok c"
    using ec2_cloudConfig_Ok [of "one_tib\<lparr>OnDemand := True\<rparr>" False] by (auto simp: one_tib_def)
  have a: "getAddress demo_inst \<noteq> ''''" by (simp add: getAddress_def demo_inst_def StringValue_def)
  show ?thesis using a
    by (simp add: ec2_Start_def demo_env_def c Marshal_def root_device_def describe_image_def demo_api_def demo_estate_def StringValue_def
        launch_def retry.simps launch_attempt_def run_ondemand_def await_instances_def Let_def)
qed

theorem ec2_Start_machines_witness:
  "\<exists>m e'. ec2_Start demo_env 1 (one_tib\<lparr>OnDemand := True\<rparr>) demo_estate = Some (Ok (Inr [m :: unit machine]), e') \<and>
     Addr m = ''https://1.2.3.4/i-1/'' \<and> Maxprocs m = int (it_VCPU (ec2_config one_tib))"
proof -
  let ?s = "one_tib\<lparr>OnDemand := True\<rparr>"
  obtain e' where s: "ec2_Start demo_env 1 ?s demo_estate = Some (Ok (Inr [ec2_machine True ?s demo_inst :: unit machine]), e')" using demo_Start by blast
  define m :: "unit machine" where "m = ec2_machine True ?s demo_inst"
  have sel: "ee_api demo_env = demo_api" "ee_idSuffix demo_env = True" "RunInstances demo_api = (\<lambda>i w. (Inr [''i-1''], w))"
    "WaitInstanceRunning demo_api = (\<lambda>ids w. (None, w))" "DescribeInstances demo_api = (\<lambda>ids w. (Inr [[demo_inst]], w))"
    by (simp_all add: demo_env_def demo_api_def)
  have "getAddress demo_inst = ''1.2.3.4''" "StringValue (inst_id demo_inst) = ''i-1''"
    by (simp_all add: getAddress_def demo_inst_def StringValue_def)
  moreover from ec2_Start_machines [OF s] have "Addr m = ''https://'' @ getAddress demo_inst @ ''/'' @ StringValue (inst_id demo_inst) @ ''/'' \<and>
      Maxprocs m = int (it_VCPU (ec2_config one_tib))"
    unfolding sel m_def [symmetric] by clarsimp
  ultimately show ?thesis using s [folded m_def] by auto
qed

text \<open>A failed wait for the instances goes unreported: when the instances can be described afterwards, the start ends without an
  error and without machines, and the session only says that no machines were started, whatever the cause was.\<close>

theorem wait_failure_unreported:
  assumes "WaitInstanceRunning api ids (es_world e) = (Some err, w)" and "DescribeInstances api ids w = (Inr reservs, w')"
  shows "fst (await_instances api idSuffix s ids e) = Inr ([] :: 'i machine list) \<and>
    fst (B_Start cfg ps (fst (await_instances api idSuffix s ids e)) (b :: 'i B)) =
      Inl (ErrE [Kind Unavailable, Str ''no machines started''])"
  using assms by (simp add: await_instances_def B_Start_def Let_def)

theorem wait_failure_unreported_witness:
  "fst (await_instances (demo_api\<lparr>WaitInstanceRunning := \<lambda>ids w. (Some (Opaque ''terminated''), w)\<rparr>) True one_tib [''i-1''] demo_estate) =
     (Inr [] :: err + unit machine list)"
  using wait_failure_unreported [of "demo_api\<lparr>WaitInstanceRunning := \<lambda>ids w. (Some (Opaque ''terminated''), w)\<rparr>" "[''i-1'']" demo_estate
      "Opaque ''terminated''" 0 "[[demo_inst]]" 0 True one_tib "(1, 1, 1)" "[]" "B_new 0 [] :: unit B"]
  by (simp add: demo_api_def demo_estate_def)

lemma spot_ids_short: "length insts < length reqs \<Longrightarrow> fst (spot_ids s reqs insts e) = Panic ''index out of range''"
  by (induction s reqs insts e rule: spot_ids.induct) (auto simp: Let_def split: prod.splits)

text \<open>A description with fewer spot requests than were made panics: the check of the count compares the number of requests
  with itself.\<close>

theorem short_description_panics:
  assumes "RequestSpotInstances api (run_input.extend inp \<lparr>si_ValidUntil = api_Now api (es_world e) + Minute,
      si_SpotPrice = fmt3 (it_Price (ec2_config s) (ec2_region s))\<rparr>) (es_world e) = (Inr reqs, w1)" "reqs \<noteq> []"
    and "WaitSpotFulfilled api reqs w1 = (None, w2)" "DescribeSpotRequests api reqs w2 = (Inr insts, w3)"
    and "length insts < length reqs"
  shows "fst (run_spot api s inp e) = Panic ''index out of range''"
  using assms by (simp add: run_spot_def Let_def case_prod_beta spot_ids_short)

theorem short_description_panics_witness:
  "fst (run_spot (demo_api\<lparr>DescribeSpotRequests := \<lambda>rs w. (Inr [], w)\<rparr>) one_tib (launch_input one_tib [] [] 1) demo_estate) =
     Panic ''index out of range''"
  by (rule short_description_panics [where reqs = "[''r-1'']" and insts = "[]" and ?w1.0 = 0 and ?w2.0 = 0 and ?w3.0 = 0])
    (simp_all add: demo_api_def demo_estate_def)

text \<open>The name tag fits the limit of EC2 for every user, binary and command line.\<close>

theorem name_tag_bound: "length (name_tag username binary digest_short args) \<le> 253"
proof -
  have "length (if length t > 250 then take 250 t @ ''...'' else t) \<le> 253" for t :: string by simp
  then show ?thesis by (simp only: name_tag_def Let_def)
qed

subsection \<open>Properties of run\<close>

text \<open>The output of a remote command ends without an error only after a try that succeeded; with an authentication failure or
  the exit status of the command as soon as one of them occurs; or with the error of the wait between two tries.\<close>

theorem ec2_run_result:
  assumes "ec2_run L s addr command w = Some (r, out, w')"
  shows "(\<exists>ow. runSSH L s addr command ow = (r, out, w') \<and>
            (\<forall>err. r = Some err \<longrightarrow> HasPrefix (err_Error L err) ''ssh: unable to authenticate'' \<or> is_ExitError L err)) \<or>
         (\<exists>n w1 err. ssh_Wait L n w1 = (Some err, w') \<and> r = Some err)"
  using rt.result_cases [OF assms [unfolded ec2_run_def]]
proof (elim disjE exE conjE)
  fix k ow a
  assume a: "runSSH L s addr command ow = (a, out, w')" "run_final L k a = Some r"
  then have "r = a" "\<forall>err. r = Some err \<longrightarrow> HasPrefix (err_Error L err) ''ssh: unable to authenticate'' \<or> is_ExitError L err"
    by (auto simp: run_final_def split: option.splits if_splits)
  then show ?thesis using a(1) by blast
next
  fix k ow err
  assume "(case ow of (out, w) \<Rightarrow> case ssh_Wait L k w of (r, w) \<Rightarrow> (r, out, w)) = (Some err, out, w')" "r = Some err"
  then have "ssh_Wait L k (snd ow) = (Some err, w')" by (auto split: prod.splits)
  then show ?thesis using \<open>r = Some err\<close> by blast
qed

definition demo_ssh :: "nat sshlib" where
  "demo_ssh = \<lparr>ssh_Signer = (\<lambda>w. None), ssh_Dial = (\<lambda>a u w. (if w < 1 then Some (Opaque ''refused'') else None, w)),
     ssh_NewSession = (\<lambda>w. (None, w)), ssh_Run = (\<lambda>c w. ((''hello'', None), w)), ssh_Wait = (\<lambda>n w. (None, Suc w)),
     err_Error = (\<lambda>e. ''e''), is_ExitError = (\<lambda>e. False)\<rparr>"

theorem ec2_run_result_witness:
  "\<exists>w'. ec2_run demo_ssh one_tib ''h'' ''cat f'' 0 = Some (None, ''hello'', w') \<and>
     ((\<exists>ow. runSSH demo_ssh one_tib ''h'' ''cat f'' ow = (None, ''hello'', w')) \<or> (\<exists>n w1 err. ssh_Wait demo_ssh n w1 = (Some err, w')))"
proof -
  have "ec2_run demo_ssh one_tib ''h'' ''cat f'' 0 = Some (None, ''hello'', 1)"
    by (simp add: ec2_run_def retry.simps runSSH_def dialSSH_def run_final_def demo_ssh_def HasPrefix_def)
  from this ec2_run_result [OF this] show ?thesis by auto
qed

end
