(* ===== verification/Test_System.thy ===== *)
theory Test_System
  imports Bigmachine Io_Util
begin

text \<open>
  The in-process system for tests (\<open>testsystem/testsystem.go\<close>), the second provider of the \<open>System\<close> interface. A
  \<open>*Machine\<close> is known by the number it was allocated under; \<open>killed\<close> logs the machines whose context was canceled
  and whose server was closed by \<open>machine.Kill\<close>. \<open>'sv\<close> is what the machine serves.
\<close>

record ('v, 'w) tmachine =
  tm_id :: nat
  tm_Addr :: string
  tm_server :: "('v, 'w) server"

record ('v, 'w) test_sys =
  Machineprocs :: int
  KeepalivePeriod :: duration
  KeepaliveTimeout :: duration
  KeepaliveRpcTimeout :: duration
  done_closed :: bool
  exited :: bool
  t_machines :: "('v, 'w) tmachine list"
  t_made :: nat
  killed :: "nat list"

definition test_New :: "('v, 'w) test_sys" where
  "test_New = \<lparr>Machineprocs = 1, KeepalivePeriod = 0, KeepaliveTimeout = 0, KeepaliveRpcTimeout = 0,
     done_closed = False, exited = False, t_machines = [], t_made = 0, killed = []\<rparr>"

text \<open>\<open>Wait\<close>: None while it blocks.\<close>

definition test_Wait :: "int \<Rightarrow> ('v, 'w) test_sys \<Rightarrow> int option" where
  "test_Wait n s = (if int (length (t_machines s)) < n then None else Some n)"

definition test_N :: "('v, 'w) test_sys \<Rightarrow> nat" where
  "test_N s = length (t_machines s)"

definition test_Index :: "int \<Rightarrow> ('v, 'w) test_sys \<Rightarrow> nat outcome" where
  "test_Index i s =
     (if 0 \<le> i \<and> i < int (length (t_machines s)) then Ok (tm_id (t_machines s ! nat i)) else Panic ''index out of range'')"

text \<open>\<open>machine.Kill\<close>.\<close>

definition machine_Kill :: "('v, 'w) tmachine \<Rightarrow> ('v, 'w) test_sys \<Rightarrow> ('v, 'w) test_sys" where
  "machine_Kill m s = s\<lparr>killed := killed s @ [tm_id m]\<rparr>"

text \<open>\<open>Kill\<close>, with the index the random source picks.\<close>

fun kill_loop :: "nat \<Rightarrow> ('v, 'w) tmachine list \<Rightarrow> ('v, 'w) tmachine list \<Rightarrow> ('v, 'w) test_sys \<Rightarrow> bool \<times> ('v, 'w) test_sys" where
  "kill_loop m before [] s = (False, s)"
| "kill_loop m before (sm # rest) s =
     (if tm_id sm = m then (True, machine_Kill sm (s\<lparr>t_machines := before @ rest\<rparr>))
      else kill_loop m (before @ [sm]) rest s)"

definition test_Kill :: "nat \<Rightarrow> nat option \<Rightarrow> ('v, 'w) test_sys \<Rightarrow> bool \<times> ('v, 'w) test_sys" where
  "test_Kill rand m s =
     (if t_machines s = [] then (False, s)
      else
        (let m = (case m of None \<Rightarrow> tm_id (t_machines s ! (rand mod length (t_machines s))) | Some m \<Rightarrow> m)
         in kill_loop m [] (t_machines s) s))"

definition test_Shutdown :: "('v, 'w) test_sys \<Rightarrow> ('v, 'w) test_sys outcome" where
  "test_Shutdown s = (if done_closed s then Panic ''close of closed channel'' else Ok (s\<lparr>done_closed := True\<rparr>))"

definition test_Name :: string where "test_Name = ''testsystem''"

definition test_Main :: "err option outcome" where "test_Main = Panic ''Main called on testsystem''"

definition test_ListenAndServe :: "err option outcome" where
  "test_ListenAndServe = Panic ''ListenAndServe called on testsystem''"

text \<open>\<open>Start\<close>, given the URLs of the HTTP servers; \<open>supm\<close> are the methods of a supervisor.\<close>

fun test_loop :: "('v, 'w) rmethod list \<Rightarrow> string list \<Rightarrow> ('v, 'w) test_sys \<Rightarrow> ('i machine list \<times> ('v, 'w) test_sys) outcome" where
  "test_loop supm [] s = Ok ([], s)"
| "test_loop supm (url # urls) s =
     (case Register ''Supervisor'' supm NewServer of
        (Some e, srv) \<Rightarrow> Panic ''register''
      | (None, srv) \<Rightarrow>
          (let m = (new_machine url)\<lparr>Maxprocs := Machineprocs s, NoExec := True\<rparr>;
               s = s\<lparr>t_machines := t_machines s @ [\<lparr>tm_id = t_made s, tm_Addr = url, tm_server = srv\<rparr>], t_made := Suc (t_made s)\<rparr>
           in bind_outcome (test_loop supm urls s) (\<lambda>(ms, s). Ok (m # ms, s))))"

definition test_Start_outcome :: "('v, 'w) rmethod list \<Rightarrow> (nat \<Rightarrow> string) \<Rightarrow> nat \<Rightarrow> ('v, 'w) test_sys
    \<Rightarrow> ('i machine list \<times> ('v, 'w) test_sys) outcome" where
  "test_Start_outcome supm url count s = test_loop supm (map url [0..<count]) s"

definition test_Exit :: "int \<Rightarrow> ('v, 'w) test_sys \<Rightarrow> ('v, 'w) test_sys" where
  "test_Exit code s = s\<lparr>exited := True\<rparr>"

definition test_Exited :: "('v, 'w) test_sys \<Rightarrow> bool" where "test_Exited s = exited s"

definition test_Maxprocs :: "('v, 'w) test_sys \<Rightarrow> int" where "test_Maxprocs s = Machineprocs s"

definition test_KeepaliveConfig :: "('v, 'w) test_sys \<Rightarrow> duration \<times> duration \<times> duration" where
  "test_KeepaliveConfig s =
     (if KeepalivePeriod s = 0 then Minute else KeepalivePeriod s,
      if KeepaliveTimeout s = 0 then 2 * Minute else KeepaliveTimeout s,
      if KeepaliveRpcTimeout s = 0 then 10 * Second else KeepaliveRpcTimeout s)"

definition test_Tail :: "err + reader" where "test_Tail = Inl (ErrE [Kind NotSupported])"

definition test_Read :: "err + reader \<Rightarrow> err + closingReader" where
  "test_Read open_result = (case open_result of Inl e \<Rightarrow> Inl e | Inr f \<Rightarrow> Inr (NewClosingReader f))"

subsection \<open>The System interface\<close>

text \<open>\<open>Start\<close> as the interface has it; registering the supervisor on a new server cannot fail, so it does not panic.\<close>

definition test_Start :: "('v, 'w) rmethod list \<times> (nat \<Rightarrow> string) \<Rightarrow> nat \<Rightarrow> ('v, 'w) test_sys
    \<Rightarrow> (err + 'i machine list) \<times> ('v, 'w) test_sys" where
  "test_Start e count s =
     (case test_Start_outcome (fst e) (snd e) count s of
        Ok (ms, s) \<Rightarrow> (Inr ms, s)
      | Panic msg \<Rightarrow> (Inl (Opaque msg), s))"

definition test_machine :: "int \<Rightarrow> string \<Rightarrow> 'i machine" where
  "test_machine procs url = (new_machine url)\<lparr>Maxprocs := procs, NoExec := True\<rparr>"

definition test_entries :: "('v, 'w) rmethod list \<Rightarrow> nat \<Rightarrow> string list \<Rightarrow> ('v, 'w) tmachine list" where
  "test_entries supm n urls =
     map (\<lambda>(i, url). \<lparr>tm_id = i, tm_Addr = url, tm_server = [''Supervisor'' \<mapsto> service_Init supm Map.empty]\<rparr>) (zip [n..<n + length urls] urls)"

lemma test_entries_simps [simp]:
  "test_entries supm n [] = []"
  "test_entries supm n (url # urls) =
     \<lparr>tm_id = n, tm_Addr = url, tm_server = [''Supervisor'' \<mapsto> service_Init supm Map.empty]\<rparr> # test_entries supm (Suc n) urls"
proof -
  have "[n..<n + length (url # urls)] = n # [Suc n..<Suc n + length urls]" using upt_conv_Cons [of n "n + length (url # urls)"] by (simp del: upt_Suc)
  then show "test_entries supm n (url # urls) =
     \<lparr>tm_id = n, tm_Addr = url, tm_server = [''Supervisor'' \<mapsto> service_Init supm Map.empty]\<rparr> # test_entries supm (Suc n) urls"
    unfolding test_entries_def by (simp only: zip_Cons_Cons list.map prod.case)
qed (simp add: test_entries_def)

lemma test_loop_eq:
  "test_loop supm urls s =
     Ok (map (test_machine (Machineprocs s)) urls,
         s\<lparr>t_machines := t_machines s @ test_entries supm (t_made s) urls, t_made := t_made s + length urls\<rparr>)"
  by (induction urls arbitrary: s) (simp_all add: Register_def NewServer_def Let_def test_machine_def)

lemma test_Start_eq:
  "test_Start (supm, url) n s =
     (Inr (map (test_machine (Machineprocs s)) (map url [0..<n])),
      s\<lparr>t_machines := t_machines s @ test_entries supm (t_made s) (map url [0..<n]), t_made := t_made s + n\<rparr>)"
  by (simp add: test_Start_def test_Start_outcome_def test_loop_eq)

interpretation tsys: bm_bounded test_Start test_KeepaliveConfig
proof
  fix e n and s s' :: "('a, 'b) test_sys" and ms :: "'c machine list" and m
  assume s: "test_Start e n s = (Inr ms, s')"
  then show "length ms \<le> n" by (cases e) (auto simp: test_Start_eq)
  assume "m \<in> set ms"
  then show "fresh_machine m" using s
    by (cases e) (auto simp: test_Start_eq test_machine_def fresh_machine_def new_machine_def)
qed (auto simp: test_KeepaliveConfig_def duration_defs)

subsection \<open>Killing machines\<close>

datatype ('v, 'w) tsact = TStart "('v, 'w) rmethod list \<times> (nat \<Rightarrow> string)" nat | TKill nat "nat option"

fun run_tsact :: "('v, 'w) tsact \<Rightarrow> ('v, 'w) test_sys \<Rightarrow> ('v, 'w) test_sys" where
  "run_tsact (TStart e n) s = snd (test_Start e n s :: (err + unit machine list) \<times> ('v, 'w) test_sys)"
| "run_tsact (TKill rand m) s = snd (test_Kill rand m s)"

definition run_tsacts :: "('v, 'w) tsact list \<Rightarrow> ('v, 'w) test_sys \<Rightarrow> ('v, 'w) test_sys" where
  "run_tsacts as s = fold run_tsact as s"

text \<open>Every machine made is either under management or killed, exactly one of them.\<close>

definition test_inv :: "('v, 'w) test_sys \<Rightarrow> bool" where
  "test_inv s \<longleftrightarrow> distinct (map tm_id (t_machines s) @ killed s) \<and>
     set (map tm_id (t_machines s) @ killed s) = {0..<t_made s}"

lemma kill_loop_eq:
  "kill_loop m before ms s =
     (case List.extract (\<lambda>sm. tm_id sm = m) ms of
        None \<Rightarrow> (False, s)
      | Some (pre, sm, suf) \<Rightarrow> (True, machine_Kill sm (s\<lparr>t_machines := before @ pre @ suf\<rparr>)))"
  by (induction m before ms s rule: kill_loop.induct) (auto simp: extract_Nil_code extract_Cons_code split: option.splits)

text \<open>What \<open>Kill\<close> of a given machine does.\<close>

lemma test_Kill_cases:
  obtains (missing) "m \<notin> tm_id ` set (t_machines s)" "test_Kill rand (Some m) s = (False, s)"
  | (kill) pre sm suf where "t_machines s = pre @ sm # suf" "tm_id sm = m" "m \<notin> tm_id ` set pre"
      "test_Kill rand (Some m) s = (True, s\<lparr>t_machines := pre @ suf, killed := killed s @ [m]\<rparr>)"
proof (cases "List.extract (\<lambda>sm. tm_id sm = m) (t_machines s)")
  case None
  then have "m \<notin> tm_id ` set (t_machines s)" by (auto simp: extract_None_iff)
  then show thesis using missing None by (auto simp: test_Kill_def kill_loop_eq)
next
  case (Some r)
  obtain pre sm suf where r: "r = (pre, sm, suf)" by (metis surj_pair)
  then have "t_machines s = pre @ sm # suf" "tm_id sm = m" "m \<notin> tm_id ` set pre"
    using Some by (auto simp: extract_Some_iff)
  then show thesis using kill Some r by (simp add: test_Kill_def kill_loop_eq machine_Kill_def)
qed

lemma test_Kill_None:
  "t_machines s \<noteq> [] \<Longrightarrow> test_Kill rand None s = test_Kill rand (Some (tm_id (t_machines s ! (rand mod length (t_machines s))))) s"
  by (simp add: test_Kill_def)

lemma test_entries_ids: "map tm_id (test_entries supm n urls) = [n..<n + length urls]"
  by (simp add: test_entries_def case_prod_beta comp_def)

lemma test_inv_Kill: "test_inv s \<Longrightarrow> test_inv (snd (test_Kill rand (Some m) s))"
  by (cases rule: test_Kill_cases [of m s rand]) (auto simp: test_inv_def)

lemma test_inv_step: "test_inv s \<Longrightarrow> test_inv (run_tsact a s)"
proof (cases a)
  case (TStart e n)
  obtain supm url where e: "e = (supm, url)" by fastforce
  define ids where "ids = map tm_id (t_machines s)"
  assume "test_inv s"
  then have i: "distinct (ids @ killed s)" "set (ids @ killed s) = {0..<t_made s}" by (simp_all add: test_inv_def ids_def)
  then have bound: "x < t_made s" if "x \<in> set ids \<or> x \<in> set (killed s)" for x using that by auto
  have "distinct ((ids @ [t_made s..<t_made s + n]) @ killed s)" using i(1) bound by fastforce
  moreover have "set ((ids @ [t_made s..<t_made s + n]) @ killed s) = set (ids @ killed s) \<union> {t_made s..<t_made s + n}"
    by (simp only: set_append set_upt Un_ac)
  then have "set ((ids @ [t_made s..<t_made s + n]) @ killed s) = {0..<t_made s + n}"
    by (simp only: i(2)) (rule ivl_disj_un, simp_all)
  ultimately show ?thesis by (simp only: TStart e run_tsact.simps test_Start_eq snd_conv test_inv_def) (simp add: test_entries_ids ids_def)
next
  case (TKill rand m)
  assume "test_inv s"
  then show ?thesis using TKill
    by (cases m; cases "t_machines s = []") (auto simp: test_inv_Kill test_Kill_None, simp_all add: test_Kill_def)
qed

lemma test_inv_reachable: "test_inv (run_tsacts as test_New)"
proof -
  have "test_inv s \<Longrightarrow> test_inv (fold run_tsact as s)" for s by (induction as arbitrary: s) (auto simp: test_inv_step)
  moreover have "test_inv test_New" by (simp add: test_inv_def test_New_def)
  ultimately show ?thesis by (simp add: run_tsacts_def)
qed

text \<open>After any starts and kills of the test system, killing a machine succeeds exactly if it is under management,
  then cancels that machine and no other, keeps the others in their order, and killing it again fails; killing with no
  machine named succeeds as long as one is left.\<close>

theorem test_Kill_once:
  "let s = run_tsacts as test_New; (ok, s') = test_Kill rand (Some m) s
   in (ok \<longleftrightarrow> m \<in> tm_id ` set (t_machines s)) \<and>
      t_machines s' = filter (\<lambda>sm. tm_id sm \<noteq> m) (t_machines s) \<and>
      killed s' = killed s @ (if ok then [m] else []) \<and>
      test_Kill rand' (Some m) s' = (False, s') \<and>
      (fst (test_Kill rand None s) \<longleftrightarrow> t_machines s \<noteq> [])"
proof -
  define s where "s = run_tsacts as test_New"
  have d: "distinct (map tm_id (t_machines s))" using test_inv_reachable [of as] by (simp add: test_inv_def s_def)
  obtain ok s' where k: "test_Kill rand (Some m) s = (ok, s')" by fastforce
  have r: "fst (test_Kill rand None s) \<longleftrightarrow> t_machines s \<noteq> []"
  proof (cases "t_machines s = []")
    case False
    let ?m = "tm_id (t_machines s ! (rand mod length (t_machines s)))"
    have "?m \<in> tm_id ` set (t_machines s)" using False by (simp add: nth_mem)
    then show ?thesis using False by (cases rule: test_Kill_cases [of ?m s rand]) (auto simp: test_Kill_None)
  qed (simp add: test_Kill_def)
  have gone: "m \<notin> tm_id ` set (t_machines s') \<Longrightarrow> test_Kill rand' (Some m) s' = (False, s')"
    by (cases rule: test_Kill_cases [of m s' rand']) auto
  have "(ok \<longleftrightarrow> m \<in> tm_id ` set (t_machines s)) \<and> t_machines s' = filter (\<lambda>sm. tm_id sm \<noteq> m) (t_machines s) \<and>
      killed s' = killed s @ (if ok then [m] else [])"
  proof (cases rule: test_Kill_cases [of m s rand])
    case missing
    then show ?thesis using k by (auto intro!: filter_True [symmetric])
  next
    case (kill pre sm suf)
    then have "m \<notin> tm_id ` set pre" "m \<notin> tm_id ` set suf" using d by auto
    then have "filter (\<lambda>sm. tm_id sm \<noteq> m) pre = pre" "filter (\<lambda>sm. tm_id sm \<noteq> m) suf = suf"
      by (auto intro!: filter_True)
    then show ?thesis using k kill by auto
  qed
  moreover from this have "m \<notin> tm_id ` set (t_machines s')" by auto
  ultimately show ?thesis using gone r k by (simp add: s_def [symmetric])
qed

text \<open>\<open>Wait\<close> returns the number it was given, not the number of live machines it is documented to return.\<close>

theorem test_Wait_result:
  assumes "test_Wait n s = Some r"
  shows "r = n \<and> n \<le> int (test_N s) \<and> (r = int (test_N s) \<longleftrightarrow> n = int (test_N s))"
  using assms by (auto simp: test_Wait_def test_N_def split: if_splits)

theorem test_Wait_result_witness:
  "test_Wait 1 (snd (test_Start ([], \<lambda>i. ''u'') 2 test_New :: (err + unit machine list) \<times> (unit, unit) test_sys)) = Some 1"
  using test_Wait_result [of 1 "snd (test_Start ([], \<lambda>i. ''u'') 2 test_New :: (err + unit machine list) \<times> (unit, unit) test_sys)" 1]
  by (simp add: test_Wait_def test_Start_eq test_New_def test_entries_def)

text \<open>A session on the test system gets every machine it asks for, with the capacity of the system, marked not to be
  re-executed, at the address of its server, on which the supervisor is registered.\<close>

theorem test_session_Start:
  assumes "session_Start test_Start test_KeepaliveConfig (supm, url) n ps s b = (Inr rs, s', b')" and "i < n"
  shows "length rs = n \<and> Addr (heap b' ! (rs ! i)) = url i \<and> owner (heap b' ! (rs ! i)) \<and>
     keepalivePeriod (heap b' ! (rs ! i)) \<noteq> 0 \<and>
     (\<exists>tm \<in> set (t_machines s'). tm_Addr tm = url i \<and> tm_server tm ''Supervisor'' = Some (service_Init supm Map.empty))"
proof -
  obtain ms where ms: "test_Start (supm, url) n s = (Inr ms, s')" "rs = [length (heap b)..<length (heap b) + length ms]"
    "heap b' = heap b @ map (started (test_KeepaliveConfig s') ps) ms"
    using tsys.session_Start_cases [OF assms(1)] by blast
  have m: "ms = map (\<lambda>i. test_machine (Machineprocs s) (url i)) [0..<n]"
    "t_machines s' = t_machines s @ test_entries supm (t_made s) (map url [0..<n])"
    using ms(1) by (auto simp: test_Start_eq)
  have "test_entries supm (t_made s) (map url [0..<n]) ! i \<in> set (t_machines s')"
    "tm_Addr (test_entries supm (t_made s) (map url [0..<n]) ! i) = url i"
    "tm_server (test_entries supm (t_made s) (map url [0..<n]) ! i) ''Supervisor'' = Some (service_Init supm Map.empty)"
    using assms(2) nth_mem [of i "test_entries supm (t_made s) (map url [0..<n])"] unfolding m(2)
    by (auto simp: test_entries_def)
  moreover have "rs ! i \<in> set rs" using assms(2) ms(2) m(1) by auto
  then have "owner (heap b' ! (rs ! i)) \<and> keepalivePeriod (heap b' ! (rs ! i)) \<noteq> 0"
    using tsys.session_Start_machines [OF assms(1)] by blast
  moreover have "Addr (heap b' ! (rs ! i)) = url i"
    using assms(2) by (simp add: ms(2,3) m nth_append started_def Let_def test_machine_def new_machine_def)
  ultimately show ?thesis using ms(2) m(1) by auto
qed

theorem test_session_Start_witness:
  "let (r, s', b') = session_Start test_Start test_KeepaliveConfig ([], \<lambda>i. ''u'') 1 [Services [(''S'', ())]]
       (test_New :: (unit, unit) test_sys) (B_new 0 [])
   in r = Inr [0] \<and> Addr (heap b' ! 0) = ''u''"
proof -
  obtain r s' b' where e: "session_Start test_Start test_KeepaliveConfig ([], \<lambda>i. ''u'') 1 [Services [(''S'', ())]]
       (test_New :: (unit, unit) test_sys) (B_new 0 []) = (r, s', b' :: unit B)" by (metis surj_pair)
  have "r = Inr [0]"
    using e by (auto simp: session_Start_def test_Start_eq B_Start_def B_new_def Let_def applyParams_def test_machine_def new_machine_def)
  with test_session_Start [of "[]" "\<lambda>i. ''u''" 1 "[Services [(''S'', ())]]" test_New "B_new 0 []" "[0]" s' b' 0] e
  show ?thesis by simp
qed

end
