(* ===== verification/Keepalives.thy ===== *)
theory Keepalives
  imports Ec2_System Test_System
begin

text \<open>
  The two ends of a keepalive in one system: the loop of the driver (\<open>keepalive_round\<close> of \<open>machine.go\<close>) on a network that may lose a
  request or a reply, and the supervisor's \<open>Keepalive\<close> with its watchdog (\<open>supervisor.go\<close>) on the machine it keeps alive. Both models are used as
  they are; this theory only supplies the environment that connects them: a clock, the ticker of the watchdog, the fate of each
  call, and the readings of the memory use.
\<close>

subsection \<open>The connection\<close>

datatype delivery = Lost | ReplyLost duration | Delivered duration duration

record knet =
  kn_ticks :: "time \<Rightarrow> time \<Rightarrow> time list"   \<comment> \<open>the ticker's instants after the first and up to the second\<close>
  kn_mem :: "time \<Rightarrow> err + rat"
  kn_net :: "time \<Rightarrow> delivery"              \<comment> \<open>what becomes of the call made at an instant\<close>
  kn_backoff :: "nat \<Rightarrow> duration"

record kworld =
  kw_clock :: time
  kw_dog :: wdog

definition kn_ok :: "knet \<Rightarrow> bool" where
  "kn_ok K \<longleftrightarrow> (\<forall>a b. set (kn_ticks K a b) \<subseteq> {a <.. b}) \<and> (\<forall>n. 0 < kn_backoff K n) \<and>
     (\<forall>t. case kn_net K t of Lost \<Rightarrow> True | ReplyLost u \<Rightarrow> 0 \<le> u | Delivered u d \<Rightarrow> 0 \<le> u \<and> 0 \<le> d)"

text \<open>Time passes: the watchdog takes the ticks on the way.\<close>

definition ticks :: "knet \<Rightarrow> time list \<Rightarrow> witer list" where
  "ticks K ts = map (\<lambda>i. \<lparr>instant = i, ev = Tick, vm = kn_mem K i\<rparr>) ts"

definition advance :: "knet \<Rightarrow> duration \<Rightarrow> kworld \<Rightarrow> kworld" where
  "advance K d w = w\<lparr>kw_clock := kw_clock w + d,
     kw_dog := watchdog (ticks K (kn_ticks K (kw_clock w) (kw_clock w + d))) (kw_dog w)\<rparr>"

text \<open>The machine's side of a call; a process that has exited does not answer.\<close>

definition kserve :: "knet \<Rightarrow> string \<Rightarrow> 'i rarg \<Rightarrow> kworld \<Rightarrow> rreply option \<times> kworld" where
  "kserve K sm arg w =
     (if exits (kw_dog w) \<noteq> [] then (None, w)
      else case arg of
             RDur nxt \<Rightarrow>
               if sm = ''Supervisor.Keepalive''
               then (case Keepalive nxt (kw_clock w) (Inr (kw_clock w)) (wd_healthy (kw_dog w)) of
                       Inl e \<Rightarrow> (None, w)
                     | Inr (reply, t) \<Rightarrow>
                         (Some (RKeepalive (kr_Next reply) (kr_Healthy reply)),
                          w\<lparr>kw_dog := watchdog [\<lparr>instant = kw_clock w, ev = wevent.Next t, vm = kn_mem K (kw_clock w)\<rparr>] (kw_dog w)\<rparr>))
               else (Some NoReply, w)
           | _ \<Rightarrow> (Some NoReply, w))"

definition kcall :: "knet \<Rightarrow> duration \<Rightarrow> string \<Rightarrow> 'i rarg \<Rightarrow> kworld \<Rightarrow> (err option \<times> rreply) \<times> kworld" where
  "kcall K timeout sm arg w =
     (let lost = ((Some DeadlineExceeded, NoReply), advance K timeout w);
          half = (\<lambda>u. if u \<le> timeout
                      then ((Some DeadlineExceeded, NoReply), advance K (timeout - u) (snd (kserve K sm arg (advance K u w)))) else lost)
      in case kn_net K (kw_clock w) of
           Lost \<Rightarrow> lost
         | ReplyLost u \<Rightarrow> half u
         | Delivered u d \<Rightarrow>
             if timeout < u + d then half u
             else (case kserve K sm arg (advance K u w) of
                     (None, w1) \<Rightarrow> ((Some DeadlineExceeded, NoReply), advance K (timeout - u) w1)
                   | (Some reply, w1) \<Rightarrow> ((None, reply), advance K d w1)))"

definition kenv :: "knet \<Rightarrow> ('i, kworld) menv" where
  "kenv K = \<lparr>
     env_call = (\<lambda>addr t sm a w. kcall K (case t of None \<Rightarrow> 0 | Some t \<Rightarrow> t) sm a w),
     env_wait = (\<lambda>dl n w. if kw_clock w + kn_backoff K n \<le> dl then (None, advance K (kn_backoff K n) w) else (Some DeadlineExceeded, w)),
     env_now = kw_clock, env_select = (\<lambda>d w. (None, advance K (max 0 d) w)), env_sleep = (\<lambda>d w. advance K (max 0 d) w),
     env_self = None, env_stat = (\<lambda>_ _. None), env_open = (\<lambda>_ _. Inr []), env_args = [],
     env_mcall = (\<lambda>d sm a w. kcall K d sm a w), env_write = (\<lambda>_ _ w. (None, w)),
     env_suffix = (\<lambda>_. []), env_error = (\<lambda>_. [])\<rparr>"

subsection \<open>The watchdog in time\<close>

text \<open>Memory never runs short: the profiles of an unhealthy machine are not taken.\<close>

definition roomy :: "knet \<Rightarrow> bool" where
  "roomy K \<longleftrightarrow> (\<forall>t u. kn_mem K t = Inr u \<longrightarrow> u \<le> 95)"

definition well :: "wdog \<Rightarrow> bool" where
  "well d \<longleftrightarrow> exits d = [] \<and> wd_healthy d"

lemma check_well:
  "well d \<Longrightarrow> now \<le> wd_next d \<Longrightarrow> (\<And>u. mem = Inr u \<Longrightarrow> u \<le> 95) \<Longrightarrow> well (watchdog_check now mem d)"
  by (auto simp: well_def watchdog_check_def Let_def split: sum.splits option.splits)

lemma ticks_well:
  "well d \<Longrightarrow> roomy K \<Longrightarrow> \<forall>t \<in> set ts. t \<le> wd_next d \<Longrightarrow>
    well (watchdog (ticks K ts) d) \<and> wd_next (watchdog (ticks K ts) d) = wd_next d"
proof (induction ts arbitrary: d)
  case (Cons t ts)
  have "well (watchdog_check t (kn_mem K t) d)" using Cons.prems by (intro check_well) (auto simp: roomy_def)
  then show ?case using Cons.IH [of "watchdog_check t (kn_mem K t) d"] Cons.prems by (simp add: ticks_def)
qed (simp add: ticks_def)

lemma advance_clock [simp]: "kw_clock (advance K d w) = kw_clock w + d"
  by (simp add: advance_def)

lemma advance_well:
  assumes "kn_ok K" "roomy K" "well (kw_dog w)" "kw_clock w + d \<le> wd_next (kw_dog w)"
  shows "well (kw_dog (advance K d w)) \<and> wd_next (kw_dog (advance K d w)) = wd_next (kw_dog w)"
proof -
  have "set (kn_ticks K (kw_clock w) (kw_clock w + d)) \<subseteq> {kw_clock w <.. kw_clock w + d}" using assms(1) unfolding kn_ok_def by blast
  then have "\<forall>t \<in> set (kn_ticks K (kw_clock w) (kw_clock w + d)). t \<le> wd_next (kw_dog w)" using assms(4) by fastforce
  from ticks_well [OF assms(3,2) this] show ?thesis by (simp add: advance_def)
qed

text \<open>A keepalive that arrives is answered and renews the deadline.\<close>

lemma kserve_keepalive:
  assumes "roomy K" "well (kw_dog w)" "0 \<le> nxt"
  shows "\<exists>w1. kserve K ''Supervisor.Keepalive'' (RDur nxt) w = (Some (RKeepalive nxt True), w1) \<and> kw_clock w1 = kw_clock w \<and>
    well (kw_dog w1) \<and> wd_next (kw_dog w1) = kw_clock w + nxt"
proof -
  have "well (watchdog_check (kw_clock w) (kn_mem K (kw_clock w)) ((kw_dog w)\<lparr>wd_next := kw_clock w + nxt\<rparr>))"
    using assms by (intro check_well) (auto simp: roomy_def well_def)
  then show ?thesis using assms(2) by (simp add: kserve_def Keepalive_def well_def)
qed

abbreviation ka :: string where "ka \<equiv> ''Supervisor.Keepalive''"

lemma keepalive_arrives:
  assumes K: "kn_ok K" "roomy K" and w: "well (kw_dog w)" "kw_clock w + u \<le> wd_next (kw_dog w)" and d: "0 \<le> nxt" "d \<le> nxt"
  shows "\<exists>w1. kserve K ka (RDur nxt :: 'i rarg) (advance K u w) = (Some (RKeepalive nxt True), w1) \<and>
    kw_clock (advance K d w1) = kw_clock w + u + d \<and> well (kw_dog (advance K d w1)) \<and> wd_next (kw_dog (advance K d w1)) = kw_clock w + u + nxt"
proof -
  have "well (kw_dog (advance K u w))" using advance_well [OF K w] by blast
  from kserve_keepalive [OF K(2) this d(1)] obtain w1 where w1: "kserve K ka (RDur nxt :: 'i rarg) (advance K u w) = (Some (RKeepalive nxt True), w1)"
    "kw_clock w1 = kw_clock w + u" "well (kw_dog w1)" "wd_next (kw_dog w1) = kw_clock w + u + nxt" by auto
  then show ?thesis using advance_well [OF K w1(3), of d] d(2) by simp
qed

text \<open>A call whose request reaches the machine while its deadline has not passed.\<close>

definition arrives :: "knet \<Rightarrow> duration \<Rightarrow> kworld \<Rightarrow> bool" where
  "arrives K timeout w \<longleftrightarrow>
     (case kn_net K (kw_clock w) of
        Lost \<Rightarrow> False
      | ReplyLost u \<Rightarrow> u \<le> timeout \<and> kw_clock w + u \<le> wd_next (kw_dog w)
      | Delivered u d \<Rightarrow> u \<le> timeout \<and> kw_clock w + u \<le> wd_next (kw_dog w))"

lemma kcall_keepalive:
  assumes K: "kn_ok K" "roomy K" and w: "well (kw_dog w)" "kw_clock w + timeout \<le> wd_next (kw_dog w) \<or> arrives K timeout w"
    and t: "0 \<le> timeout" "timeout \<le> nxt" and c: "kcall K timeout ka (RDur nxt :: 'i rarg) w = ((e, reply), w')"
  shows "well (kw_dog w') \<and> kw_clock w \<le> kw_clock w' \<and> kw_clock w' \<le> kw_clock w + timeout \<and>
    (wd_next (kw_dog w') = wd_next (kw_dog w) \<and> \<not> arrives K timeout w \<or> kw_clock w + nxt \<le> wd_next (kw_dog w')) \<and>
    (e = None \<longrightarrow> reply = RKeepalive nxt True \<and> kw_clock w + nxt \<le> wd_next (kw_dog w'))"
proof -
  have lost: "well (kw_dog (advance K timeout w)) \<and> wd_next (kw_dog (advance K timeout w)) = wd_next (kw_dog w)"
    if "\<not> arrives K timeout w" using advance_well [OF K w(1)] w(2) that by blast
  have half: "well (kw_dog (advance K (timeout - u) (snd (kserve K ka (RDur nxt :: 'i rarg) (advance K u w))))) \<and>
      kw_clock (advance K (timeout - u) (snd (kserve K ka (RDur nxt :: 'i rarg) (advance K u w)))) = kw_clock w + timeout \<and>
      kw_clock w + nxt \<le> wd_next (kw_dog (advance K (timeout - u) (snd (kserve K ka (RDur nxt :: 'i rarg) (advance K u w)))))"
    if "0 \<le> u" "u \<le> timeout" "kw_clock w + u \<le> wd_next (kw_dog w)" for u
    using keepalive_arrives [OF K w(1) that(3), where 'i = 'i, of nxt "timeout - u"] t that by auto
  show ?thesis
  proof (cases "kn_net K (kw_clock w)")
    case Lost
    then show ?thesis using c lost t by (auto simp: kcall_def Let_def arrives_def)
  next
    case (ReplyLost u)
    then have u: "0 \<le> u" using K(1) by (force simp: kn_ok_def dest: spec [of _ "kw_clock w"])
    have "arrives K timeout w \<longleftrightarrow> u \<le> timeout" using w(2) ReplyLost by (auto simp: arrives_def)
    then show ?thesis using c ReplyLost u lost half [of u] t w(2) by (auto simp: kcall_def Let_def arrives_def split: if_splits)
  next
    case (Delivered u d)
    then have ud: "0 \<le> u" "0 \<le> d" using K(1) by (force simp: kn_ok_def dest: spec [of _ "kw_clock w"])+
    have arr: "arrives K timeout w \<longleftrightarrow> u \<le> timeout" using w(2) Delivered by (auto simp: arrives_def)
    show ?thesis
    proof (cases "timeout < u + d")
      case True
      then show ?thesis using c Delivered lost half [OF ud(1)] t arr w(2) by (auto simp: kcall_def Let_def arrives_def split: if_splits)
    next
      case False
      then have at: "kw_clock w + u \<le> wd_next (kw_dog w)" using arr w(2) ud Delivered by (auto simp: arrives_def)
      have "\<exists>w1. kserve K ka (RDur nxt :: 'i rarg) (advance K u w) = (Some (RKeepalive nxt True), w1) \<and>
          kw_clock (advance K d w1) = kw_clock w + u + d \<and> well (kw_dog (advance K d w1)) \<and> wd_next (kw_dog (advance K d w1)) = kw_clock w + u + nxt"
        using ud t False by (intro keepalive_arrives [OF K w(1) at]) simp_all
      then show ?thesis using c Delivered False ud by (auto simp: kcall_def Let_def)
    qed
  qed
qed

lemma retry_keepalive:
  fixes m :: "'i machine"
  assumes K: "kn_ok K" "roomy K" and w: "well (kw_dog w)" "kw_clock w + tmo + rpc \<le> wd_next (kw_dog w) \<or> arrives K rpc w"
    and t: "0 \<le> tmo" "0 \<le> rpc" "tmo + rpc \<le> nxt"
    and r: "retryCall L (kenv K) m tmo rpc ka (RDur nxt :: 'i rarg) w = Some ((e, reply), w')"
  shows "well (kw_dog w') \<and> (e = None \<longrightarrow> reply = RKeepalive nxt True \<and> kw_clock w' - rpc + nxt \<le> wd_next (kw_dog w'))"
proof -
  define dl where "dl = kw_clock w + tmo"
  define P :: "nat \<Rightarrow> kworld \<Rightarrow> (err option \<times> rreply) \<times> kworld \<Rightarrow> bool" where
    "P = (\<lambda>n v r. kw_clock w \<le> kw_clock v \<and> kw_clock v \<le> dl \<and> well (kw_dog v) \<and> (dl + rpc \<le> wd_next (kw_dog v) \<or> arrives K rpc v) \<longrightarrow>
       well (kw_dog (snd r)) \<and> (fst (fst r) = None \<longrightarrow> snd (fst r) = RKeepalive nxt True \<and> kw_clock (snd r) - rpc + nxt \<le> wd_next (kw_dog (snd r))))"
  have att: "well (kw_dog w1) \<and> kw_clock v \<le> kw_clock w1 \<and> dl + rpc \<le> wd_next (kw_dog w1) \<and>
      (e1 = None \<longrightarrow> reply1 = RKeepalive nxt True \<and> kw_clock w1 - rpc + nxt \<le> wd_next (kw_dog w1))"
    if "call (kenv K :: ('i, kworld) menv) m (Some rpc) ka (RDur nxt :: 'i rarg) v = ((e1, reply1), w1)" "kw_clock w \<le> kw_clock v" "kw_clock v \<le> dl"
      "well (kw_dog v)" "dl + rpc \<le> wd_next (kw_dog v) \<or> arrives K rpc v" for v e1 reply1 w1
  proof -
    have "kcall K rpc ka (RDur nxt :: 'i rarg) v = ((e1, reply1), w1)" using that(1) by (simp add: call_def kenv_def)
    from kcall_keepalive [OF K that(4) _ t(2) _ this] show ?thesis using that(2-5) t unfolding dl_def by auto
  qed
  have wait: "(ex = Some e1 \<longrightarrow> v' = v) \<and> (ex = None \<longrightarrow> kw_clock v < kw_clock v' \<and> kw_clock v' \<le> dl \<and>
      (well (kw_dog v) \<and> dl \<le> wd_next (kw_dog v) \<longrightarrow> well (kw_dog v') \<and> wd_next (kw_dog v') = wd_next (kw_dog v)))"
    if "env_wait (kenv K :: ('i, kworld) menv) dl n v = (ex, v')" for n v ex v' e1
    using that K(1) advance_well [OF K, of v "kn_backoff K n"] by (auto simp: kenv_def kn_ok_def split: if_splits)
  have "P 0 w ((e, reply), w')"
  proof (rule rc.induct [where L = L and env = "kenv K" and m = m and deadline = dl and rpcTimeout = rpc and serviceMethod = ka and arg = "RDur nxt :: 'i rarg"])
    show "retryCall_loop L (kenv K) m dl rpc ka (RDur nxt :: 'i rarg) 0 w = Some ((e, reply), w')"
      using r by (simp add: retryCall_def dl_def kenv_def)
  next
    fix n v a w1 out
    assume "call (kenv K) m (Some rpc) ka (RDur nxt :: 'i rarg) v = (a, w1)" "retryCall_final L ka n a = Some out"
    then show "P n v (out, w1)" using att [of v "fst a" "snd a" w1] by (auto simp: P_def retryCall_final_def split: option.splits if_splits)
  next
    fix n v a w1 e1 w2
    assume "call (kenv K) m (Some rpc) ka (RDur nxt :: 'i rarg) v = (a, w1)" "env_wait (kenv K :: ('i, kworld) menv) dl n w1 = (Some e1, w2)"
    then show "P n v (retryCall_gaveup e1, w2)" using att [of v "fst a" "snd a" w1] wait [of n w1 "Some e1" w2 e1]
      by (auto simp: P_def retryCall_gaveup_def)
  next
    fix n v a w1 w2 r
    assume "call (kenv K) m (Some rpc) ka (RDur nxt :: 'i rarg) v = (a, w1)" "env_wait (kenv K :: ('i, kworld) menv) dl n w1 = (None, w2)" "P (Suc n) w2 r"
    then show "P n v r" using att [of v "fst a" "snd a" w1] wait [of n w1 None w2] t(2) unfolding P_def by force
  qed
  then show ?thesis using w t by (simp add: P_def dl_def)
qed

subsection \<open>Rounds\<close>

text \<open>A lease of five minutes outlasts a round: half a period, the time the driver keeps trying, and the last call and the
  one before it.\<close>

definition lease_covers :: "duration \<times> duration \<times> duration \<Rightarrow> bool" where
  "lease_covers cfg = (case cfg of (period, timeout, rpcTimeout) \<Rightarrow>
     0 < period \<and> 0 \<le> timeout \<and> 0 \<le> rpcTimeout \<and> go_quot period 2 + timeout + 2 * rpcTimeout \<le> 5 * Minute)"

definition kconfig :: "'i machine \<Rightarrow> duration \<times> duration \<times> duration" where
  "kconfig m = (keepalivePeriod m, keepaliveTimeout m, keepaliveRpcTimeout m)"

text \<open>The local system's lease covers a round, and so does the test system's by default.\<close>

lemma lease_covers_systems:
  "lease_covers (local_KeepaliveConfig s)" "lease_covers (test_KeepaliveConfig test_New)"
  by (simp_all add: lease_covers_def local_KeepaliveConfig_def test_KeepaliveConfig_def test_New_def duration_defs)

text \<open>A world in which the machine is up and will be long enough for the driver to either renew the lease or give up, or in which the
  driver's next request gets to the machine in time.\<close>

definition ready :: "knet \<Rightarrow> 'i machine \<Rightarrow> kworld \<Rightarrow> bool" where
  "ready K m w \<longleftrightarrow> well (kw_dog w) \<and>
     (kw_clock w + keepaliveTimeout m + keepaliveRpcTimeout m \<le> wd_next (kw_dog w) \<or> arrives K (keepaliveRpcTimeout m) w)"

lemma go_quot_half_mono: "0 \<le> x \<Longrightarrow> x \<le> y \<Longrightarrow> go_quot x 2 \<le> go_quot y 2" "0 \<le> x \<Longrightarrow> 0 \<le> go_quot x 2"
  by (simp_all add: zdiv_mono1 pos_imp_zdiv_nonneg_iff)

lemma round_ready:
  fixes m :: "'i machine"
  assumes K: "kn_ok K" "roomy K" and c: "lease_covers (kconfig m)" and w: "ready K m w"
    and r: "keepalive_round L (kenv K) m start w = (t, f, w')"
  shows "well (kw_dog w') \<and> (f = flow.Next \<longrightarrow> ready K m w')"
proof (cases "retryCall L (kenv K :: ('i, kworld) menv) m (keepaliveTimeout m) (keepaliveRpcTimeout m) ka (RDur (5 * Minute)) w")
  case None
  then show ?thesis using r w by (auto simp: keepalive_round_def ready_def)
next
  case (Some x)
  obtain e reply w1 where x: "x = ((e, reply), w1)" by (metis surj_pair)
  have cfg: "0 < keepalivePeriod m" "0 \<le> keepaliveTimeout m" "0 \<le> keepaliveRpcTimeout m"
      "go_quot (keepalivePeriod m) 2 + keepaliveTimeout m + 2 * keepaliveRpcTimeout m \<le> 5 * Minute"
    using c by (auto simp: lease_covers_def kconfig_def)
  have half: "0 \<le> go_quot (keepalivePeriod m) 2" using cfg(1) by (intro go_quot_half_mono) simp
  have fits: "keepaliveTimeout m + keepaliveRpcTimeout m \<le> 5 * Minute" using half cfg(3,4) by linarith
  have w1: "well (kw_dog w1)"
      "e = None \<Longrightarrow> reply = RKeepalive (5 * Minute) True \<and> kw_clock w1 - keepaliveRpcTimeout m + 5 * Minute \<le> wd_next (kw_dog w1)"
    using retry_keepalive [OF K _ _ cfg(2,3) fits Some [unfolded x]] w by (auto simp: ready_def)
  show ?thesis
  proof (cases e)
    case None
    define nxt where "nxt = (if keepalivePeriod m < 5 * Minute then keepalivePeriod m else 5 * Minute)"
    have n: "0 \<le> go_quot nxt 2" "go_quot nxt 2 \<le> go_quot (keepalivePeriod m) 2"
      using cfg(1) by (auto simp: nxt_def duration_defs intro!: go_quot_half_mono)
    have "f = flow.Next \<and> w' = advance K (go_quot nxt 2) w1"
      using r Some x None w1(2) n(1) by (simp add: keepalive_round_def kenv_def nxt_def max_def)
    then show ?thesis using advance_well [OF K w1(1), of "go_quot nxt 2"] w1(2) [OF None] n cfg(2-4) by (auto simp: ready_def)
  next
    case (Some e')
    then show ?thesis using r \<open>retryCall _ _ _ _ _ _ _ _ = Some x\<close> x w1(1) by (auto simp: keepalive_round_def)
  qed
qed

lemma rounds_well:
  assumes "kn_ok K" "roomy K" "lease_covers (kconfig m)" "ready K m w" "rounds (keepalive_round L (kenv K) m start) n w = (t, f, w')"
  shows "well (kw_dog w')"
  using assms(4,5)
proof (induction n arbitrary: w t)
  case (Suc n)
  obtain t1 f1 w1 where r: "keepalive_round L (kenv K) m start w = (t1, f1, w1)" by (metis surj_pair)
  note one = round_ready [OF assms(1-3) Suc.prems(1) r]
  show ?case
  proof (cases f1)
    case Next
    then show ?thesis using one Suc.IH [of w1] Suc.prems(2) r by (auto simp: then_phase_def split: prod.splits)
  qed (use one Suc.prems(2) r in \<open>auto simp: then_phase_def\<close>)
qed (auto simp: ready_def)

lemma round_delivered:
  fixes m :: "'i machine"
  assumes K: "kn_ok K" "roomy K" and c: "lease_covers (kconfig m)" and w: "ready K m w"
    and net: "\<And>t. \<exists>u d. kn_net K t = Delivered u d \<and> u + d \<le> keepaliveRpcTimeout m"
  shows "\<exists>t w'. keepalive_round L (kenv K) m start w = (t, flow.Next, w')"
proof -
  obtain u d where ud: "kn_net K (kw_clock w) = Delivered u d" "u + d \<le> keepaliveRpcTimeout m" using net by blast
  have "0 \<le> u" "0 \<le> d" using K(1) ud(1) by (force simp: kn_ok_def dest: spec [of _ "kw_clock w"])+
  then have "kw_clock w + u \<le> wd_next (kw_dog w)" using w c ud by (auto simp: ready_def lease_covers_def kconfig_def arrives_def)
  then have "well (kw_dog (advance K u w))" using advance_well [OF K] w by (auto simp: ready_def)
  from kserve_keepalive [OF K(2) this, of "5 * Minute"] obtain w1 where
    s: "kserve K ka (RDur (5 * Minute) :: 'i rarg) (advance K u w) = (Some (RKeepalive (5 * Minute) True), w1)" by (auto simp: duration_defs)
  have "call (kenv K :: ('i, kworld) menv) m (Some (keepaliveRpcTimeout m)) ka (RDur (5 * Minute)) w = ((None, RKeepalive (5 * Minute) True), advance K d w1)"
    using ud s by (simp add: call_def kenv_def kcall_def)
  from rc.final_at_once [OF this, where L = L and n = 0] have
    "retryCall L (kenv K) m (keepaliveTimeout m) (keepaliveRpcTimeout m) ka (RDur (5 * Minute)) w = Some ((None, RKeepalive (5 * Minute) True), advance K d w1)"
    by (simp add: retryCall_def)
  then show ?thesis by (simp add: keepalive_round_def kenv_def)
qed

lemma rounds_delivered:
  assumes "kn_ok K" "roomy K" "lease_covers (kconfig m)" "ready K m w" "rounds (keepalive_round L (kenv K) m start) n w = (t, f, w')"
    and net: "\<forall>t. \<exists>u d. kn_net K t = Delivered u d \<and> u + d \<le> keepaliveRpcTimeout m"
  shows "f = Going"
  using assms(4,5)
proof (induction n arbitrary: w t)
  case (Suc n)
  obtain t1 w1 where r: "keepalive_round L (kenv K) m start w = (t1, flow.Next, w1)"
    using round_delivered [OF assms(1-3) Suc.prems(1)] net by blast
  then show ?case using round_ready [OF assms(1-3) Suc.prems(1) r] Suc.IH [of w1] Suc.prems(2) by (auto simp: then_phase_def split: prod.splits)
qed simp

text \<open>A machine whose supervisor was started at an instant, a while later: no keepalive has come yet.\<close>

definition booted :: "knet \<Rightarrow> time \<Rightarrow> duration \<Rightarrow> kworld" where
  "booted K t0 boot = advance K boot \<lparr>kw_clock = t0, kw_dog = watchdog_init t0\<rparr>"

lemma booted_ready:
  assumes "kn_ok K" "roomy K" "kn_net K (t0 + boot) \<in> {ReplyLost u, Delivered u d}" "u \<le> keepaliveRpcTimeout m" "boot + u \<le> 2 * Minute"
  shows "ready K m (booted K t0 boot)"
proof -
  have "0 \<le> u" using assms(1,3) by (force simp: kn_ok_def dest: spec [of _ "t0 + boot"])
  then have "well (kw_dog (booted K t0 boot)) \<and> wd_next (kw_dog (booted K t0 boot)) = t0 + 2 * Minute"
    using advance_well [OF assms(1,2), of "\<lparr>kw_clock = t0, kw_dog = watchdog_init t0\<rparr>" boot] assms(5)
    by (simp add: booted_def watchdog_init_def well_def)
  moreover have "kw_clock (booted K t0 boot) = t0 + boot" by (simp add: booted_def)
  ultimately show ?thesis using assms(3-5) by (auto simp: ready_def arrives_def)
qed

text \<open>C5. Keepalives keep a machine alive, from the start of its supervisor on. Suppose the lease covers a round, the machine's memory never runs short, and the
  request of the driver's first keepalive, made some time after the supervisor started, gets to the machine within its timeout and within the two
  minutes the watchdog grants initially; its reply may be lost. Then the watchdog never exits the machine in any number of rounds of the
  driver's loop, whatever later requests and replies the network loses: up to the instant the driver gives up on the machine the
  machine is there. And if every call gets through in time the driver never gives up.\<close>

theorem keepalives_sustain:
  assumes "kn_ok K" "roomy K" "lease_covers (kconfig m)"
    and "kn_net K (t0 + boot) \<in> {ReplyLost u, Delivered u d}" "u \<le> keepaliveRpcTimeout m" "boot + u \<le> 2 * Minute"
    and "rounds (keepalive_round L (kenv K) m start) n (booted K t0 boot) = (t, f, w')"
  shows "exits (kw_dog w') = [] \<and>
    ((\<forall>t. \<exists>u d. kn_net K t = Delivered u d \<and> u + d \<le> keepaliveRpcTimeout m) \<longrightarrow> f = Going)"
proof -
  have r: "ready K m (booted K t0 boot)" using booted_ready [OF assms(1,2,4-6)] .
  from rounds_well [OF assms(1-3) r assms(7)] rounds_delivered [OF assms(1-3) r assms(7)] show ?thesis by (auto simp: well_def)
qed

text \<open>A ticker of 30 seconds, and a network on which the calls made in a given time are lost.\<close>

definition ticker :: "time \<Rightarrow> time \<Rightarrow> time list" where
  "ticker a b = map (\<lambda>k. k * (30 * Second)) [a div (30 * Second) + 1 .. b div (30 * Second)]"

definition outage :: "time \<Rightarrow> knet" where
  "outage T = \<lparr>kn_ticks = ticker, kn_mem = (\<lambda>t. Inr 10), kn_net = (\<lambda>t. if t < T then Lost else Delivered 0 0), kn_backoff = (\<lambda>n. Second)\<rparr>"

text \<open>A network that is down but for the first instants, in which replies are lost.\<close>

definition half_outage :: "time \<Rightarrow> time \<Rightarrow> knet" where
  "half_outage t T = (outage T)\<lparr>kn_net := \<lambda>x. if x \<le> t then ReplyLost Second else if x < T then Lost else Delivered 0 0\<rparr>"

definition kmachine :: "duration \<times> duration \<times> duration \<Rightarrow> unit machine" where
  "kmachine cfg = (new_machine ''https://m0/'')\<lparr>keepalivePeriod := fst cfg, keepaliveTimeout := fst (snd cfg), keepaliveRpcTimeout := snd (snd cfg)\<rparr>"

definition leased :: kworld where
  "leased = \<lparr>kw_clock = 0, kw_dog = (watchdog_init 0)\<lparr>wd_next := 5 * Minute\<rparr>\<rparr>"

lemma ticker_within: "set (ticker a b) \<subseteq> {a <.. b}"
proof
  fix t assume t: "t \<in> set (ticker a b)"
  define p where "p = 30 * Second"
  have p: "0 < p" by (simp add: p_def duration_defs)
  obtain k where k: "t = k * p" "a div p + 1 \<le> k" "k \<le> b div p" using t unfolding ticker_def p_def by fastforce
  have "(a div p + 1) * p \<le> k * p" "k * p \<le> b div p * p" using k(2,3) p by (simp_all add: mult_right_mono)
  moreover have "a = a div p * p + a mod p" "b = b div p * p + b mod p" "a mod p < p" "0 \<le> b mod p" using p by simp_all
  ultimately have "a < k * p" "k * p \<le> b" by (simp only: distrib_right mult_1, linarith)+
  then show "t \<in> {a <.. b}" by (simp add: k(1))
qed

lemma outage_ok: "kn_ok (outage T)" "roomy (outage T)" "kn_ok (half_outage t T)" "roomy (half_outage t T)"
  using ticker_within by (auto simp: kn_ok_def roomy_def half_outage_def outage_def duration_defs)

theorem keepalives_sustain_witness:
  "exits (kw_dog (snd (snd (rounds (keepalive_round arg_errlib (kenv (half_outage Minute (2 * Minute)))
      (kmachine (local_KeepaliveConfig (new_local :: (unit, unit) local_sys))) 0) 9 (booted (half_outage Minute (2 * Minute)) 0 Minute))))) = []"
proof -
  let ?m = "kmachine (local_KeepaliveConfig (new_local :: (unit, unit) local_sys))" and ?K = "half_outage Minute (2 * Minute)"
  obtain t f w' where r: "rounds (keepalive_round arg_errlib (kenv ?K) ?m 0) 9 (booted ?K 0 Minute) = (t, f, w')" by (metis surj_pair)
  have "lease_covers (kconfig ?m)" "kn_net ?K (0 + Minute) \<in> {ReplyLost Second, Delivered Second 0}" "Second \<le> keepaliveRpcTimeout ?m"
    "Minute + Second \<le> 2 * Minute"
    by (simp_all add: lease_covers_def kconfig_def kmachine_def local_KeepaliveConfig_def half_outage_def duration_defs)
  from keepalives_sustain [OF outage_ok(3,4) this r] show ?thesis unfolding r by simp
qed

subsection \<open>An outage\<close>

lemma ticks_exits:
  "exits (watchdog (ticks K ts) d) = exits d @ filter (\<lambda>t. wd_next d < t) ts \<and> wd_next (watchdog (ticks K ts) d) = wd_next d"
  by (induction ts arbitrary: d) (simp_all add: ticks_def watchdog_check_exits)

lemma advance_exits:
  "exits (kw_dog (advance K d w)) = exits (kw_dog w) @ filter (\<lambda>t. wd_next (kw_dog w) < t) (kn_ticks K (kw_clock w) (kw_clock w + d))"
  "wd_next (kw_dog (advance K d w)) = wd_next (kw_dog w)"
  by (simp_all add: advance_def ticks_exits)

text \<open>A call during the outage, or to a machine that has exited, runs into its timeout, and the driver waits for a second.\<close>

lemma outage_call:
  fixes m :: "'i machine"
  assumes "kw_clock w < T \<or> exits (kw_dog w) \<noteq> []" "0 \<le> rpc"
  shows "\<exists>w1. call (kenv (outage T) :: ('i, kworld) menv) m (Some rpc) ka (RDur nxt) w = ((Some DeadlineExceeded, NoReply), w1) \<and>
    kw_clock w1 = kw_clock w + rpc \<and> wd_next (kw_dog w1) = wd_next (kw_dog w) \<and>
    exits (kw_dog w1) = exits (kw_dog w) @ filter (\<lambda>t. wd_next (kw_dog w) < t) (ticker (kw_clock w) (kw_clock w + rpc))"
proof (cases "kw_clock w < T")
  case True
  then show ?thesis by (simp add: call_def kenv_def kcall_def outage_def advance_exits)
next
  case False
  have "ticker (kw_clock w) (kw_clock w) = []" by (simp add: ticker_def)
  then have "kserve (outage T) ka (RDur nxt :: 'i rarg) (advance (outage T) 0 w) = (None, advance (outage T) 0 w)"
    using False assms by (simp add: kserve_def advance_exits)
  then show ?thesis using False assms \<open>ticker (kw_clock w) (kw_clock w) = []\<close>
    by (simp add: call_def kenv_def kcall_def outage_def advance_exits)
qed

lemma outage_retry:
  fixes m :: "'i machine"
  assumes "kw_clock w < T \<or> exits (kw_dog w) \<noteq> []" "0 \<le> rpc" "kw_clock w + rpc + Second \<le> dl"
  shows "\<exists>w2. retryCall_loop arg_errlib (kenv (outage T)) m dl rpc ka (RDur nxt) n w = retryCall_loop arg_errlib (kenv (outage T)) m dl rpc ka (RDur nxt) (Suc n) w2 \<and>
    kw_clock w2 = kw_clock w + rpc + Second \<and> wd_next (kw_dog w2) = wd_next (kw_dog w) \<and>
    exits (kw_dog w2) = exits (kw_dog w) @ filter (\<lambda>t. wd_next (kw_dog w) < t)
      (ticker (kw_clock w) (kw_clock w + rpc) @ ticker (kw_clock w + rpc) (kw_clock w + rpc + Second))"
proof -
  obtain w1 where w1: "call (kenv (outage T) :: ('i, kworld) menv) m (Some rpc) ka (RDur nxt) w = ((Some DeadlineExceeded, NoReply), w1)"
    "kw_clock w1 = kw_clock w + rpc" "wd_next (kw_dog w1) = wd_next (kw_dog w)"
    "exits (kw_dog w1) = exits (kw_dog w) @ filter (\<lambda>t. wd_next (kw_dog w) < t) (ticker (kw_clock w) (kw_clock w + rpc))"
    using outage_call [OF assms(1,2)] by blast
  have wait: "env_wait (kenv (outage T) :: ('i, kworld) menv) dl n w1 = (None, advance (outage T) Second w1)"
    using assms(3) w1(2) by (simp add: kenv_def outage_def)
  have "retryCall_final arg_errlib ka n (Some DeadlineExceeded, NoReply) = None" by (simp add: retryCall_final_def arg_errlib_def)
  from rc.retries [OF w1(1) this wait] show ?thesis using w1(2-4) by (auto simp: advance_exits outage_def)
qed

text \<open>C39. On EC2 the driver is more patient than its machines: it keeps trying for ten minutes, with calls of up to two minutes, to renew a lease of five. An
  outage of six minutes, after which every call would get through at once, makes the machine exit 330 seconds after its last
  keepalive, and the driver, having tried in vain, gives up on it.\<close>

theorem ec2_outage_kills:
  "\<not> lease_covers (ec2_KeepaliveConfig s) \<and>
   (\<exists>t w'. keepalive_round arg_errlib (kenv (outage (6 * Minute))) (kmachine (ec2_KeepaliveConfig s)) 0 leased = (t, Return, w') \<and>
      hd (exits (kw_dog w')) = 330 * Second)"
proof
  show "\<not> lease_covers (ec2_KeepaliveConfig s)" by (simp add: lease_covers_def ec2_KeepaliveConfig_def duration_defs)
  let ?m = "kmachine (ec2_KeepaliveConfig s)" and ?E = "kenv (outage (6 * Minute)) :: (unit, kworld) menv"
  let ?loop = "retryCall_loop arg_errlib ?E ?m (10 * Minute) (2 * Minute) ka (RDur (5 * Minute))"
  note tick = ticker_def duration_defs upto_rec_numeral
  obtain w1 where w1: "?loop 0 leased = ?loop 1 w1" "kw_clock w1 = 121 * Second" "wd_next (kw_dog w1) = 300 * Second" "exits (kw_dog w1) = []"
    using outage_retry [of leased "6 * Minute" "2 * Minute" "10 * Minute" ?m "5 * Minute" 0] by (auto simp: leased_def watchdog_init_def tick)
  obtain w2 where w2: "?loop 1 w1 = ?loop 2 w2" "kw_clock w2 = 242 * Second" "wd_next (kw_dog w2) = 300 * Second" "exits (kw_dog w2) = []"
    using outage_retry [of w1 "6 * Minute" "2 * Minute" "10 * Minute" ?m "5 * Minute" 1] w1(2-4) by (auto simp: numeral_2_eq_2 tick)
  obtain w3 where w3: "?loop 2 w2 = ?loop 3 w3" "kw_clock w3 = 363 * Second" "wd_next (kw_dog w3) = 300 * Second" "exits (kw_dog w3) = [330 * Second, 360 * Second]"
    using outage_retry [of w2 "6 * Minute" "2 * Minute" "10 * Minute" ?m "5 * Minute" 2] w2(2-4) by (auto simp: numeral_3_eq_3 numeral_2_eq_2 tick)
  obtain w4 where w4: "?loop 3 w3 = ?loop 4 w4" "kw_clock w4 = 484 * Second" "exits (kw_dog w4) \<noteq> []" "hd (exits (kw_dog w4)) = 330 * Second"
    using outage_retry [of w3 "6 * Minute" "2 * Minute" "10 * Minute" ?m "5 * Minute" 3] w3(2-4) by (auto simp: eval_nat_numeral duration_defs)
  obtain w5 where w5: "call ?E ?m (Some (2 * Minute)) ka (RDur (5 * Minute)) w4 = ((Some DeadlineExceeded, NoReply), w5)"
    "kw_clock w5 = 604 * Second" "hd (exits (kw_dog w5)) = 330 * Second"
    using outage_call [of w4 "6 * Minute" "2 * Minute" ?m "5 * Minute"] w4(2-4) by (auto simp: duration_defs hd_append)
  have "env_wait ?E (10 * Minute) 4 w5 = (Some DeadlineExceeded, w5)" using w5(2) by (simp add: kenv_def outage_def duration_defs)
  moreover have "retryCall_final arg_errlib ka 4 (Some DeadlineExceeded, NoReply) = None" by (simp add: retryCall_final_def arg_errlib_def)
  ultimately have "?loop 0 leased = Some (retryCall_gaveup DeadlineExceeded, w5)"
    using rc.wait_fails [OF w5(1)] w1(1) w2(1) w3(1) w4(1) by simp
  then have "retryCall arg_errlib ?E ?m (10 * Minute) (2 * Minute) ka (RDur (5 * Minute)) leased = Some (retryCall_gaveup DeadlineExceeded, w5)"
    by (simp add: retryCall_def kenv_def leased_def)
  moreover have "keepaliveTimeout ?m = 10 * Minute" "keepaliveRpcTimeout ?m = 2 * Minute" by (simp_all add: kmachine_def ec2_KeepaliveConfig_def)
  ultimately show "\<exists>t w'. keepalive_round arg_errlib ?E ?m 0 leased = (t, Return, w') \<and> hd (exits (kw_dog w')) = 330 * Second"
    using w5(3) by (simp add: keepalive_round_def retryCall_gaveup_def)
qed

end
