(* ===== verification/Index_Page.thy ===== *)
theory Index_Page
  imports Profiles Go_Template
begin

text \<open>
  The page that lists the profiles of a session (\<open>indexTmpl\<close> of \<open>bigmachine.go\<close>) and where its links lead. The template is one of
  \<open>html/template\<close>, whose escaping the theory models for the places the template has: text, the start of an address in a
  quoted attribute, and its query. Names of profiles and addresses of machines are bytes; those of a scheme are taken to be ASCII.
\<close>

subsection \<open>Escaping\<close>

definition alnum :: "char \<Rightarrow> bool" where
  "alnum c \<longleftrightarrow> c \<in> set ''0123456789ABCDEFGHIJKLMNOPQRSTUVWXYZabcdefghijklmnopqrstuvwxyz''"

definition hex_digit :: "nat \<Rightarrow> char" where "hex_digit n = ''0123456789abcdef'' ! n"

definition is_hex :: "char \<Rightarrow> bool" where "is_hex c \<longleftrightarrow> c \<in> set ''0123456789ABCDEFabcdef''"

definition pct :: "char \<Rightarrow> string" where
  "pct c = [CHR ''%'', hex_digit (of_char c div 16), hex_digit (of_char c mod 16)]"

definition url_pass :: "char \<Rightarrow> bool" where
  "url_pass c \<longleftrightarrow> alnum c \<or> c \<in> set ''-._~''"

text \<open>\<open>urlescaper\<close>, for a query.\<close>

definition url_escape :: "string \<Rightarrow> string" where
  "url_escape s = concat (map (\<lambda>c. if url_pass c then [c] else pct c) s)"

text \<open>\<open>urlnormalizer\<close>, for a path: reserved characters and escapes are left as they are.\<close>

fun url_normalize :: "string \<Rightarrow> string" where
  "url_normalize [] = []"
| "url_normalize (c # s) =
     (if url_pass c \<or> c \<in> set ''!#$&*+,/:;=?@[]''
         \<or> c = CHR ''%'' \<and> (case s of a # b # r \<Rightarrow> is_hex a \<and> is_hex b | _ \<Rightarrow> False)
      then [c] else pct c) @ url_normalize s"

definition lower :: "char \<Rightarrow> char" where
  "lower c = (if c \<in> set ''ABCDEFGHIJKLMNOPQRSTUVWXYZ'' then char_of (of_char c + 32 :: nat) else c)"

text \<open>\<open>urlfilter\<close>: an address of a scheme other than those three is replaced.\<close>

definition url_filter :: "string \<Rightarrow> string" where
  "url_filter s =
     (case SplitN2 s CHR '':'' of
        [protocol, rest] \<Rightarrow>
          if CHR ''/'' \<notin> set protocol \<and> map lower protocol \<notin> {''http'', ''https'', ''mailto''} then ''#ZgotmplZ'' else s
      | _ \<Rightarrow> s)"

definition attr_url :: "string \<Rightarrow> string" where
  "attr_url s = html_escape (url_normalize (url_filter s))"

definition attr_query :: "string \<Rightarrow> string" where
  "attr_query s = html_escape (url_escape s)"

subsection \<open>The page\<close>

definition quoted :: "string \<Rightarrow> string" where "quoted s = [CHR 0x22] @ s @ [CHR 0x22]"

definition all_row :: "profileStat \<Rightarrow> string" where
  "all_row p = newline # ''<tr><td align=right>'' @ html_escape (show_int (ps_Count p)) @ ''<td><a href='' @ quoted (attr_url (ps_Name p) @ ''?debug=1'')
     @ ''>'' @ html_escape (ps_Name p) @ ''</a>'' @ [newline]"

definition machine_link :: "string \<Rightarrow> string \<Rightarrow> string" where
  "machine_link mach name = attr_url name @ ''?debug=1&machine='' @ attr_query mach"

definition machine_row :: "string \<Rightarrow> profileStat \<Rightarrow> string" where
  "machine_row mach p = newline # ''<tr><td align=right>'' @ html_escape (show_int (ps_Count p)) @ ''<td><a href='' @ quoted (machine_link mach (ps_Name p))
     @ ''>'' @ html_escape (ps_Name p) @ ''</a>'' @ [newline]"

definition machine_table :: "string \<times> profileStat list \<Rightarrow> string" where
  "machine_table = (\<lambda>(mach, stats).
     newline # html_escape mach @ '':<br>'' @ newline # ''<table>'' @ newline # concat (map (machine_row mach) stats)
     @ newline # ''</table>'' @ newline # ''<br>'' @ newline # ''<a href='' @ quoted (''goroutine?debug=2&machine='' @ attr_query mach)
     @ ''>full goroutine stack dump</a>'' @ newline # ''<br><br>'' @ [newline])"

text \<open>The machines are listed in the order of their addresses.\<close>

definition indexTmpl :: "profileStat list \<Rightarrow> (string \<times> profileStat list) list \<Rightarrow> string" where
  "indexTmpl all stats =
     Join [''<html>'', ''<head>'', ''<title>/debug/bigmachine/pprof</title>'', ''</head>'', ''<body>'', ''/debug/bigmachine/pprof<br>'', ''merged:<br>'',
       ''<table>'', ''''] [newline]
     @ concat (map all_row all)
     @ Join ['''', ''</table>'', ''<br>'', ''<a href='' @ quoted ''goroutine?debug=2'' @ ''>full goroutine stack dump</a>'', ''<br><br>'', ''''] [newline]
     @ concat (map machine_table (sort_key fst stats))
     @ Join ['''', '''', ''</body>'', ''</html>'', ''''] [newline]"

subsection \<open>Following a link\<close>

text \<open>\<open>url.QueryUnescape\<close> and \<open>url.PathUnescape\<close>, which differ in what they make of other characters: None for a malformed escape.\<close>

definition hex_value :: "char \<Rightarrow> nat option" where
  "hex_value c =
     (let n = of_char c in
      if 48 \<le> n \<and> n \<le> 57 then Some (n - 48) else if 97 \<le> n \<and> n \<le> 102 then Some (n - 87)
      else if 65 \<le> n \<and> n \<le> 70 then Some (n - 55) else None)"

fun unescape :: "(char \<Rightarrow> char) \<Rightarrow> string \<Rightarrow> string option" where
  "unescape f [] = Some []"
| "unescape f (c # s) =
     (if c = CHR ''%'' then
        (case s of
           a # b # r \<Rightarrow>
             (case (hex_value a, hex_value b, unescape f r) of
                (Some x, Some y, Some t) \<Rightarrow> Some (char_of (16 * x + y) # t)
              | _ \<Rightarrow> None)
         | _ \<Rightarrow> None)
      else map_option (Cons (f c)) (unescape f s))"

definition query_unescape :: "string \<Rightarrow> string option" where
  "query_unescape = unescape (\<lambda>c. if c = CHR ''+'' then CHR '' '' else c)"

definition path_unescape :: "string \<Rightarrow> string option" where
  "path_unescape = unescape (\<lambda>c. c)"

text \<open>\<open>FormValue\<close> of a request with a given query: the first value of a key.\<close>

definition query_pair :: "string \<Rightarrow> string option \<times> string option" where
  "query_pair kv =
     (case SplitN2 kv CHR ''='' of
        [k, v] \<Rightarrow> (query_unescape k, query_unescape v)
      | _ \<Rightarrow> (query_unescape kv, Some ''''))"

definition form_value :: "string \<Rightarrow> string \<Rightarrow> string" where
  "form_value query k =
     (case List.find (\<lambda>kv. fst kv = Some k \<and> snd kv \<noteq> None) (map query_pair (Split query CHR ''&'')) of
        Some (_, Some v) \<Rightarrow> v
      | _ \<Rightarrow> '''')"

text \<open>The request a link of the page stands for: its address is relative to that of the page, and the server decodes the path. This
  is how an address is resolved if it has no fragment and its path no empty or dot segments.\<close>

definition follow :: "string \<Rightarrow> (string \<times> string) option" where
  "follow href =
     (case SplitN2 href CHR ''?'' of
        [p, q] \<Rightarrow> map_option (\<lambda>p. (''/debug/bigmachine/pprof/'' @ p, q)) (path_unescape p)
      | _ \<Rightarrow> map_option (\<lambda>p. (''/debug/bigmachine/pprof/'' @ p, '''')) (path_unescape href))"

lemma hex_digits:
  "n < 16 \<Longrightarrow> hex_value (hex_digit n) = Some n \<and> hex_digit n \<noteq> CHR ''%'' \<and> html_char (hex_digit n) = [hex_digit n]"
proof -
  assume "n < 16"
  moreover have "list_all (\<lambda>n. hex_value (hex_digit n) = Some n \<and> hex_digit n \<noteq> CHR ''%'' \<and> html_char (hex_digit n) = [hex_digit n]) [0..<16]"
    by code_simp
  ultimately show ?thesis by (simp only: list_all_iff atLeastLessThan_upt [symmetric] atLeastLessThan_iff) simp
qed

lemma of_char_halves: "(of_char c :: nat) div 16 < 16" "(of_char c :: nat) mod 16 < 16" "char_of (16 * (of_char c div 16) + of_char c mod 16 :: nat) = c"
proof -
  have "(of_char c :: nat) < 16 * 16" using nat_of_char_less_256 [of c] by linarith
  then show "(of_char c :: nat) div 16 < 16" by (rule less_mult_imp_div_less)
  show "(of_char c :: nat) mod 16 < 16" by simp
  show "char_of (16 * (of_char c div 16) + of_char c mod 16 :: nat) = c" by (simp only: mult_div_mod_eq) simp
qed

lemma url_pass_plain: "url_pass c \<Longrightarrow> c \<noteq> CHR ''%'' \<and> c \<noteq> CHR ''+'' \<and> c \<noteq> CHR '':'' \<and> html_char c = [c]"
  by (auto simp: url_pass_def alnum_def html_char_def)

lemma unescape_pct: "unescape f (pct c @ s) = map_option (Cons c) (unescape f s)"
  using hex_digits [OF of_char_halves(1), of c] hex_digits [OF of_char_halves(2), of c] of_char_halves(3) [of c]
  by (cases "unescape f s") (simp_all add: pct_def)

lemma query_roundtrip: "query_unescape (url_escape s) = Some s"
proof (induction s)
  case (Cons c s)
  then show ?case using url_pass_plain [of c] by (cases "url_pass c") (simp_all add: url_escape_def query_unescape_def unescape_pct)
qed (simp add: url_escape_def query_unescape_def)

lemma hex_digit_pass: "n < 16 \<Longrightarrow> url_pass (hex_digit n)"
proof -
  assume "n < 16"
  moreover have "list_all (\<lambda>n. url_pass (hex_digit n)) [0..<16]" by code_simp
  ultimately show ?thesis by (simp only: list_all_iff atLeastLessThan_upt [symmetric] atLeastLessThan_iff) simp
qed

lemma pct_chars: "d \<in> set (pct c) \<Longrightarrow> url_pass d \<or> d = CHR ''%''"
  using hex_digit_pass [OF of_char_halves(1), of c] hex_digit_pass [OF of_char_halves(2), of c] by (auto simp: pct_def)

lemma url_escape_chars: "d \<in> set (url_escape s) \<Longrightarrow> url_pass d \<or> d = CHR ''%''"
  by (auto simp: url_escape_def split: if_splits dest: pct_chars)

lemma url_escape_plain: "html_plain (url_escape s)"
proof (induction s)
  case (Cons c s)
  have "html_plain (if url_pass c then [c] else pct c)"
    using url_pass_plain [of c] hex_digits [OF of_char_halves(1), of c] hex_digits [OF of_char_halves(2), of c]
    by (auto simp: html_plain_def pct_def html_char_def [of "CHR ''%''"])
  with Cons show ?case by (simp add: url_escape_def html_plain_def)
qed (simp add: url_escape_def html_plain_def)

lemma attr_query_roundtrip: "query_unescape (attr_query s) = Some s" "CHR ''&'' \<notin> set (attr_query s)" "CHR ''='' \<notin> set (attr_query s)"
  using url_escape_chars [of _ s] by (auto simp: attr_query_def html_escape_plain [OF url_escape_plain] query_roundtrip url_pass_def alnum_def)

text \<open>The names whose links the template gets right: it normalises a name where it would have to escape it. Such a name has none of the
  characters that end a path, start an escape or a scheme, or are written as character references; and it is a path without empty or dot
  segments.\<close>

definition link_name :: "string \<Rightarrow> bool" where
  "link_name name \<longleftrightarrow> list_all (\<lambda>c. c \<notin> set ''?#%:&+'') name \<and> list_all (\<lambda>seg. seg \<notin> {'''', ''.'', ''..''}) (Split name CHR ''/'')"

lemma link_name_normalize:
  assumes "list_all (\<lambda>c. c \<notin> set ''?#%:&+'') name"
  shows "path_unescape (url_normalize name) = Some name \<and> list_all (\<lambda>d. url_pass d \<or> d = CHR ''%'' \<or> d \<in> set ''!$*,/;=@[]'') (url_normalize name)"
  using assms
proof (induction name)
  case (Cons c name)
  show ?case
  proof (cases "url_pass c \<or> c \<in> set ''!$*,/;=@[]''")
    case True
    then have "url_normalize (c # name) = c # url_normalize name" "c \<noteq> CHR ''%''" using url_pass_plain [of c] by auto
    then show ?thesis using Cons True by (simp add: path_unescape_def)
  next
    case False
    then have "url_normalize (c # name) = pct c @ url_normalize name" using Cons.prems by auto
    moreover have "list_all (\<lambda>d. url_pass d \<or> d = CHR ''%'' \<or> d \<in> set ''!$*,/;=@[]'') (pct c)" using pct_chars [of _ c] by (auto simp: list_all_iff)
    ultimately show ?thesis using Cons by (simp add: path_unescape_def unescape_pct del: url_normalize.simps)
  qed
qed (simp add: path_unescape_def)

lemma attr_url_name:
  assumes "link_name name"
  shows "path_unescape (attr_url name) = Some name \<and> CHR ''?'' \<notin> set (attr_url name)"
proof -
  have n: "list_all (\<lambda>c. c \<notin> set ''?#%:&+'') name" using assms by (simp add: link_name_def)
  then have "CHR '':'' \<notin> set name" by (auto simp: list_all_iff)
  then have f: "url_filter name = name" by (simp add: url_filter_def SplitN2_absent)
  have "html_char d = [d] \<and> d \<noteq> CHR ''?''" if "url_pass d \<or> d = CHR ''%'' \<or> d \<in> set ''!$*,/;=@[]''" for d
    using that url_pass_plain [of d] by (auto simp: html_char_def url_pass_def alnum_def)
  with link_name_normalize [OF n] have "html_plain (url_normalize name)" "CHR ''?'' \<notin> set (url_normalize name)"
    by (auto simp: html_plain_def list_all_iff)
  then show ?thesis using link_name_normalize [OF n] by (simp add: attr_url_def f html_escape_plain)
qed

lemma follow_link: "link_name name \<Longrightarrow> follow (attr_url name @ CHR ''?'' # q) = Some (''/debug/bigmachine/pprof/'' @ name, q)"
  using attr_url_name [of name] by (simp add: follow_def SplitN2_eq)

lemma sublist_concat_map: "x \<in> set xs \<Longrightarrow> sublist (f x) (concat (map f xs))"
proof -
  assume "x \<in> set xs"
  then obtain ys zs where "xs = ys @ x # zs" by (meson split_list)
  then have "concat (map f xs) = concat (map f ys) @ f x @ concat (map f zs)" by simp
  then show ?thesis by (metis sublist_appendI)
qed

text \<open>A link of a page that asks for a profile, of one machine or (with no address) of all, in the readable form of a given level.\<close>

definition leads_to :: "string \<Rightarrow> string \<Rightarrow> string \<Rightarrow> int \<Rightarrow> bool" where
  "leads_to page which addr dbg \<longleftrightarrow>
     (\<exists>href path q. sublist (''<a href='' @ quoted href @ ''>'') page \<and> follow href = Some (path, q) \<and>
        (\<forall>replies. pprofIndex path replies = ServeProfile which) \<and>
        request_profiler which (form_value q) = \<lparr>p_which = which, p_addr = addr, p_sec = 0, p_debug = dbg, p_gc = False\<rparr>)"

lemma leads_to_sub: "leads_to part which addr dbg \<Longrightarrow> sublist part page \<Longrightarrow> leads_to page which addr dbg"
  unfolding leads_to_def by (meson sublist_order.order_trans)

lemma debug_pairs:
  "map query_pair (Split ''debug=1'' CHR ''&'') = [(Some ''debug'', Some ''1'')]"
  "map query_pair (Split ''debug=2'' CHR ''&'') = [(Some ''debug'', Some ''2'')]"
  "map query_pair (Split (''debug=1&machine='' @ attr_query mach) CHR ''&'') = [(Some ''debug'', Some ''1''), (Some ''machine'', Some mach)]"
  "map query_pair (Split (''debug=2&machine='' @ attr_query mach) CHR ''&'') = [(Some ''debug'', Some ''2''), (Some ''machine'', Some mach)]"
  using attr_query_roundtrip(2) [of mach] Split_absent [of "CHR ''&''" "attr_query mach"]
  by (simp_all add: query_pair_def query_unescape_def attr_query_roundtrip(1) [of mach, unfolded query_unescape_def])

lemma debug_forms:
  "form_value ''debug=1'' = (\<lambda>k. if k = ''debug'' then ''1'' else '''')"
  "form_value ''debug=2'' = (\<lambda>k. if k = ''debug'' then ''2'' else '''')"
  "form_value (''debug=1&machine='' @ attr_query mach) = (\<lambda>k. if k = ''debug'' then ''1'' else if k = ''machine'' then mach else '''')"
  "form_value (''debug=2&machine='' @ attr_query mach) = (\<lambda>k. if k = ''debug'' then ''2'' else if k = ''machine'' then mach else '''')"
  unfolding fun_eq_iff form_value_def debug_pairs by auto

lemma level_value: "ParseInt '''' = 0" "ParseInt ''1'' = 1" "ParseInt ''2'' = 2"
  by (simp_all add: ParseInt_def decimal_def digit_value_def)

lemma leads_to_link:
  assumes "link_name name" "q \<in> {''debug=1'', ''debug=2'', ''debug=1&machine='' @ attr_query mach, ''debug=2&machine='' @ attr_query mach}"
  shows "leads_to (''<a href='' @ quoted (attr_url name @ CHR ''?'' # q) @ ''>'') name (form_value q ''machine'') (ParseInt (form_value q ''debug''))"
proof -
  have "name \<noteq> ''''" using assms(1) by (auto simp: link_name_def)
  then have "\<forall>replies. pprofIndex (''/debug/bigmachine/pprof/'' @ name) replies = ServeProfile name"
    by (simp add: pprofIndex_def TrimPrefix_def)
  moreover have "form_value q ''seconds'' = ''''" "form_value q ''gc'' = ''''" using assms(2) debug_forms by auto
  ultimately show ?thesis unfolding leads_to_def
    by (intro exI [of _ "attr_url name @ CHR ''?'' # q"] exI [of _ "''/debug/bigmachine/pprof/'' @ name"] exI [of _ q])
      (simp add: follow_link [OF assms(1)] request_profiler_def level_value)
qed

lemmas level_forms = debug_forms level_value

lemma leads_to_all: "link_name name \<Longrightarrow> leads_to (''<a href='' @ quoted (attr_url name @ ''?debug=1'') @ ''>'') name '''' 1"
  using leads_to_link [of name "''debug=1''"] by (simp add: level_forms)

lemma leads_to_machine: "link_name name \<Longrightarrow> leads_to (''<a href='' @ quoted (attr_url name @ ''?debug=1&machine='' @ attr_query mach) @ ''>'') name mach 1"
  using leads_to_link [of name "''debug=1&machine='' @ attr_query mach" mach] debug_forms(3) [of mach] by (simp add: level_value)

lemma goroutine_plain: "link_name ''goroutine''" "attr_url ''goroutine'' = ''goroutine''"
  by (simp_all add: link_name_def attr_url_def url_filter_def url_pass_def alnum_def html_escape_def html_char_def)

lemma leads_to_goroutines:
  "leads_to (''<a href='' @ quoted ''goroutine?debug=2'' @ ''>'') ''goroutine'' '''' 2"
  "leads_to (''<a href='' @ quoted (''goroutine?debug=2&machine='' @ attr_query mach) @ ''>'') ''goroutine'' mach 2"
  using leads_to_link [OF goroutine_plain(1), of "''debug=2''"] leads_to_link [OF goroutine_plain(1), of "''debug=2&machine='' @ attr_query mach" mach]
    debug_forms(4) [of mach] by (simp_all add: level_forms goroutine_plain(2))

lemma row_link: "sublist (''<a href='' @ quoted h @ ''>'') (a @ ''<td><a href='' @ quoted h @ ''>'' @ b)"
  unfolding sublist_def by (intro exI [of _ "a @ ''<td>''"] exI [of _ b]) simp

lemma all_row_link: "sublist (''<a href='' @ quoted (attr_url (ps_Name p) @ ''?debug=1'') @ ''>'') (all_row p)"
  using row_link [of "attr_url (ps_Name p) @ ''?debug=1''" "newline # ''<tr><td align=right>'' @ html_escape (show_int (ps_Count p))"
      "html_escape (ps_Name p) @ ''</a>'' @ [newline]"]
  by (simp add: all_row_def)

lemma machine_row_link: "sublist (''<a href='' @ quoted (attr_url (ps_Name p) @ ''?debug=1&machine='' @ attr_query mach) @ ''>'') (machine_row mach p)"
  using row_link [of "attr_url (ps_Name p) @ ''?debug=1&machine='' @ attr_query mach" "newline # ''<tr><td align=right>'' @ html_escape (show_int (ps_Count p))"
      "html_escape (ps_Name p) @ ''</a>'' @ [newline]"]
  by (simp add: machine_row_def machine_link_def)

lemma machine_table_links:
  "p \<in> set stats \<Longrightarrow> sublist (machine_row mach p) (machine_table (mach, stats))"
  "sublist (''<a href='' @ quoted (''goroutine?debug=2&machine='' @ attr_query mach) @ ''>'') (machine_table (mach, stats))"
proof -
  let ?a = "newline # html_escape mach @ '':<br>'' @ newline # ''<table>'' @ [newline]" and ?r = "concat (map (machine_row mach) stats)"
  let ?g = "''<a href='' @ quoted (''goroutine?debug=2&machine='' @ attr_query mach) @ ''>''"
  let ?b = "newline # ''</table>'' @ newline # ''<br>'' @ [newline]" and ?c = "''full goroutine stack dump</a>'' @ newline # ''<br><br>'' @ [newline]"
  have t: "machine_table (mach, stats) = ?a @ ?r @ ?b @ ?g @ ?c" by (simp add: machine_table_def)
  show "sublist ?g (machine_table (mach, stats))" unfolding t sublist_def by (intro exI [of _ "?a @ ?r @ ?b"] exI [of _ ?c]) simp
  assume "p \<in> set stats"
  then have "sublist (machine_row mach p) ?r" by (rule sublist_concat_map)
  then show "sublist (machine_row mach p) (machine_table (mach, stats))" unfolding t sublist_append by blast
qed

lemma indexTmpl_parts:
  "p \<in> set all \<Longrightarrow> sublist (all_row p) (indexTmpl all ms)"
  "x \<in> set ms \<Longrightarrow> sublist (machine_table x) (indexTmpl all ms)"
  "sublist (''<a href='' @ quoted ''goroutine?debug=2'' @ ''>'') (indexTmpl all ms)"
proof -
  show "sublist (all_row p) (indexTmpl all ms)" if "p \<in> set all"
    using sublist_concat_map [OF that, of all_row] unfolding indexTmpl_def sublist_append by blast
  show "sublist (machine_table x) (indexTmpl all ms)" if "x \<in> set ms"
    using sublist_concat_map [of x "sort_key fst ms" machine_table] that unfolding indexTmpl_def sublist_append by simp
  have "Join ['''', ''</table>'', ''<br>'', ''<a href='' @ quoted ''goroutine?debug=2'' @ ''>full goroutine stack dump</a>'', ''<br><br>'', ''''] [newline] =
      (newline # ''</table>'' @ newline # ''<br>'' @ [newline]) @ (''<a href='' @ quoted ''goroutine?debug=2'' @ ''>'') @
      ''full goroutine stack dump</a>'' @ newline # ''<br><br>'' @ [newline]" by (simp add: quoted_def)
  then have "sublist (''<a href='' @ quoted ''goroutine?debug=2'' @ ''>'')
      (Join ['''', ''</table>'', ''<br>'', ''<a href='' @ quoted ''goroutine?debug=2'' @ ''>full goroutine stack dump</a>'', ''<br><br>'', ''''] [newline])"
    by (metis sublist_appendI)
  then show "sublist (''<a href='' @ quoted ''goroutine?debug=2'' @ ''>'') (indexTmpl all ms)" unfolding indexTmpl_def sublist_append by blast
qed

text \<open>C33. The links of the index page, under the default prefix and for profile names that are paths without empty or dot segments and without the characters
  \<open>? # % : & +\<close>, ask for what they stand for: the page has a link that the handler takes for a request for the profile of all machines, for each profile of the
  merged table; one for the profile of that machine, for each profile in the table of a machine, whatever characters the address of the machine has; and for all machines and for each
  of them a link to the full goroutine dump.\<close>

theorem index_links:
  "(\<forall>p \<in> set all. link_name (ps_Name p) \<longrightarrow> leads_to (indexTmpl all ms) (ps_Name p) '''' 1) \<and>
   (\<forall>(mach, stats) \<in> set ms. \<forall>p \<in> set stats. link_name (ps_Name p) \<longrightarrow> leads_to (indexTmpl all ms) (ps_Name p) mach 1) \<and>
   leads_to (indexTmpl all ms) ''goroutine'' '''' 2 \<and>
   (\<forall>(mach, stats) \<in> set ms. leads_to (indexTmpl all ms) ''goroutine'' mach 2)"
proof -
  note sub = leads_to_sub [OF leads_to_sub]
  have "leads_to (indexTmpl all ms) (ps_Name p) '''' 1" if "p \<in> set all" "link_name (ps_Name p)" for p
    using sub [OF leads_to_all [OF that(2)] all_row_link indexTmpl_parts(1) [OF that(1)]] .
  moreover have "leads_to (indexTmpl all ms) (ps_Name p) mach 1" if "(mach, stats) \<in> set ms" "p \<in> set stats" "link_name (ps_Name p)" for mach stats p
    using leads_to_sub [OF sub [OF leads_to_machine [OF that(3)] machine_row_link machine_table_links(1) [OF that(2)]] indexTmpl_parts(2) [OF that(1)]] .
  moreover have "leads_to (indexTmpl all ms) ''goroutine'' '''' 2" by (rule leads_to_sub [OF leads_to_goroutines(1) indexTmpl_parts(3)])
  moreover have "leads_to (indexTmpl all ms) ''goroutine'' mach 2" if "(mach, stats) \<in> set ms" for mach stats
    using sub [OF leads_to_goroutines(2) machine_table_links(2) indexTmpl_parts(2) [OF that]] .
  ultimately show ?thesis by blast
qed

theorem index_links_witness:
  "leads_to (indexTmpl [] [(''https://h:1/?a=b&c'', [\<lparr>ps_Name = ''x.org/y z'', ps_Count = 3\<rparr>])]) ''x.org/y z'' ''https://h:1/?a=b&c'' 1"
proof -
  have "link_name ''x.org/y z''" by (simp add: link_name_def)
  then show ?thesis using index_links [of "[]" "[(''https://h:1/?a=b&c'', [\<lparr>ps_Name = ''x.org/y z'', ps_Count = 3\<rparr>])]"] by simp
qed

text \<open>A name with a question mark is not among them: its link asks for another profile.\<close>

theorem question_mark_misleads:
  "sublist (''<a href='' @ quoted ''a?b?debug=1'' @ ''>'') (indexTmpl [\<lparr>ps_Name = ''a?b'', ps_Count = 1\<rparr>] []) \<and>
   follow ''a?b?debug=1'' = Some (''/debug/bigmachine/pprof/a'', ''b?debug=1'')"
proof
  have "attr_url ''a?b'' = ''a?b''" by (simp add: attr_url_def url_filter_def url_pass_def alnum_def html_escape_def html_char_def)
  then show "sublist (''<a href='' @ quoted ''a?b?debug=1'' @ ''>'') (indexTmpl [\<lparr>ps_Name = ''a?b'', ps_Count = 1\<rparr>] [])"
    using sublist_order.order_trans [OF all_row_link [of "\<lparr>ps_Name = ''a?b'', ps_Count = 1\<rparr>"] indexTmpl_parts(1) [of _ "[\<lparr>ps_Name = ''a?b'', ps_Count = 1\<rparr>]" "[]"]] by simp
qed (simp add: follow_def path_unescape_def)

end
