(* ===== verification/Log_Tail.thy ===== *)
theory Log_Tail
  imports Bigmachine
begin

text \<open>
  The goroutine of \<open>Machine.loop\<close> (\<open>machine.go\<close>) that copies the log of an owned machine to the driver's standard error until it sees the
  marker \<open>Shutdown\<close> has the machine print. The lines are those of a \<open>bufio.Scanner\<close>, with its limit of 64 KiB on a line. What
  the system's \<open>Tail\<close> returns, and which write to standard error fails, are arguments.
\<close>

subsection \<open>Scanning lines\<close>

definition MaxScanTokenSize :: nat where "MaxScanTokenSize = 64 * 1024"

definition ErrTooLong :: err where "ErrTooLong = Opaque ''bufio.Scanner: token too long''"

definition drop_cr :: "string \<Rightarrow> string" where
  "drop_cr l = (if l \<noteq> [] \<and> last l = CHR 0x0D then butlast l else l)"

text \<open>The lines of a log that ends with the error \<open>e\<close> (None at its end), and the scanner's error. A last line without a line
  break counts unless it is empty.\<close>

fun scan_lines :: "string list \<Rightarrow> err option \<Rightarrow> string list \<times> err option" where
  "scan_lines [] e = ([], e)"
| "scan_lines [l] e =
     (if l = [] then ([], e) else if MaxScanTokenSize \<le> length l then ([], Some ErrTooLong) else ([drop_cr l], e))"
| "scan_lines (l # m # ls) e =
     (if MaxScanTokenSize \<le> length l then ([], Some ErrTooLong)
      else case scan_lines (m # ls) e of (rest, e) \<Rightarrow> (drop_cr l # rest, e))"

subsection \<open>The goroutine\<close>

record tailed =
  tl_out :: "string list"      \<comment> \<open>the lines written, without the prefix of the address\<close>
  tl_logged :: "err option"
  tl_done :: bool              \<comment> \<open>\<open>tailDone\<close> is closed\<close>

text \<open>The loop: the lines written, and its error unless it ended with the last line. \<open>perr\<close> is an error of the log that came with the
  marker; \<open>write_err n\<close> is the error of the write after \<open>n\<close> others.\<close>

fun tail_loop :: "(nat \<Rightarrow> err option) \<Rightarrow> err option \<Rightarrow> nat \<Rightarrow> string list \<Rightarrow> string list \<times> err option option" where
  "tail_loop write_err perr n [] = ([], None)"
| "tail_loop write_err perr n (line # lines) =
     (if HasSuffix line logSyncMarker then ([], Some perr)
      else case write_err n of
             Some e \<Rightarrow> ([], Some (Some e))
           | None \<Rightarrow> (case tail_loop write_err perr (Suc n) lines of (out, r) \<Rightarrow> (line # out, r)))"

definition tail_goroutine :: "(nat \<Rightarrow> err option) \<Rightarrow> err option \<Rightarrow> err + (bytes \<times> err option) \<Rightarrow> tailed" where
  "tail_goroutine write_err perr src =
     (case (case src of
              Inl e \<Rightarrow> ([], Some e)
            | Inr (b, e) \<Rightarrow>
                (case scan_lines (Split b CHR 0x0A) e of (lines, serr) \<Rightarrow>
                   (case tail_loop write_err perr 0 lines of (out, None) \<Rightarrow> (out, serr) | (out, Some r) \<Rightarrow> (out, r)))) of
        (out, err) \<Rightarrow> \<lparr>tl_out = out, tl_logged = (if err = Some Canceled then None else err), tl_done = True\<rparr>)"

subsection \<open>Properties\<close>

definition log_line :: "string \<Rightarrow> bool" where
  "log_line l \<longleftrightarrow> CHR 0x0A \<notin> set l \<and> CHR 0x0D \<notin> set l \<and> length l < MaxScanTokenSize"

definition log_text :: "string list \<Rightarrow> string" where
  "log_text ls = concat (map (\<lambda>l. l @ [CHR 0x0A]) ls)"

lemma drop_cr_line: "log_line l \<Longrightarrow> drop_cr l = l"
  by (auto simp: log_line_def drop_cr_def dest: last_in_set)

lemma Split_log_text: "\<forall>l \<in> set ls. CHR 0x0A \<notin> set l \<Longrightarrow> Split (log_text ls @ s) CHR 0x0A = ls @ Split s CHR 0x0A"
proof (induction ls)
  case (Cons l ls)
  have split: "CHR 0x0A \<notin> set a \<Longrightarrow> Split (a @ CHR 0x0A # t) CHR 0x0A = a # Split t CHR 0x0A" for a t by (induction a) auto
  have "log_text (l # ls) @ s = l @ CHR 0x0A # log_text ls @ s" by (simp add: log_text_def)
  then show ?case using Cons split [of l] by simp
qed (simp add: log_text_def)

lemma scan_lines_append:
  assumes "\<forall>l \<in> set ls. log_line l" "t \<noteq> []"
  shows "scan_lines (ls @ t) e = (ls @ fst (scan_lines t e), snd (scan_lines t e))"
  using assms(1)
proof (induction ls)
  case (Cons l ls)
  obtain m r where m: "ls @ t = m # r" using assms(2) by (cases ls; cases t) auto
  then show ?case using Cons by (auto simp: log_line_def drop_cr_line split: prod.splits)
qed simp

lemma tail_loop_append:
  assumes "\<forall>n. write_err n = None" "\<forall>l \<in> set ls. \<not> HasSuffix l logSyncMarker"
  shows "tail_loop write_err perr n (ls @ t) =
    (ls @ fst (tail_loop write_err perr (n + length ls) t), snd (tail_loop write_err perr (n + length ls) t))"
  using assms(2)
proof (induction ls arbitrary: n)
  case (Cons l ls)
  then show ?case using Cons.IH [of "Suc n"] assms(1) by (auto split: prod.splits)
qed simp



text \<open>A line of 64 KiB ends the copying of a log: neither that line nor any after it is shown, and the channel is closed as if the log had
  ended, although the machine runs on.\<close>

theorem tail_long_line:
  assumes "\<forall>l \<in> set ls. log_line l \<and> \<not> HasSuffix l logSyncMarker" "\<forall>n. write_err n = None"
    and "CHR 0x0A \<notin> set long" "MaxScanTokenSize \<le> length long"
  shows "tail_goroutine write_err perr (Inr (log_text ls @ long @ [CHR 0x0A] @ rest, e)) = \<lparr>tl_out = ls, tl_logged = Some ErrTooLong, tl_done = True\<rparr>"
proof -
  have nl: "\<forall>l \<in> set ls. CHR 0x0A \<notin> set l" using assms(1) unfolding log_line_def by auto
  have "Split (log_text ls @ long @ [CHR 0x0A] @ rest) CHR 0x0A = ls @ long # Split rest CHR 0x0A"
    using Split_log_text [OF nl] Split_log_text [of "[long]" rest] assms(3) by (simp add: log_text_def)
  moreover have "scan_lines (long # Split rest CHR 0x0A) e = ([], Some ErrTooLong)" using assms(4) by (cases "Split rest CHR 0x0A") simp_all
  ultimately have "scan_lines (Split (log_text ls @ long @ [CHR 0x0A] @ rest) CHR 0x0A) e = (ls, Some ErrTooLong)"
    using scan_lines_append [of ls "long # Split rest CHR 0x0A" e] assms(1) by simp
  moreover have "tail_loop write_err perr 0 ls = (ls, None)" using tail_loop_append [of write_err ls perr 0 "[]"] assms(1,2) by simp
  ultimately show ?thesis by (simp add: tail_goroutine_def ErrTooLong_def)
qed

theorem tail_long_line_witness:
  "tl_out (tail_goroutine (\<lambda>n. None) None (Inr (log_text [''starting''] @ replicate 65536 CHR ''x'' @ [CHR 0x0A] @ ''more'', None))) = [''starting'']"
proof -
  have "\<forall>l \<in> set [''starting'']. log_line l \<and> \<not> HasSuffix l logSyncMarker"
    by (simp add: log_line_def logSyncMarker_def MaxScanTokenSize_def HasSuffix_def suffix_def)
  moreover have "CHR 0x0A \<notin> set (replicate 65536 CHR ''x'')" using set_replicate_conv_if [of 65536 "CHR ''x''"] by (simp split: if_splits)
  moreover have "MaxScanTokenSize \<le> length (replicate 65536 CHR ''x'')" unfolding length_replicate by (simp add: MaxScanTokenSize_def)
  ultimately show ?thesis using tail_long_line [of "[''starting'']" "\<lambda>n. None" "replicate 65536 CHR ''x''" None "''more''" None] by (metis tailed.select_convs(1))
qed

end
