(* ===== verification/Spec2Isabelle.thy ===== *)
theory Spec2Isabelle
  imports Rpc_Stats Profiles Programs Keepalives Index_Page Log_Tail
begin

text \<open>
  \<^bold>\<open>A verification development of bigmachine.\<close> Bigmachine lets a Go program, the driver, start copies of itself on other machines and call
  services on them. The paths below are relative to \<open>src/\<close>.

  \<^bold>\<open>The program.\<close> A driver opens a session (\<open>bigmachine.go\<close>) on a system: processes of the local host (\<open>local.go\<close>), EC2
  instances (\<open>ec2system/\<close>), or goroutines for tests (\<open>testsystem/\<close>). The session asks the system for machines and keeps them in a table. Each has a goroutine
  (\<open>loop\<close> of \<open>machine.go\<close>) that waits for the machine to come up, has it replace its image by the driver's, registers the services, and then renews a
  lease. Callers use \<open>Machine.Call\<close>, which waits for the machine to run and ends when it stops. Calls are HTTP requests (\<open>rpc/\<close>) under certificates of a
  common authority (\<open>internal/authority\<close>). Every machine runs a supervisor (\<open>supervisor.go\<close>), which sets and executes binaries, gives information, and
  ends the process when its lease runs out. Pages for profiles, the status and exported variables (\<open>profile.go\<close>, \<open>status.go\<close>, \<open>expvar.go\<close>) gather from all machines.

  \<^bold>\<open>Conventions.\<close> Structs are records, enumerations datatypes; every operation is one definition that passes its state explicitly. Errors are values of
  \<open>err\<close>, panics the second constructor of \<open>outcome\<close>. Instants and durations are integers in nanoseconds. Machine integers are written out as words where
  they can wrap around. Byte strings are lists of characters. Critical sections are steps of a list (\<open>act\<close>, \<open>bact\<close>, \<open>tact\<close>) or of an inductive relation
  (\<open>call_step\<close>), and what holds of all lists holds of all interleavings. Goroutines of a group that do not share state appear by the order in which they end. Code that is
  not of the repository (the error and retry packages, gob, x509 and pem, the AWS SDK, ssh, yaml, pprof's profiles, the network, the
  clock) is an argument, mostly a record of functions; what a property needs of it is a hypothesis of that property and holds of the instance
  its witness gives.

  \<^bold>\<open>The theories.\<close>
  \<^item> \<open>Go_Base\<close>, \<open>Go_Strings\<close>: the prelude. Errors, durations, outcomes, the functions of \<open>strings\<close> and \<open>path\<close>, generic lemmas, and the locale \<open>retry_loop\<close> of the
    program's retry loops, with what such a loop can return and when it does. It is interpreted on \<open>retryCall\<close>
    and on the function \<open>retry\<close>, of which \<open>RetryCall\<close> and the loops of \<open>ec2system\<close> are instances.
  \<^item> \<open>Machine_State\<close>: the struct \<open>Machine\<close> and its critical sections. The invariant of every interleaving; when a channel of \<open>Wait\<close> is signalled and a context canceled;
    the ring buffer of reply times refines the history of the replies.
  \<^item> \<open>Machine_Loop\<close>: \<open>retryCall\<close>, \<open>exec\<close>, \<open>loop\<close> and the OOM monitor. States only increase, services are registered before \<open>Running\<close>, a loop that returns leaves the
    machine stopped, failure is detected in bounded time. \<open>loop\<close> runs for a given number of keepalive rounds, and the properties hold for every number.
  \<^item> \<open>Log_Tail\<close>: the goroutine that copies a machine's log up to the marker of its shutdown.
  \<^item> \<open>Machine_Call\<close>: \<open>Call\<close> as a step relation beside the machine's sections, \<open>RetryCall\<close>, \<open>start\<close>. A pending call is canceled when the machine stops; a call makes progress,
    and one under a context without end does not return before the machine has come up or stopped. \<open>start\<close> gives the machine its loop is begun with; what the loop and others do to it afterwards is a
    list of \<open>act\<close>s.
  \<^item> \<open>Rpc_Server\<close>, \<open>Rpc_Client\<close>, \<open>Rpc_Stats\<close>: discovery of methods, dispatch, the table of clients under concurrent calls, all branches of a reply, streams, fault injection,
    statistics. A registered value serves exactly its methods of the documented form. \<open>Call\<close> over a transport that reaches the server refines calling the method; the error at the end of a stream arrives as far as a trailer of HTTP/2
    carries it.
  \<^item> \<open>Supervisor\<close>: every method and the watchdog, a loop over the events of its \<open>select\<close>.
  \<^item> \<open>Keepalives\<close>: \<open>keepalive_round\<close> and the watchdog connected by a network that loses requests and replies. Where the lease covers a round, no machine whose first keepalive has
    come within the initial lease is ended before the driver gives up on it; on EC2 the lease does not.
  \<^item> \<open>Io_Util\<close>: the closing reader, the file buffer, the tee writer with its concurrent writes.
  \<^item> \<open>Bigmachine\<close>: the registry, \<open>Start\<close> and \<open>run\<close>, the table with \<open>Dial\<close>, \<open>B.Start\<close> and their histories, \<open>Shutdown\<close> with its calls, each of which takes time or never returns, the merged index of profiles. The locale \<open>bm_system\<close> and its extension
    \<open>bm_bounded\<close> state what a session relies on of a system; they are interpreted on the local, the test and the EC2 system.
  \<^item> \<open>Authority\<close>, \<open>Local_System\<close>, \<open>Test_System\<close>: certificates, with the round trip through the file that is shipped to machines; the two systems. A process of the local
    system joins the session that started it: it runs as a machine, under the driver's authority.
  \<^item> \<open>Go_Template\<close>, \<open>Cloud_Config\<close>, \<open>Ec2_Config\<close>, \<open>Ec2_System\<close>: \<open>tmpl\<close> over the part of \<open>html/template\<close> it needs; cloud configurations; flags, \<open>Init\<close>, volumes, and the configuration of an
    instance, which can be built and makes the instance share the driver's authority; \<open>Start\<close>, ssh commands, serving, spot notices.
  \<^item> \<open>Profiles\<close>, \<open>Index_Page\<close>, \<open>Diagnostics\<close>: gathering, printing and merging profiles without leaving files behind; the index page and the requests its links stand for; the status page and the exported variables,
    independent of the order of the answers.
  \<^item> \<open>Programs\<close>: the choice of a system by flags (\<open>driver/\<close>) and the example \<open>cmd/bigpi\<close>.

  \<^bold>\<open>Bounds.\<close> The loops that may not end are \<open>partial_function\<close>s into options; that they return is proved from assumptions on the clock (\<open>retryCall_bounded\<close>, \<open>RetryCall_returns\<close>) or outright
  (\<open>launch_once\<close>). The loops without end, of the machine and of the watchdog, take a number of rounds or a list of events, which no property bounds.

  \<^bold>\<open>Not modelled.\<close> The table of instance types (\<open>ec2system/instances\<close>), generated data, is an argument. \<open>cmd/ec2boot\<close>, \<open>cmd/bigoom\<close> and \<open>regress/\<close> are programs
  without logic of their own, \<open>doc.go\<close> a comment. Log messages are left out except where they are the program's output, as are flag parsing, the registration of gob types,
  the abbreviation of arguments in debug messages (\<open>truncatef\<close>) and the choice of the logger of an address, which only limits the rate of messages. The number formatting of the
  status page (sizes, instants, floating point) is an argument; the printing of the estimate of \<open>cmd/bigpi\<close> is left out. Memory effects of Go below the critical sections (races on
  plain fields) are modelled only for the statistics, whose \<open>max\<close> has them.
\<close>

end
